(* ===== verification/Yar_Prelude.thy ===== *)
theory Yar_Prelude
  imports Main "HOL-Library.Word"
begin

text \<open>
  Shared vocabulary of the yar.go development: bytes as 8-bit words, the
  32-bit words of the wire header, the conversion between Go strings (byte
  sequences, here \<open>char list\<close>) and byte slices, and the theorem collections
  the component theories add to.
\<close>

type_synonym byte = "8 word"
type_synonym bytes = "byte list"
type_synonym u32 = "32 word"

named_theorems wire_simps "equations that evaluate the wire encoding of headers"
named_theorems result_simps "equations that evaluate the error results of the client"

subsection \<open>Go strings and byte slices\<close>

text \<open>
  A Go \<open>string\<close> is an immutable byte sequence and \<open>[]byte(s)\<close>, \<open>string(b)\<close>
  convert without any decoding. An Isabelle \<open>char\<close> is exactly one byte, so the
  conversions are byte-wise bijections.
\<close>

definition byte_of_char :: "char \<Rightarrow> byte" where
  "byte_of_char c = word_of_nat (of_char c :: nat)"

definition char_of_byte :: "byte \<Rightarrow> char" where
  "char_of_byte b = char_of (unat b)"

definition bytes_of_string :: "string \<Rightarrow> bytes" where
  "bytes_of_string s = map byte_of_char s"

definition string_of_bytes :: "bytes \<Rightarrow> string" where
  "string_of_bytes bs = map char_of_byte bs"

lemma char_of_byte_of_char [simp]: "char_of_byte (byte_of_char c) = c"
  unfolding byte_of_char_def char_of_byte_def
  by (simp add: unat_of_nat)

lemma byte_of_char_of_byte [simp]: "byte_of_char (char_of_byte b) = b"
proof -
  have "unat b < 256"
    using unsigned_less [of b] by simp
  then show ?thesis
    unfolding byte_of_char_def char_of_byte_def by simp
qed

lemma string_of_bytes_of_string [simp]: "string_of_bytes (bytes_of_string s) = s"
  by (simp add: string_of_bytes_def bytes_of_string_def comp_def)

lemma bytes_of_string_of_bytes [simp]: "bytes_of_string (string_of_bytes bs) = bs"
  by (simp add: string_of_bytes_def bytes_of_string_def comp_def)

lemma length_bytes_of_string [simp]: "length (bytes_of_string s) = length s"
  by (simp add: bytes_of_string_def)

lemma length_string_of_bytes [simp]: "length (string_of_bytes bs) = length bs"
  by (simp add: string_of_bytes_def)

lemma bytes_of_string_append [simp]:
  "bytes_of_string (s @ t) = bytes_of_string s @ bytes_of_string t"
  by (simp add: bytes_of_string_def)

lemma take_bytes_of_string [simp]:
  "take n (bytes_of_string s) = bytes_of_string (take n s)"
  by (simp add: bytes_of_string_def take_map)

lemma bytes_of_string_inject [simp]:
  "bytes_of_string s = bytes_of_string t \<longleftrightarrow> s = t"
  by (metis string_of_bytes_of_string)

lemma byte_of_char_code [wire_simps]:
  "byte_of_char c = word_of_nat (of_char c)"
  by (simp add: byte_of_char_def)

lemmas bytes_of_string_code [wire_simps] = bytes_of_string_def byte_of_char_def
lemmas string_of_bytes_code [wire_simps] = string_of_bytes_def char_of_byte_def

subsection \<open>Lists cut at fixed widths\<close>

text \<open>The generic facts the fixed-width decoders rely on.\<close>

lemma take_append_exact [simp]:
  "length xs = n \<Longrightarrow> take n (xs @ ys) = xs"
  by simp

lemma drop_append_exact [simp]:
  "length xs = n \<Longrightarrow> drop n (xs @ ys) = ys"
  by simp

subsection \<open>32-bit fields\<close>

text \<open>A \<open>uint32\<close> field that reads back a length modulo \<open>2^32\<close> is that
  length converted to the field's width.\<close>

lemma u32_of_nat_unat:
  assumes "unat (w::u32) = n mod 2 ^ 32"
  shows "w = of_nat n"
proof -
  have "unat w = unat (of_nat n :: u32)"
    using assms by (simp add: unsigned_of_nat take_bit_nat_def)
  then show ?thesis
    using word_unat_eq_iff by blast
qed

end
