(* ===== verification/Yar_Protocol.thy ===== *)
theory Yar_Protocol
  imports Yar_Prelude
begin

text \<open>
  The protocol package \<open>yar\<close> that \<open>src/client/client.go\<close> imports
  (\<open>github.com/weixinhost/yar.go\<close>) is not part of the sources; this theory
  models from the specification the parts of it the client calls: the error
  taxonomy (\<open>yar.Error\<close>, \<open>yar.NewError\<close>), the options (\<open>yar.Opt\<close>), the
  fixed-width string copy \<open>yar.StrToFixedBytes\<close>, and the wire header
  (\<open>yar.Header\<close> with \<open>Bytes\<close> and \<open>Init\<close>) with its field widths. The
  header's integers are 32-bit words in big-endian order.
\<close>

unbundle bit_operations_syntax

subsection \<open>Errors\<close>

datatype error_kind = ErrorParam | ErrorConfig | ErrorPackager | ErrorNetwork | ErrorResponse

record yar_error =
  err_code :: error_kind
  err_message :: string

definition new_error :: "error_kind \<Rightarrow> string \<Rightarrow> yar_error" where
  "new_error k msg = \<lparr>err_code = k, err_message = msg\<rparr>"

text \<open>
  A Go function of the client returns either a \<open>*yar.Error\<close> or, on a nil
  pointer dereference, panics; both end the call. The model's failures are
  therefore a yar error or a runtime panic with its message.
\<close>

datatype go_fault = Err yar_error | Panic string

definition fail :: "error_kind \<Rightarrow> string \<Rightarrow> go_fault + 'a" where
  "fail k msg = Inl (Err (new_error k msg))"

subsection \<open>Options\<close>

text \<open>\<open>yar.Opt\<close>: one value per endpoint, read but never written by a call.\<close>

record opt =
  provider :: string
  service_name :: string
  magic_number :: u32
  packager :: string
  timeout :: int
  request_gzip :: bool
  accept_gzip :: bool
  dns_cache :: bool

subsection \<open>Constants of the wire format\<close>

definition protocol_length :: nat where "protocol_length = 72"
definition packager_length :: nat where "packager_length = 8"
definition provider_length :: nat where "provider_length = 28"
definition token_length :: nat where "token_length = 32"
definition err_okey :: int where "err_okey = 0"

subsection \<open>Fixed-width byte fields\<close>

text \<open>
  \<open>StrToFixedBytes(s, n)\<close> allocates \<open>n\<close> zero bytes and copies the bytes of
  \<open>s\<close> over their prefix: the string is truncated or padded with zeros.
\<close>

definition str_to_fixed_bytes :: "string \<Rightarrow> nat \<Rightarrow> bytes" where
  "str_to_fixed_bytes s n = bytes_of_string (take n s) @ replicate (n - length s) 0"

subsection \<open>Big-endian 32-bit words\<close>

definition be32 :: "u32 \<Rightarrow> bytes" where
  "be32 w = [ucast (drop_bit 24 w), ucast (drop_bit 16 w), ucast (drop_bit 8 w), ucast w]"

definition from_be32 :: "bytes \<Rightarrow> u32" where
  "from_be32 bs =
     push_bit 24 (ucast (bs ! 0)) OR push_bit 16 (ucast (bs ! 1)) OR
     push_bit 8 (ucast (bs ! 2)) OR ucast (bs ! 3)"

subsection \<open>The wire header\<close>

text \<open>
  \<open>yar.Header\<close> in the field order and widths of the wire table: protocol tag
  (\<open>MagicNumber\<close>, 4 bytes), correlation id (\<open>Id\<close>, 4), provider (28),
  credential (\<open>Token\<close>, 32), codec name (\<open>Packager\<close>, 8), body length (4).
  Go's fixed arrays are lists here; \<open>header_wf\<close> is the array-length
  invariant that Go's type system keeps.
\<close>

record header =
  hdr_magic_number :: u32
  hdr_id :: u32
  hdr_provider :: bytes
  hdr_token :: bytes
  hdr_packager :: bytes
  hdr_body_length :: u32

definition header_wf :: "header \<Rightarrow> bool" where
  "header_wf h \<longleftrightarrow>
     length (hdr_provider h) = provider_length \<and> length (hdr_token h) = token_length \<and>
     length (hdr_packager h) = packager_length"

definition header_width :: nat where
  "header_width = protocol_length + packager_length"

text \<open>\<open>yar.NewHeader()\<close>: every field zero.\<close>

definition new_header :: header where
  "new_header =
     \<lparr>hdr_magic_number = 0, hdr_id = 0, hdr_provider = replicate provider_length 0,
      hdr_token = replicate token_length 0, hdr_packager = replicate packager_length 0,
      hdr_body_length = 0\<rparr>"

text \<open>\<open>Header.Bytes()\<close>: the fields written one after the other.\<close>

definition header_bytes :: "header \<Rightarrow> bytes" where
  "header_bytes h =
     be32 (hdr_magic_number h) @ be32 (hdr_id h) @ hdr_provider h @ hdr_token h @
     hdr_packager h @ be32 (hdr_body_length h)"

text \<open>
  \<open>Header.Init(buf)\<close>: the fields read back at their offsets 0, 4, 8, 36, 68
  and 76 of a buffer of \<open>header_width\<close> bytes.
\<close>

definition header_init :: "bytes \<Rightarrow> header" where
  "header_init bs =
     \<lparr>hdr_magic_number = from_be32 (take 4 bs),
      hdr_id = from_be32 (take 4 (drop 4 bs)),
      hdr_provider = take provider_length (drop 8 bs),
      hdr_token = take token_length (drop 36 bs),
      hdr_packager = take packager_length (drop 68 bs),
      hdr_body_length = from_be32 (take 4 (drop 76 bs))\<rparr>"

section \<open>Properties of the protocol model\<close>

lemma fail_eq_iff [simp, result_simps]:
  "fail k msg = Inl (Err e) \<longleftrightarrow> e = new_error k msg"
  "fail k msg \<noteq> Inr x"
  "fail k msg \<noteq> Inl (Panic s)"
  by (auto simp: fail_def)

lemma err_code_new_error [simp]: "err_code (new_error k msg) = k"
  and err_message_new_error [simp]: "err_message (new_error k msg) = msg"
  by (simp_all add: new_error_def)

lemmas wire_lengths [wire_simps] =
  protocol_length_def packager_length_def provider_length_def token_length_def

lemma length_str_to_fixed_bytes [simp]: "length (str_to_fixed_bytes s n) = n"
  by (simp add: str_to_fixed_bytes_def)

lemma str_to_fixed_bytes_pad:
  "length s \<le> n \<Longrightarrow> str_to_fixed_bytes s n = bytes_of_string s @ replicate (n - length s) 0"
  by (simp add: str_to_fixed_bytes_def)

lemma str_to_fixed_bytes_truncate:
  "n \<le> length s \<Longrightarrow> str_to_fixed_bytes s n = bytes_of_string (take n s)"
  by (simp add: str_to_fixed_bytes_def)

lemma str_to_fixed_bytes_prefix:
  "take (length s) (str_to_fixed_bytes s n) = bytes_of_string (take n s)"
  by (cases "length s \<le> n") (simp_all add: str_to_fixed_bytes_def min_def)

text \<open>Copying a cut string into a zeroed array of the same width is the same
  pad-or-truncate operation.\<close>

lemma str_to_fixed_bytes_copy:
  "bytes_of_string (take n s) @ replicate (n - length (take n s)) 0 = str_to_fixed_bytes s n"
  by (cases "length s \<le> n") (simp_all add: str_to_fixed_bytes_def min_def)

lemma length_be32 [simp]: "length (be32 w) = 4"
  by (simp add: be32_def)

lemma from_be32_append:
  "length xs = 4 \<Longrightarrow> from_be32 (xs @ rest) = from_be32 xs"
  by (simp add: from_be32_def nth_append)

lemma from_be32_be32 [simp]: "from_be32 (be32 w) = w"
proof (rule bit_word_eqI)
  fix n :: nat
  assume "n < LENGTH(32)"
  then have "n < 32" by simp
  then consider "n < 8" | "8 \<le> n" "n < 16" | "16 \<le> n" "n < 24" | "24 \<le> n" "n < 32"
    by linarith
  then show "bit (from_be32 (be32 w)) n = bit w n"
    by cases (auto simp: from_be32_def be32_def bit_simps)
qed

lemma from_be32_be32_append [simp]: "from_be32 (be32 w @ rest) = w"
  by (simp add: from_be32_append)

lemma be32_from_be32:
  assumes "length bs = 4"
  shows "be32 (from_be32 bs) = bs"
proof -
  obtain a b c d where bs: "bs = [a, b, c, d]"
    using assms by (auto simp: length_Suc_conv numeral_eq_Suc)
  have "ucast (drop_bit 24 (from_be32 bs)) = a"
    "ucast (drop_bit 16 (from_be32 bs)) = b"
    "ucast (drop_bit 8 (from_be32 bs)) = c"
    "(ucast (from_be32 bs) :: byte) = d"
    unfolding bs from_be32_def
    by (rule bit_word_eqI; auto simp add: bit_simps dest: bit_imp_le_length)+
  then show ?thesis
    by (simp add: be32_def bs)
qed

lemma header_width_eq [wire_simps]: "header_width = 80"
  by (simp add: header_width_def wire_lengths)

lemma new_header_wf [simp]: "header_wf new_header"
  by (simp add: header_wf_def new_header_def)

lemma header_wf_update [simp]:
  "header_wf (h\<lparr>hdr_magic_number := m\<rparr>) = header_wf h"
  "header_wf (h\<lparr>hdr_id := i\<rparr>) = header_wf h"
  "header_wf (h\<lparr>hdr_body_length := l\<rparr>) = header_wf h"
  by (simp_all add: header_wf_def)

lemma length_header_bytes [simp]:
  "header_wf h \<Longrightarrow> length (header_bytes h) = header_width"
  by (simp add: header_wf_def header_bytes_def header_width_eq wire_lengths)

lemma header_init_wf:
  "header_width \<le> length bs \<Longrightarrow> header_wf (header_init bs)"
  by (simp add: header_wf_def header_init_def header_width_eq wire_lengths)

lemma header_init_take [simp]:
  "header_init (take header_width bs) = header_init bs"
  by (simp add: header_init_def header_width_eq wire_lengths take_drop min_def)

lemma header_init_header_bytes [simp]:
  assumes "header_wf h"
  shows "header_init (header_bytes h @ rest) = h"
proof -
  have lens: "length (hdr_provider h) = 28" "length (hdr_token h) = 32"
    "length (hdr_packager h) = 8"
    using assms by (simp_all add: header_wf_def wire_lengths)
  show ?thesis
    by (simp add: header_init_def header_bytes_def lens wire_lengths
        from_be32_append)
qed

lemma header_init_header_bytes_exact [simp]:
  "header_wf h \<Longrightarrow> header_init (header_bytes h) = h"
  using header_init_header_bytes [of h "[]"] by simp

lemma header_bytes_header_init:
  assumes "header_width \<le> length bs"
  shows "header_bytes (header_init bs) = take header_width bs"
proof -
  have len: "80 \<le> length bs"
    using assms by (simp add: header_width_eq)
  have split: "take 80 bs = take 4 bs @ take 4 (drop 4 bs) @ take 28 (drop 8 bs) @
      take 32 (drop 36 bs) @ take 8 (drop 68 bs) @ take 4 (drop 76 bs)"
  proof -
    have "take 80 bs = take (4 + (4 + (28 + (32 + (8 + 4))))) bs"
      by simp
    also have "\<dots> = take 4 bs @ take 4 (drop 4 bs) @ take 28 (drop (4 + 4) bs) @
        take 32 (drop (28 + (4 + 4)) bs) @ take 8 (drop (32 + (28 + (4 + 4))) bs) @
        take 4 (drop (8 + (32 + (28 + (4 + 4)))) bs)"
      by (simp only: take_add drop_drop)
    finally show ?thesis by simp
  qed
  show ?thesis
    using len
    by (simp add: header_bytes_def header_init_def header_width_eq wire_lengths
        be32_from_be32 split)
qed

end
