(* ===== verification/Yar_Packager.thy ===== *)
theory Yar_Packager
  imports Yar_Protocol
begin

text \<open>
  The codec interface (\<open>packager.Pack\<close>, \<open>packager.Unpack\<close> of the package
  \<open>github.com/weixinhost/yar.go/packager\<close>, outside the sources) and the
  envelopes it carries (\<open>yar.Request\<close>, \<open>yar.Response\<close>). A codec turns a
  dynamically typed value into bytes and back; decoding into a Go target of a
  concrete type is the generic decode followed by a typed conversion
  (reflection in Go), as the specification's design notes describe it.
\<close>

subsection \<open>Dynamically typed values\<close>

text \<open>What a codec decodes into \<open>interface{}\<close>: null, booleans, numbers,
  strings, arrays and objects (keys in wire order).\<close>

datatype dyn =
    VNull
  | VBool bool
  | VInt int
  | VStr string
  | VList "dyn list"
  | VMap "(string \<times> dyn) list"

text \<open>A value with all the values nested in it.\<close>

fun dyn_subs :: "dyn \<Rightarrow> dyn list" where
  "dyn_subs (VList xs) = VList xs # concat (map dyn_subs xs)"
| "dyn_subs (VMap kvs) = VMap kvs # concat (map (\<lambda>kv. dyn_subs (snd kv)) kvs)"
| "dyn_subs v = [v]"

text \<open>Object fields are looked up by key; as Go's decoders do, a later
  duplicate of a key overrides an earlier one.\<close>

definition field :: "(string \<times> dyn) list \<Rightarrow> string \<Rightarrow> dyn option" where
  "field kvs k = map_of (rev kvs) k"

subsection \<open>Codecs and the registry\<close>

record codec =
  encode :: "dyn \<Rightarrow> string + bytes"
  decode :: "bytes \<Rightarrow> string + dyn"

type_synonym registry = "string \<Rightarrow> codec option"

text \<open>A typed target: the conversion of a decoded value into the caller's type.\<close>

type_synonym 't target = "dyn \<Rightarrow> string + 't"

text \<open>
  The contract of a codec: decoding what it encoded gives the value back, and
  it can encode again null and every value nested in a value it decoded.
\<close>

definition codec_law :: "codec \<Rightarrow> bool" where
  "codec_law c \<longleftrightarrow>
     (\<forall>v bs. encode c v = Inr bs \<longrightarrow> decode c bs = Inr v) \<and>
     (\<forall>bs v w. decode c bs = Inr v \<longrightarrow> w \<in> set (VNull # dyn_subs v) \<longrightarrow>
        (\<exists>bs'. encode c w = Inr bs'))"

definition registry_law :: "registry \<Rightarrow> bool" where
  "registry_law reg \<longleftrightarrow> (\<forall>name c. reg name = Some c \<longrightarrow> codec_law c)"

text \<open>\<open>packager.Pack(name, v)\<close> and \<open>packager.Unpack(name, data, target)\<close>:
  the codec is selected by name; an unknown name is an error.\<close>

definition pack :: "registry \<Rightarrow> string \<Rightarrow> dyn \<Rightarrow> string + bytes" where
  "pack reg name v =
     (case reg name of
        None \<Rightarrow> Inl (''unsupported packager '' @ name)
      | Some c \<Rightarrow> encode c v)"

definition unpack :: "registry \<Rightarrow> string \<Rightarrow> bytes \<Rightarrow> 't target \<Rightarrow> string + 't" where
  "unpack reg name bs conv =
     (case reg name of
        None \<Rightarrow> Inl (''unsupported packager '' @ name)
      | Some c \<Rightarrow> (case decode c bs of Inl e \<Rightarrow> Inl e | Inr v \<Rightarrow> conv v))"

subsection \<open>The request envelope\<close>

text \<open>
  \<open>yar.Request\<close>: id, method, parameters (a Go \<open>interface{}\<close>; \<open>None\<close> is
  the nil slice) and the header. The codec encodes id, method and parameters
  under the keys \<open>i\<close>, \<open>m\<close>, \<open>p\<close>; the header is not part of the body.
\<close>

record request =
  req_id :: u32
  req_method :: string
  req_params :: "dyn list option"
  req_protocol :: header

text \<open>\<open>yar.NewRequest()\<close>, with the fresh id it draws given as the argument.\<close>

definition new_request :: "u32 \<Rightarrow> request" where
  "new_request rid = \<lparr>req_id = rid, req_method = [], req_params = None, req_protocol = new_header\<rparr>"

definition params_value :: "dyn list option \<Rightarrow> dyn" where
  "params_value ps = (case ps of None \<Rightarrow> VNull | Some xs \<Rightarrow> VList xs)"

definition request_value :: "request \<Rightarrow> dyn" where
  "request_value r =
     VMap [(''i'', VInt (uint (req_id r))), (''m'', VStr (req_method r)),
           (''p'', params_value (req_params r))]"

text \<open>What a peer reads back from a request body: id, method and parameters.\<close>

fun request_of_value :: "(int \<times> string \<times> dyn list) target" where
  "request_of_value (VMap kvs) =
     (case (field kvs ''i'', field kvs ''m'', field kvs ''p'') of
        (Some (VInt i), Some (VStr m), Some (VList ps)) \<Rightarrow> Inr (i, m, ps)
      | (Some (VInt i), Some (VStr m), Some VNull) \<Rightarrow> Inr (i, m, [])
      | _ \<Rightarrow> Inl ''malformed request'')"
| "request_of_value _ = Inl ''malformed request''"

subsection \<open>The response envelope\<close>

text \<open>
  \<open>yar.Response\<close>: id, error message, status and return value, under the keys
  \<open>i\<close>, \<open>e\<close>, \<open>s\<close>, \<open>r\<close>. Decoding into \<open>*Response\<close> follows Go's rules: a
  null body sets the pointer to nil (\<open>None\<close>), absent or null fields keep
  their zero value, a field of the wrong type or a body that is not an object
  is an error.
\<close>

record response =
  resp_id :: int
  resp_error :: string
  resp_status :: int
  resp_retval :: dyn

definition zero_response :: response where
  "zero_response = \<lparr>resp_id = 0, resp_error = [], resp_status = 0, resp_retval = VNull\<rparr>"

fun int_field :: "dyn option \<Rightarrow> string + int" where
  "int_field None = Inr 0"
| "int_field (Some VNull) = Inr 0"
| "int_field (Some (VInt n)) = Inr n"
| "int_field (Some _) = Inl ''cannot unmarshal into int''"

fun str_field :: "dyn option \<Rightarrow> string + string" where
  "str_field None = Inr []"
| "str_field (Some VNull) = Inr []"
| "str_field (Some (VStr s)) = Inr s"
| "str_field (Some _) = Inl ''cannot unmarshal into string''"

fun response_of_value :: "response option target" where
  "response_of_value VNull = Inr None"
| "response_of_value (VMap kvs) =
     (case (int_field (field kvs ''i''), str_field (field kvs ''e''), int_field (field kvs ''s'')) of
        (Inr i, Inr e, Inr s) \<Rightarrow>
          Inr (Some \<lparr>resp_id = i, resp_error = e, resp_status = s,
                     resp_retval = (case field kvs ''r'' of None \<Rightarrow> VNull | Some v \<Rightarrow> v)\<rparr>)
      | (Inl msg, _, _) \<Rightarrow> Inl msg
      | (_, Inl msg, _) \<Rightarrow> Inl msg
      | (_, _, Inl msg) \<Rightarrow> Inl msg)"
| "response_of_value _ = Inl ''cannot unmarshal into yar.Response''"

text \<open>How a peer encodes its response.\<close>

definition response_value :: "response \<Rightarrow> dyn" where
  "response_value r =
     VMap [(''i'', VInt (resp_id r)), (''e'', VStr (resp_error r)), (''s'', VInt (resp_status r)),
           (''r'', resp_retval r)]"

subsection \<open>A dictionary codec\<close>

text \<open>
  A concrete codec for running the client model on examples: it knows a
  fixed table of values and sends the one-byte index of a value. It satisfies
  the codec law whenever the table has at most 256 entries.
\<close>

fun tbl_index :: "dyn list \<Rightarrow> dyn \<Rightarrow> nat" where
  "tbl_index [] v = 0"
| "tbl_index (x # xs) v = (if x = v then 0 else Suc (tbl_index xs v))"

definition table_codec :: "dyn list \<Rightarrow> codec" where
  "table_codec tbl =
     \<lparr>encode = (\<lambda>v. if v \<in> set tbl then Inr [word_of_nat (tbl_index tbl v)]
                   else Inl ''value not in table''),
      decode = (\<lambda>bs. case bs of
                   [b] \<Rightarrow> if unat b < length tbl then Inr (tbl ! unat b) else Inl ''unknown code''
                 | _ \<Rightarrow> Inl ''bad frame'')\<rparr>"

text \<open>The dictionary codec satisfies the contract when its table holds null
  and is closed under nesting.\<close>

definition table_closed :: "dyn list \<Rightarrow> bool" where
  "table_closed tbl \<longleftrightarrow> VNull \<in> set tbl \<and> list_all (\<lambda>v. list_all (\<lambda>w. w \<in> set tbl) (dyn_subs v)) tbl"

subsection \<open>Example fixtures\<close>

text \<open>
  A string target (Go \<open>var out string\<close>), and a registry whose only codec,
  under the name \<open>json\<close>, is the dictionary codec over the values of the
  specification's scenario: the request \<open>Echo("hi")\<close> with id 7, a reply
  with status OK and return value \<open>"hi"\<close>, and a reply with status 1.
\<close>

fun string_target :: "string target" where
  "string_target (VStr s) = Inr s"
| "string_target _ = Inl ''cannot unmarshal into string''"

definition demo_ok_response :: response where
  "demo_ok_response = \<lparr>resp_id = 7, resp_error = [], resp_status = 0, resp_retval = VStr ''hi''\<rparr>"

definition demo_err_response :: response where
  "demo_err_response = \<lparr>resp_id = 7, resp_error = ''boom'', resp_status = 1, resp_retval = VNull\<rparr>"

definition demo_table :: "dyn list" where
  "demo_table =
     [VNull, VStr [], VStr ''hi'', VStr ''boom'', VStr ''Echo'', VInt 0, VInt 1, VInt 7,
      VList [VStr ''hi''],
      VMap [(''i'', VInt 7), (''m'', VStr ''Echo''), (''p'', VList [VStr ''hi''])],
      response_value demo_ok_response, response_value demo_err_response]"

definition demo_registry :: registry where
  "demo_registry name = (if name = ''json'' then Some (table_codec demo_table) else None)"

section \<open>Properties of the codec interface and envelopes\<close>

lemma unpack_pack:
  assumes "registry_law reg" and "pack reg name v = Inr bs"
  shows "unpack reg name bs conv = conv v"
proof -
  obtain c where c: "reg name = Some c" and e: "encode c v = Inr bs"
    using assms(2) by (auto simp: pack_def split: option.splits)
  from c assms(1) have "codec_law c"
    by (simp add: registry_law_def)
  with e have "decode c bs = Inr v"
    by (simp add: codec_law_def)
  with c show ?thesis
    by (simp add: unpack_def)
qed

lemma pack_unknown [simp]: "reg name = None \<Longrightarrow> pack reg name v = Inl (''unsupported packager '' @ name)"
  and unpack_unknown [simp]: "reg name = None \<Longrightarrow> unpack reg name bs conv = Inl (''unsupported packager '' @ name)"
  by (simp_all add: pack_def unpack_def)

lemma request_of_request_value:
  "request_of_value (request_value r) =
     Inr (uint (req_id r), req_method r, (case req_params r of None \<Rightarrow> [] | Some xs \<Rightarrow> xs))"
  by (simp add: request_value_def field_def params_value_def split: option.splits)

lemma response_of_response_value [simp]:
  "response_of_value (response_value r) = Inr (Some r)"
  by (simp add: response_value_def field_def)

lemma tbl_index_in:
  "v \<in> set xs \<Longrightarrow> tbl_index xs v < length xs \<and> xs ! tbl_index xs v = v"
  by (induction xs) auto

lemma table_codec_law:
  assumes "length tbl \<le> 256" and "table_closed tbl"
  shows "codec_law (table_codec tbl)"
  unfolding codec_law_def
proof (intro conjI allI impI)
  fix v bs
  assume enc: "encode (table_codec tbl) v = Inr bs"
  then have v: "v \<in> set tbl" and bs: "bs = [word_of_nat (tbl_index tbl v)]"
    by (auto simp: table_codec_def split: if_splits)
  from v have idx: "tbl_index tbl v < length tbl" "tbl ! tbl_index tbl v = v"
    using tbl_index_in by blast+
  with assms have "unat (word_of_nat (tbl_index tbl v) :: byte) = tbl_index tbl v"
    by (simp add: unat_of_nat)
  with idx show "decode (table_codec tbl) bs = Inr v"
    by (simp add: table_codec_def bs)
next
  fix bs v w
  assume "decode (table_codec tbl) bs = Inr v" and w: "w \<in> set (VNull # dyn_subs v)"
  then have "v \<in> set tbl"
    by (auto simp: table_codec_def split: list.splits if_splits)
  with w assms(2) have "w \<in> set tbl"
    by (auto simp: table_closed_def list_all_iff)
  then show "\<exists>bs'. encode (table_codec tbl) w = Inr bs'"
    by (simp add: table_codec_def)
qed

lemma request_value_protocol [simp]:
  "request_value (r\<lparr>req_protocol := p\<rparr>) = request_value r"
  by (simp add: request_value_def)

lemma demo_table_closed: "table_closed demo_table"
  by (simp add: table_closed_def demo_table_def response_value_def demo_ok_response_def
      demo_err_response_def)

lemma demo_registry_law: "registry_law demo_registry"
  unfolding registry_law_def demo_registry_def
  using table_codec_law [OF _ demo_table_closed] by (simp add: demo_table_def)

end
