(* ===== verification/Client_Request.thy ===== *)
theory Client_Request
  imports Yar_Packager
begin

text \<open>
  The client value and the two steps of \<open>src/client/client.go\<close> that build a
  request: \<open>initRequest\<close> (header identity fields, method, parameters) and
  \<open>packRequest\<close> (codec name in the header, encoding of the envelope).
\<close>

subsection \<open>The client\<close>

text \<open>
  \<open>Client\<close>: the address, its scheme (\<open>net\<close>), the socket transport that
  \<open>init\<close> creates for the socket schemes (recorded by scheme and address, since
  that transport is a stub), and the options.
\<close>

record client =
  hostname :: string
  net :: string
  transport :: "(string \<times> string) option"
  client_opt :: opt

subsection \<open>initRequest\<close>

text \<open>
  The loops \<open>for i := 0; i < len(dst); i++ { dst[i] = src[i] }\<close> that copy
  the identity fields into the header's arrays: they run over the array's
  indices and panic when the source is shorter. \<open>None\<close> is that panic.
\<close>

function copy_into :: "bytes \<Rightarrow> bytes \<Rightarrow> nat \<Rightarrow> bytes option" where
  "copy_into dst src i =
     (if i < length dst
      then (if i < length src then copy_into (dst[i := src ! i]) src (Suc i) else None)
      else Some dst)"
  by pat_completeness auto
termination
  by (relation "measure (\<lambda>(dst, src, i). length dst - i)") auto

definition index_panic_msg :: string where
  "index_panic_msg = ''runtime error: index out of range''"

definition init_request ::
  "client \<Rightarrow> u32 \<Rightarrow> string \<Rightarrow> dyn list option \<Rightarrow> go_fault + request" where
  "init_request c rid method params =
     (let r = new_request rid;
          bs = str_to_fixed_bytes (provider (client_opt c)) provider_length
      in case copy_into (hdr_provider (req_protocol r)) bs 0 of
           None \<Rightarrow> Inl (Panic index_panic_msg)
         | Some prov \<Rightarrow>
             let r = r\<lparr>req_protocol := (req_protocol r)\<lparr>hdr_provider := prov\<rparr>\<rparr>;
                 cs = str_to_fixed_bytes (service_name (client_opt c)) token_length
             in case copy_into (hdr_token (req_protocol r)) cs 0 of
                  None \<Rightarrow> Inl (Panic index_panic_msg)
                | Some tok \<Rightarrow>
                    let r = r\<lparr>req_protocol := (req_protocol r)\<lparr>hdr_token := tok\<rparr>\<rparr>
                    in if length method < 1 then fail ErrorParam ''call empty method''
                       else
                         let r = r\<lparr>req_params := Some (case params of None \<Rightarrow> [] | Some ps \<Rightarrow> ps)\<rparr>;
                             r = r\<lparr>req_method := method\<rparr>;
                             r = r\<lparr>req_protocol := (req_protocol r)\<lparr>hdr_magic_number := magic_number (client_opt c)\<rparr>\<rparr>;
                             r = r\<lparr>req_protocol := (req_protocol r)\<lparr>hdr_id := req_id r\<rparr>\<rparr>
                         in Inr r)"

subsection \<open>packRequest\<close>

text \<open>
  The codec name is cut to \<open>PackagerLength\<close> bytes, copied into the zeroed
  8-byte header field, and the cut name selects the codec that encodes the
  envelope.
\<close>

definition send_packager :: "string \<Rightarrow> string" where
  "send_packager name = (if length name < packager_length then name else take packager_length name)"

text \<open>\<open>for i, s := range sendPackager { p[i] = s }\<close>: the loop runs over the
  source; an index past the 8-byte array would panic.\<close>

fun copy_range :: "bytes \<Rightarrow> bytes \<Rightarrow> nat \<Rightarrow> bytes option" where
  "copy_range p [] i = Some p"
| "copy_range p (s # rest) i = (if i < length p then copy_range (p[i := s]) rest (Suc i) else None)"

definition pack_request :: "registry \<Rightarrow> client \<Rightarrow> request \<Rightarrow> go_fault + request \<times> bytes" where
  "pack_request reg c r =
     (let name = send_packager (packager (client_opt c))
      in case copy_range (replicate packager_length 0) (bytes_of_string name) 0 of
           None \<Rightarrow> Inl (Panic index_panic_msg)
         | Some p \<Rightarrow>
             let r = r\<lparr>req_protocol := (req_protocol r)\<lparr>hdr_packager := p\<rparr>\<rparr>
             in case pack reg name (request_value r) of
                  Inl e \<Rightarrow> fail ErrorPackager e
                | Inr bs \<Rightarrow> Inr (r, bs))"

subsection \<open>The request \<open>initRequest\<close> builds\<close>

definition built_request :: "client \<Rightarrow> u32 \<Rightarrow> string \<Rightarrow> dyn list option \<Rightarrow> request" where
  "built_request c rid method params =
     \<lparr>req_id = rid, req_method = method,
      req_params = Some (case params of None \<Rightarrow> [] | Some ps \<Rightarrow> ps),
      req_protocol =
        \<lparr>hdr_magic_number = magic_number (client_opt c), hdr_id = rid,
         hdr_provider = str_to_fixed_bytes (provider (client_opt c)) provider_length,
         hdr_token = str_to_fixed_bytes (service_name (client_opt c)) token_length,
         hdr_packager = replicate packager_length 0, hdr_body_length = 0\<rparr>\<rparr>"

subsection \<open>The scenario's client\<close>

text \<open>The options and client of the specification's first scenario.\<close>

definition demo_opt :: opt where
  "demo_opt =
     \<lparr>provider = ''svcA'', service_name = ''tokenX'', magic_number = 0x80DFEC60,
      packager = ''json'', timeout = 2000, request_gzip = False, accept_gzip = False,
      dns_cache = False\<rparr>"

definition demo_client :: client where
  "demo_client =
     \<lparr>hostname = ''http://127.0.0.1:8080/api'', net = ''http'', transport = None,
      client_opt = demo_opt\<rparr>"

section \<open>Properties of the request builder\<close>

declare copy_into.simps [simp del]

lemma copy_into_prefix:
  "i \<le> length dst \<Longrightarrow> length dst \<le> length src \<Longrightarrow>
   copy_into dst src i = Some (take i dst @ drop i (take (length dst) src))"
proof (induction dst src i rule: copy_into.induct)
  case (1 dst src i)
  show ?case
  proof (cases "i < length dst")
    case True
    with "1.prems" have "i < length src" by simp
    with True "1.IH" "1.prems" have "copy_into (dst[i := src ! i]) src (Suc i) =
        Some (take (Suc i) (dst[i := src ! i]) @ drop (Suc i) (take (length dst) src))"
      by simp
    moreover have "take (Suc i) (dst[i := src ! i]) @ drop (Suc i) (take (length dst) src) =
        take i dst @ drop i (take (length dst) src)"
      using True \<open>i < length src\<close> "1.prems"
      by (simp add: take_Suc_conv_app_nth take_update_swap Cons_nth_drop_Suc [symmetric] min_def list_update_append)
    ultimately show ?thesis
      using True \<open>i < length src\<close> by (simp add: copy_into.simps [of dst src i])
  next
    case False
    then have "copy_into dst src i = Some dst"
      by (subst copy_into.simps) simp
    with False "1.prems" show ?thesis by simp
  qed
qed

lemma copy_into_full:
  "length dst \<le> length src \<Longrightarrow> copy_into dst src 0 = Some (take (length dst) src)"
  using copy_into_prefix [of 0 dst src] by simp

lemma copy_range_prefix:
  "i + length src \<le> length p \<Longrightarrow> copy_range p src i = Some (take i p @ src @ drop (i + length src) p)"
proof (induction p src i rule: copy_range.induct)
  case (2 p s rest i)
  then have "i < length p" by simp
  with 2 have "copy_range (p[i := s]) rest (Suc i) =
      Some (take (Suc i) (p[i := s]) @ rest @ drop (Suc i + length rest) (p[i := s]))"
    by simp
  with \<open>i < length p\<close> show ?case
    by (simp add: take_Suc_conv_app_nth take_update_swap list_update_append)
qed simp

lemma copy_range_zeros:
  "length src \<le> n \<Longrightarrow> copy_range (replicate n 0) src 0 = Some (src @ replicate (n - length src) 0)"
  using copy_range_prefix [of 0 src "replicate n 0"] by simp

lemma init_request_eq:
  "init_request c rid method params =
     (if method = [] then fail ErrorParam ''call empty method''
      else Inr (built_request c rid method params))"
  by (simp add: init_request_def built_request_def new_request_def new_header_def Let_def copy_into_full
      wire_lengths)

lemma built_request_wf [simp]: "header_wf (req_protocol (built_request c rid method params))"
  by (simp add: built_request_def header_wf_def)

lemma init_request_Inr:
  "init_request c rid method params = Inr r \<longleftrightarrow>
     method \<noteq> [] \<and> r = built_request c rid method params"
  by (auto simp: init_request_eq)


text \<open>The codec name that selects the codec is the name cut to 8 bytes.\<close>

lemma send_packager_eq [simp]: "send_packager name = take packager_length name"
  by (simp add: send_packager_def)

lemma pack_request_eq:
  "pack_request reg c r =
     (let name = take packager_length (packager (client_opt c));
          r' = r\<lparr>req_protocol := (req_protocol r)\<lparr>hdr_packager :=
                  str_to_fixed_bytes (packager (client_opt c)) packager_length\<rparr>\<rparr>
      in case pack reg name (request_value r') of
           Inl e \<Rightarrow> fail ErrorPackager e
         | Inr bs \<Rightarrow> Inr (r', bs))"
proof -
  have "copy_range (replicate packager_length 0) (bytes_of_string (take packager_length (packager (client_opt c)))) 0 =
      Some (str_to_fixed_bytes (packager (client_opt c)) packager_length)"
    by (subst copy_range_zeros) (simp_all add: str_to_fixed_bytes_def min_def)
  then show ?thesis
    by (simp add: pack_request_def send_packager_eq Let_def)
qed

lemma pack_request_wf:
  assumes "header_wf (req_protocol r)" and "pack_request reg c r = Inr (r', bs)"
  shows "header_wf (req_protocol r')"
  using assms
  by (auto simp: pack_request_eq Let_def header_wf_def split: sum.splits)

lemma built_request_value:
  "request_of_value (request_value (built_request c rid method params)) =
     Inr (uint rid, method, (case params of None \<Rightarrow> [] | Some xs \<Rightarrow> xs))"
  by (simp add: request_of_request_value built_request_def)

lemma pack_request_built:
  assumes "pack reg (take packager_length (packager (client_opt c))) (request_value (built_request c rid method params)) = Inr pb"
  shows "pack_request reg c (built_request c rid method params) =
    Inr ((built_request c rid method params)\<lparr>req_protocol := (req_protocol (built_request c rid method params))
           \<lparr>hdr_packager := str_to_fixed_bytes (packager (client_opt c)) packager_length\<rparr>\<rparr>, pb)"
  using assms by (simp add: pack_request_eq Let_def)

lemma demo_pack_echo:
  "pack demo_registry ''json'' (request_value (built_request c 7 ''Echo'' (Some [VStr ''hi'']))) = Inr [9]"
  by (simp add: pack_def demo_registry_def table_codec_def demo_table_def request_value_def
      built_request_def params_value_def)

text \<open>
  C12: initRequest fails exactly for the empty method, with the Param error
  \<open>call empty method\<close>; for any other method it succeeds, with the
  request's id and method, the parameters (an empty list for none), and a
  well-formed header that carries the client's protocol tag, the request id
  as correlation id, and the provider and service name cut or zero-padded to
  28 and 32 bytes.
\<close>

theorem init_request_ok:
  "(method = [] \<longrightarrow> init_request c rid method params = Inl (Err (new_error ErrorParam ''call empty method''))) \<and>
   (method \<noteq> [] \<longrightarrow>
     (\<exists>r. init_request c rid method params = Inr r \<and> req_id r = rid \<and> req_method r = method \<and>
        req_params r = Some (case params of None \<Rightarrow> [] | Some ps \<Rightarrow> ps) \<and>
        hdr_magic_number (req_protocol r) = magic_number (client_opt c) \<and> hdr_id (req_protocol r) = rid \<and>
        hdr_provider (req_protocol r) = str_to_fixed_bytes (provider (client_opt c)) 28 \<and>
        hdr_token (req_protocol r) = str_to_fixed_bytes (service_name (client_opt c)) 32 \<and>
        header_wf (req_protocol r)))"
  by (simp add: init_request_eq fail_def built_request_def header_wf_def wire_lengths)

lemma init_request_ok_witness:
  "init_request demo_client 7 [] None = Inl (Err (new_error ErrorParam ''call empty method'')) \<and>
   (\<exists>r. init_request demo_client 7 ''Echo'' None = Inr r \<and> req_id r = 7 \<and> req_method r = ''Echo'' \<and>
     req_params r = Some [] \<and> hdr_magic_number (req_protocol r) = 0x80DFEC60 \<and> hdr_id (req_protocol r) = 7 \<and>
     hdr_provider (req_protocol r) = str_to_fixed_bytes ''svcA'' 28 \<and>
     hdr_token (req_protocol r) = str_to_fixed_bytes ''tokenX'' 32 \<and> header_wf (req_protocol r))"
  using init_request_ok [of "[]" demo_client 7 None] init_request_ok [of "''Echo''" demo_client 7 None]
  by (simp add: demo_client_def demo_opt_def)

text \<open>
  C13: packRequest writes the codec name, zero-padded or cut to 8 bytes,
  into the header's codec-name field, changes nothing else, and encodes the
  envelope with the codec registered under the name cut to 8 bytes.
\<close>

theorem pack_request_header:
  assumes "pack_request reg c r = Inr (r', bs)"
  shows "r' = r\<lparr>req_protocol := (req_protocol r)\<lparr>hdr_packager := str_to_fixed_bytes (packager (client_opt c)) 8\<rparr>\<rparr> \<and>
    pack reg (take 8 (packager (client_opt c))) (request_value r) = Inr bs"
  using assms by (auto simp: pack_request_eq Let_def packager_length_def split: sum.splits)

lemma pack_request_header_witness:
  "pack_request demo_registry demo_client (built_request demo_client 7 ''Echo'' (Some [VStr ''hi''])) =
     Inr ((built_request demo_client 7 ''Echo'' (Some [VStr ''hi'']))\<lparr>req_protocol :=
       (req_protocol (built_request demo_client 7 ''Echo'' (Some [VStr ''hi''])))\<lparr>hdr_packager :=
         str_to_fixed_bytes ''json'' 8\<rparr>\<rparr>, [9]) \<and>
   hdr_packager (req_protocol ((built_request demo_client 7 ''Echo'' (Some [VStr ''hi'']))\<lparr>req_protocol :=
       (req_protocol (built_request demo_client 7 ''Echo'' (Some [VStr ''hi''])))\<lparr>hdr_packager :=
         str_to_fixed_bytes ''json'' 8\<rparr>\<rparr>)) = [106, 115, 111, 110, 0, 0, 0, 0]"
proof -
  have p: "pack_request demo_registry demo_client (built_request demo_client 7 ''Echo'' (Some [VStr ''hi''])) =
     Inr ((built_request demo_client 7 ''Echo'' (Some [VStr ''hi'']))\<lparr>req_protocol :=
       (req_protocol (built_request demo_client 7 ''Echo'' (Some [VStr ''hi''])))\<lparr>hdr_packager :=
         str_to_fixed_bytes ''json'' 8\<rparr>\<rparr>, [9])"
    using pack_request_built [of demo_registry demo_client 7 "''Echo''" "Some [VStr ''hi'']" "[9]"] demo_pack_echo
    by (simp add: demo_client_def demo_opt_def packager_length_def)
  have q: "str_to_fixed_bytes ''json'' 8 = [106, 115, 111, 110, 0, 0, 0, 0]"
    by (simp add: str_to_fixed_bytes_def bytes_of_string_code numeral_eq_Suc)
  have n: "packager (client_opt demo_client) = ''json''"
    by (simp add: demo_client_def demo_opt_def)
  from pack_request_header [OF p] p q n show ?thesis
    by simp
qed

lemma copy_into_short:
  "length src < length dst \<Longrightarrow> i < length dst \<Longrightarrow> copy_into dst src i = None"
proof (induction dst src i rule: copy_into.induct)
  case (1 dst src i)
  show ?case
  proof (cases "i < length src")
    case True
    have "Suc i < length (dst[i := src ! i])"
      using True "1.prems" by simp
    then have "copy_into (dst[i := src ! i]) src (Suc i) = None"
      using "1.IH" "1.prems" True by simp
    then show ?thesis
      using True "1.prems" by (subst copy_into.simps) simp
  next
    case False
    then show ?thesis
      using "1.prems" by (subst copy_into.simps) simp
  qed
qed

text \<open>
  C38: The copy loop of initRequest always stops, after the indices left in
  the array: from any start index it returns the array with the source's
  bytes copied in when the source is long enough or nothing is left to copy,
  and panics (index out of range) otherwise.
\<close>

theorem copy_into_result:
  assumes "i \<le> length dst"
  shows "copy_into dst src i =
    (if length dst \<le> length src \<or> i = length dst then Some (take i dst @ drop i (take (length dst) src)) else None)"
proof (cases "length dst \<le> length src")
  case True
  then show ?thesis
    using copy_into_prefix [OF assms True] by simp
next
  case False
  show ?thesis
  proof (cases "i = length dst")
    case True
    then have "copy_into dst src i = Some dst"
      by (subst copy_into.simps) simp
    with True show ?thesis by simp
  next
    case ne: False
    then show ?thesis
      using False copy_into_short [of src dst i] assms by simp
  qed
qed

lemma copy_into_result_witness:
  "copy_into (replicate 28 0) (str_to_fixed_bytes ''svcA'' 28) 0 = Some (str_to_fixed_bytes ''svcA'' 28) \<and>
   copy_into (replicate 28 0) [1, 2] 0 = None"
  using copy_into_result [of 0 "replicate 28 0" "str_to_fixed_bytes ''svcA'' 28"]
    copy_into_result [of 0 "replicate 28 (0::byte)" "[1, 2]"]
  by simp

end
