(* ===== verification/Client_Response.thy ===== *)
theory Client_Response
  imports Client_Request
begin

text \<open>
  \<open>readResponse\<close> of \<open>src/client/client.go\<close>: the checks on the raw reply,
  the header, the generic decode of the envelope and the two-stage decode of
  the return value into the caller's target. The reply is read from an
  in-memory buffer, whose \<open>ReadAll\<close> cannot fail, so the model starts from
  the bytes. The length arithmetic is Go's \<open>uint32\<close> arithmetic: the claimed
  body length minus the codec-name width, and the number of bytes after the
  header, both wrap modulo \<open>2^32\<close>.
\<close>

definition nil_deref_msg :: string where
  "nil_deref_msg = ''runtime error: invalid memory address or nil pointer dereference''"

definition read_response ::
  "registry \<Rightarrow> client \<Rightarrow> bytes \<Rightarrow> 't target option \<Rightarrow> go_fault + 't option" where
  "read_response reg c all_body ret =
     (let name = packager (client_opt c) in
      if length all_body < protocol_length + packager_length
      then fail ErrorResponse (''Response Parse Error:'' @ string_of_bytes all_body)
      else
        let protocol_buffer = take (protocol_length + packager_length) all_body;
            protocol = header_init protocol_buffer;
            body_length = hdr_body_length protocol - of_nat packager_length
        in if (of_nat (length all_body - (protocol_length + packager_length)) :: u32) < body_length
           then fail ErrorResponse (''Response Content Error:'' @ string_of_bytes all_body)
           else
             let body_buffer = drop (protocol_length + packager_length) all_body
             in case unpack reg name body_buffer response_of_value of
                  Inl e \<Rightarrow> fail ErrorPackager (''Unpack Error:'' @ e)
                | Inr None \<Rightarrow> Inl (Panic nil_deref_msg)
                | Inr (Some response) \<Rightarrow>
                    if resp_status response \<noteq> err_okey
                    then fail ErrorResponse (resp_error response)
                    else (case ret of
                      None \<Rightarrow> Inr None
                    | Some conv \<Rightarrow>
                        (case pack reg name (resp_retval response) of
                           Inl e \<Rightarrow> fail ErrorPackager
                                     (''pack response retval error:'' @ e @ '' '' @ string_of_bytes all_body)
                         | Inr pack_data \<Rightarrow>
                             (case unpack reg name pack_data conv of
                                Inl e \<Rightarrow> fail ErrorPackager
                                          (''pack response retval error:'' @ e @ '' '' @ string_of_bytes all_body)
                              | Inr t \<Rightarrow> Inr (Some t)))))"

text \<open>
  The reference for the return-value step: the decoded return value converted
  into the target directly, as the specification describes the two-stage
  decode, instead of being encoded again and decoded into the target.
\<close>

definition read_response_direct ::
  "registry \<Rightarrow> client \<Rightarrow> bytes \<Rightarrow> 't target option \<Rightarrow> go_fault + 't option" where
  "read_response_direct reg c all_body ret =
     (let name = packager (client_opt c) in
      if length all_body < protocol_length + packager_length
      then fail ErrorResponse (''Response Parse Error:'' @ string_of_bytes all_body)
      else
        let protocol = header_init (take (protocol_length + packager_length) all_body);
            body_length = hdr_body_length protocol - of_nat packager_length
        in if (of_nat (length all_body - (protocol_length + packager_length)) :: u32) < body_length
           then fail ErrorResponse (''Response Content Error:'' @ string_of_bytes all_body)
           else
             case unpack reg name (drop (protocol_length + packager_length) all_body) response_of_value of
               Inl e \<Rightarrow> fail ErrorPackager (''Unpack Error:'' @ e)
             | Inr None \<Rightarrow> Inl (Panic nil_deref_msg)
             | Inr (Some response) \<Rightarrow>
                 if resp_status response \<noteq> err_okey
                 then fail ErrorResponse (resp_error response)
                 else (case ret of
                   None \<Rightarrow> Inr None
                 | Some conv \<Rightarrow>
                     (case conv (resp_retval response) of
                        Inl e \<Rightarrow> fail ErrorPackager
                                  (''pack response retval error:'' @ e @ '' '' @ string_of_bytes all_body)
                      | Inr t \<Rightarrow> Inr (Some t))))"

text \<open>How a Yar peer frames its reply: a header whose body length counts the
  codec-name field and the encoded envelope, then the envelope.\<close>

definition reply_frame :: "header \<Rightarrow> bytes \<Rightarrow> bytes" where
  "reply_frame h body =
     header_bytes (h\<lparr>hdr_body_length := of_nat (length body + packager_length)\<rparr>) @ body"

section \<open>Properties of readResponse\<close>

lemma demo_pack_responses:
  "pack demo_registry ''json'' (response_value demo_ok_response) = Inr [10]"
  "pack demo_registry ''json'' (response_value demo_err_response) = Inr [11]"
  "pack demo_registry ''json'' VNull = Inr [0]"
  by (simp_all add: pack_def demo_registry_def table_codec_def demo_table_def response_value_def
      demo_ok_response_def demo_err_response_def)

lemma demo_client_packager [simp]: "packager (client_opt demo_client) = ''json''"
  by (simp add: demo_client_def demo_opt_def)

lemma body_length_check:
  assumes "n < 2 ^ 32 - 8"
  shows "(of_nat n :: u32) < bl - of_nat packager_length \<longleftrightarrow>
         \<not> (packager_length \<le> unat bl \<and> unat bl - packager_length \<le> n)"
proof (cases "packager_length \<le> unat bl")
  case True
  then have "unat (bl - of_nat packager_length) = unat bl - packager_length"
    by (simp add: packager_length_def unat_sub word_le_nat_alt)
  moreover have "unat (of_nat n :: u32) = n"
    using assms by (simp add: unat_of_nat)
  ultimately show ?thesis
    using True by (simp add: word_less_nat_alt) linarith
next
  case False
  then have "unat (bl - of_nat packager_length) = 2 ^ 32 + unat bl - packager_length"
    by (simp add: packager_length_def unat_sub_if' word_le_nat_alt)
  moreover have "unat (of_nat n :: u32) = n"
    using assms by (simp add: unat_of_nat)
  ultimately show ?thesis
    using False assms by (simp add: word_less_nat_alt packager_length_def)
qed

lemma reply_frame_checks:
  assumes "header_wf h" and "length body < 2 ^ 32 - 8"
  shows "\<not> length (reply_frame h body) < protocol_length + packager_length"
    and "\<not> (of_nat (length (reply_frame h body) - (protocol_length + packager_length)) :: u32) <
           hdr_body_length (header_init (take (protocol_length + packager_length) (reply_frame h body))) -
           of_nat packager_length"
    and "drop (protocol_length + packager_length) (reply_frame h body) = body"
proof -
  let ?h = "h\<lparr>hdr_body_length := of_nat (length body + packager_length)\<rparr>"
  have wf: "header_wf ?h" and len: "length (header_bytes ?h) = protocol_length + packager_length"
    using assms(1) by (simp_all add: header_width_def)
  show "\<not> length (reply_frame h body) < protocol_length + packager_length"
    using len by (simp add: reply_frame_def)
  show "drop (protocol_length + packager_length) (reply_frame h body) = body"
    using len by (simp add: reply_frame_def)
  have hi: "header_init (take (protocol_length + packager_length) (reply_frame h body)) = ?h"
    using wf by (simp add: reply_frame_def header_width_def [symmetric])
  have "unat (of_nat (length body + packager_length) :: u32) = length body + packager_length"
    using assms(2) unfolding packager_length_def by (subst unat_of_nat) simp
  then show "\<not> (of_nat (length (reply_frame h body) - (protocol_length + packager_length)) :: u32) <
           hdr_body_length (header_init (take (protocol_length + packager_length) (reply_frame h body))) -
           of_nat packager_length"
    using assms(2) len hi body_length_check [of "length body"] by (simp add: reply_frame_def)
qed

lemma dyn_subs_self [simp]: "v \<in> set (dyn_subs v)"
  by (cases v) simp_all

lemma retval_nested:
  assumes "response_of_value v = Inr (Some r)"
  shows "resp_retval r \<in> set (VNull # dyn_subs v)"
proof (cases v)
  case (VMap kvs)
  show ?thesis
  proof (cases "field kvs ''r''")
    case None
    with assms VMap show ?thesis
      by (auto split: sum.splits)
  next
    case (Some w)
    then have "(''r'', w) \<in> set kvs"
      by (auto simp: field_def dest: map_of_SomeD)
    then have "w \<in> set (concat (map (\<lambda>kv. dyn_subs (snd kv)) kvs))"
      by (auto intro!: bexI [of _ "(''r'', w)"])
    with VMap have "w \<in> set (dyn_subs v)"
      by simp
    moreover have "resp_retval r = w"
      using assms VMap Some by (auto split: sum.splits)
    ultimately show ?thesis
      by simp
  qed
qed (use assms in auto)

lemma two_stage_decode:
  assumes "registry_law reg" and "reg name = Some cd" and "decode cd bs = Inr v"
    and "w \<in> set (VNull # dyn_subs v)"
  shows "(case pack reg name w of
            Inl e \<Rightarrow> f e
          | Inr pd \<Rightarrow> (case unpack reg name pd conv of Inl e \<Rightarrow> f e | Inr t \<Rightarrow> g t)) =
         (case conv w of Inl e \<Rightarrow> f e | Inr t \<Rightarrow> g t)"
proof -
  have "codec_law cd"
    using assms(1,2) by (simp add: registry_law_def)
  then obtain pd where pd: "encode cd w = Inr pd"
    using assms(3,4) unfolding codec_law_def by blast
  then have packed: "pack reg name w = Inr pd"
    using assms(2) by (simp add: pack_def)
  from assms(1) packed have "unpack reg name pd conv = conv w"
    by (rule unpack_pack)
  with packed show ?thesis
    by simp
qed

lemma unpack_response_Some:
  assumes "unpack reg name bs response_of_value = Inr (Some r)"
  obtains cd v where "reg name = Some cd" "decode cd bs = Inr v" "response_of_value v = Inr (Some r)"
  using assms by (auto simp: unpack_def split: option.splits sum.splits)

lemma unpack_packed_response:
  assumes "registry_law reg" and "pack reg name (response_value r) = Inr body"
  shows "unpack reg name body response_of_value = Inr (Some r)"
  using unpack_pack [OF assms, of response_of_value] by simp

lemma retval_reencode:
  assumes "registry_law reg" and "pack reg name (response_value r) = Inr body"
  shows "(case pack reg name (resp_retval r) of
            Inl e \<Rightarrow> f e
          | Inr pd \<Rightarrow> (case unpack reg name pd conv of Inl e \<Rightarrow> f e | Inr t \<Rightarrow> g t)) =
         (case conv (resp_retval r) of Inl e \<Rightarrow> f e | Inr t \<Rightarrow> g t)"
proof -
  obtain cd where cd: "reg name = Some cd" and enc: "encode cd (response_value r) = Inr body"
    using assms(2) by (auto simp: pack_def split: option.splits)
  have "codec_law cd"
    using assms(1) cd by (simp add: registry_law_def)
  with enc have dec: "decode cd body = Inr (response_value r)"
    by (simp add: codec_law_def)
  have "resp_retval r \<in> set (VNull # dyn_subs (response_value r))"
    by (rule retval_nested) simp
  with assms(1) cd dec show ?thesis
    by (rule two_stage_decode)
qed

lemma read_response_reply:
  assumes "registry_law reg" and "header_wf h" and "length body < 2 ^ 32 - 8"
    and "pack reg (packager (client_opt c)) (response_value r) = Inr body"
  shows "read_response reg c (reply_frame h body) ret =
    (if resp_status r \<noteq> err_okey then fail ErrorResponse (resp_error r)
     else (case ret of
             None \<Rightarrow> Inr None
           | Some conv \<Rightarrow>
               (case conv (resp_retval r) of
                  Inl e \<Rightarrow> fail ErrorPackager
                            (''pack response retval error:'' @ e @ '' '' @ string_of_bytes (reply_frame h body))
                | Inr t \<Rightarrow> Inr (Some t))))"
proof (cases ret)
  case None
  then show ?thesis
    using reply_frame_checks [OF assms(2,3)] unpack_packed_response [OF assms(1,4)]
    by (simp add: read_response_def Let_def)
next
  case (Some conv)
  then show ?thesis
    using reply_frame_checks [OF assms(2,3)] unpack_packed_response [OF assms(1,4)]
      retval_reencode [OF assms(1,4), where conv = conv and g = "\<lambda>t. Inr (Some t)" and
        f = "\<lambda>e. fail ErrorPackager (''pack response retval error:'' @ e @ '' '' @ string_of_bytes (reply_frame h body))"]
    by (simp add: read_response_def Let_def)
qed

text \<open>
  C8: readResponse of a reply shorter than the 80-byte header fails with
  the Response error \<open>Response Parse Error:\<close> and the raw reply.
\<close>

theorem read_response_short:
  "length bs < header_width \<Longrightarrow>
   read_response reg c bs ret = fail ErrorResponse (''Response Parse Error:'' @ string_of_bytes bs)"
  by (simp add: read_response_def header_width_def)

lemma read_response_short_witness:
  "read_response demo_registry demo_client [1, 2, 3] (None :: string target option) =
   fail ErrorResponse (''Response Parse Error:'' @ string_of_bytes [1, 2, 3])"
  by (rule read_response_short) (simp add: header_width_eq)

text \<open>
  C7: readResponse of a reply whose header claims more body than arrived
  fails with the Response error \<open>Response Content Error:\<close> and the raw
  reply.
\<close>

theorem read_response_truncated:
  assumes "header_width \<le> length bs" and "length bs - header_width < 2 ^ 32 - 8"
    and "\<not> (packager_length \<le> unat (hdr_body_length (header_init bs)) \<and>
            unat (hdr_body_length (header_init bs)) - packager_length \<le> length bs - header_width)"
  shows "read_response reg c bs ret = fail ErrorResponse (''Response Content Error:'' @ string_of_bytes bs)"
proof -
  have "(of_nat (length bs - header_width) :: u32) < hdr_body_length (header_init bs) - of_nat packager_length"
    using body_length_check [OF assms(2)] assms(3) by simp
  with assms(1) show ?thesis
    by (simp add: read_response_def Let_def header_width_def [symmetric])
qed

lemma read_response_truncated_witness:
  "read_response demo_registry demo_client (header_bytes (new_header\<lparr>hdr_body_length := 20\<rparr>) @ [10])
     (None :: string target option) =
   fail ErrorResponse (''Response Content Error:'' @ string_of_bytes (header_bytes (new_header\<lparr>hdr_body_length := 20\<rparr>) @ [10]))"
  by (rule read_response_truncated) (simp_all add: header_width_eq packager_length_def)

text \<open>
  C6: readResponse of a well-framed reply whose envelope has a non-zero
  status fails with a Response error carrying the peer's error message.
\<close>

theorem read_response_peer_error:
  assumes "registry_law reg" and "header_wf h" and "length body < 2 ^ 32 - 8"
    and "pack reg (packager (client_opt c)) (response_value r) = Inr body"
    and "resp_status r \<noteq> err_okey"
  shows "read_response reg c (reply_frame h body) ret = fail ErrorResponse (resp_error r)"
  using read_response_reply [OF assms(1-4), where ret = ret] assms(5) by simp

lemma read_response_peer_error_witness:
  "read_response demo_registry demo_client (reply_frame new_header [11]) (None :: string target option) =
   fail ErrorResponse ''boom''"
proof -
  have "resp_status demo_err_response \<noteq> err_okey"
    by (simp add: demo_err_response_def err_okey_def)
  from read_response_peer_error [OF demo_registry_law new_header_wf _ _ this, of "[11]" demo_client]
  show ?thesis
    using demo_pack_responses by (simp add: demo_err_response_def)
qed

text \<open>
  C9: readResponse of a well-framed reply whose envelope decodes to null
  dereferences the nil response and panics, instead of returning an error.
\<close>

theorem read_response_null_envelope:
  assumes "registry_law reg" and "header_wf h" and "length body < 2 ^ 32 - 8"
    and "pack reg (packager (client_opt c)) VNull = Inr body"
  shows "read_response reg c (reply_frame h body) ret = Inl (Panic nil_deref_msg)"
  using reply_frame_checks [OF assms(2,3)] unpack_pack [OF assms(1,4), of response_of_value]
  by (simp add: read_response_def Let_def)

lemma read_response_null_envelope_witness:
  "read_response demo_registry demo_client (reply_frame new_header [0]) (Some string_target) =
   Inl (Panic nil_deref_msg)"
  by (rule read_response_null_envelope [OF demo_registry_law new_header_wf]) (simp_all add: demo_pack_responses)

text \<open>
  C10: readResponse never looks at the reply's protocol tag or correlation
  id: changing them does not change whether or what a call returns.
\<close>

theorem read_response_ignores_tag_and_id:
  assumes "header_wf h"
  shows "read_response reg c (header_bytes (h\<lparr>hdr_magic_number := m, hdr_id := i\<rparr>) @ body) ret = Inr x \<longleftrightarrow>
         read_response reg c (header_bytes h @ body) ret = Inr x"
proof -
  have wf': "header_wf (h\<lparr>hdr_magic_number := m, hdr_id := i\<rparr>)"
    using assms by simp
  show ?thesis
    using assms wf'
    by (simp add: read_response_def Let_def header_width_def [symmetric]
        split: sum.splits option.splits)
qed

lemma read_response_ignores_tag_and_id_witness:
  "read_response demo_registry demo_client
     (header_bytes (new_header\<lparr>hdr_body_length := 9, hdr_magic_number := 0x12345678, hdr_id := 99\<rparr>) @ [10])
     (Some string_target) = Inr (Some ''hi'')"
proof -
  have "read_response demo_registry demo_client (reply_frame new_header [10]) (Some string_target) = Inr (Some ''hi'')"
    using read_response_reply [OF demo_registry_law new_header_wf, of "[10]" demo_client demo_ok_response,
        where ret = "Some string_target"] demo_pack_responses
    by (simp add: demo_ok_response_def err_okey_def)
  then have "read_response demo_registry demo_client (header_bytes (new_header\<lparr>hdr_body_length := 9\<rparr>) @ [10])
      (Some string_target) = Inr (Some ''hi'')"
    by (simp add: reply_frame_def packager_length_def)
  with read_response_ignores_tag_and_id [of "new_header\<lparr>hdr_body_length := 9\<rparr>", where m = "0x12345678" and i = 99
      and reg = demo_registry and c = demo_client and body = "[10]" and ret = "Some string_target" and x = "Some ''hi''"]
  show ?thesis
    by simp
qed

section \<open>Claims about readResponse\<close>

text \<open>
  C4: readResponse on a reply framed by a Yar peer, whose envelope the
  client's codec encoded with status OK, stores the peer's return value,
  converted to the caller's type, into the result target; a value that does
  not convert is a Packager error carrying the raw reply.
\<close>

theorem read_response_success:
  assumes "registry_law reg" and "header_wf h" and "length body < 2 ^ 32 - 8"
    and "pack reg (packager (client_opt c)) (response_value r) = Inr body"
    and "resp_status r = err_okey"
  shows "read_response reg c (reply_frame h body) (Some conv) =
    (case conv (resp_retval r) of
       Inl e \<Rightarrow> fail ErrorPackager
                 (''pack response retval error:'' @ e @ '' '' @ string_of_bytes (reply_frame h body))
     | Inr t \<Rightarrow> Inr (Some t))"
  using read_response_reply [OF assms(1-4), where ret = "Some conv"] assms(5) by simp

lemma read_response_success_witness:
  "registry_law demo_registry \<and> header_wf new_header \<and> length [10::byte] < 2 ^ 32 - 8 \<and>
   pack demo_registry (packager (client_opt demo_client)) (response_value demo_ok_response) = Inr [10] \<and>
   resp_status demo_ok_response = err_okey \<and>
   read_response demo_registry demo_client (reply_frame new_header [10]) (Some string_target) =
     Inr (Some ''hi'')"
proof -
  have p: "pack demo_registry (packager (client_opt demo_client)) (response_value demo_ok_response) = Inr [10]"
    by (simp add: pack_def demo_registry_def table_codec_def demo_table_def response_value_def
        demo_ok_response_def demo_client_def demo_opt_def)
  have s: "resp_status demo_ok_response = err_okey"
    by (simp add: demo_ok_response_def err_okey_def)
  show ?thesis
    using read_response_success [OF demo_registry_law new_header_wf _ p s, of string_target]
      p s demo_registry_law
    by (simp add: demo_ok_response_def)
qed

text \<open>
  C5: The two-stage decode of the return value (decode the envelope
  generically, encode the return value again, decode it into the target) gives
  the same result as converting the decoded return value into the target
  directly, for every reply and target, whenever the registry's codecs keep
  their contract.
\<close>

theorem read_response_two_stage:
  assumes "registry_law reg"
  shows "read_response reg c bs ret = read_response_direct reg c bs ret"
proof -
  let ?name = "packager (client_opt c)"
  let ?body = "drop (protocol_length + packager_length) bs"
  have key: "(case pack reg ?name (resp_retval r) of
                Inl e \<Rightarrow> f e
              | Inr pd \<Rightarrow> (case unpack reg ?name pd conv of Inl e \<Rightarrow> f e | Inr t \<Rightarrow> g t)) =
             (case conv (resp_retval r) of Inl e \<Rightarrow> f e | Inr t \<Rightarrow> g t)"
    if u: "unpack reg ?name ?body response_of_value = Inr (Some r)" for r conv f g
  proof -
    obtain cd v where "reg ?name = Some cd" "decode cd ?body = Inr v" "response_of_value v = Inr (Some r)"
      by (rule unpack_response_Some [OF u])
    then show ?thesis
      using assms two_stage_decode retval_nested by blast
  qed
  show ?thesis
    unfolding read_response_def read_response_direct_def Let_def
    by (auto simp: key split: sum.splits option.splits)
qed

lemma read_response_two_stage_witness:
  "registry_law demo_registry \<and>
   read_response demo_registry demo_client (reply_frame new_header [10]) (Some string_target) =
   read_response_direct demo_registry demo_client (reply_frame new_header [10]) (Some string_target)"
  using read_response_two_stage [OF demo_registry_law] demo_registry_law by simp

text \<open>
  C11: readResponse looks the codec up under the full configured name, while
  packRequest uses the name cut to 8 bytes: when the full name is not
  registered (as for a name longer than 8 bytes registered under the 8 bytes
  sent in the header), every well-framed reply fails with a Packager error.
\<close>

theorem read_response_long_codec_name:
  assumes "reg (packager (client_opt c)) = None" and "header_wf h" and "length body < 2 ^ 32 - 8"
  shows "read_response reg c (reply_frame h body) ret =
    fail ErrorPackager (''Unpack Error:unsupported packager '' @ packager (client_opt c))"
  using reply_frame_checks [OF assms(2,3)] assms(1)
  by (simp add: read_response_def Let_def)

lemma read_response_long_codec_name_witness:
  "read_response demo_registry (demo_client\<lparr>client_opt := demo_opt\<lparr>packager := ''json-compact''\<rparr>\<rparr>)
     (reply_frame new_header [10]) (Some string_target) =
   fail ErrorPackager (''Unpack Error:unsupported packager json-compact'')"
  using read_response_long_codec_name [of demo_registry "demo_client\<lparr>client_opt := demo_opt\<lparr>packager := ''json-compact''\<rparr>\<rparr>"
      new_header "[10]" "Some string_target"]
  by (simp add: demo_registry_def)

end
