(* ===== verification/Client_Transport.thy ===== *)
theory Client_Transport
  imports Client_Response
begin

text \<open>
  The transport half of \<open>src/client/client.go\<close>: the two process-wide HTTP
  client handles (\<open>httpClient\<close>, \<open>dnsCacheHttpClient\<close>, created by
  \<open>init\<close>) whose read timeout every call overwrites, the DNS-cache dialer,
  \<open>httpHandler\<close>, \<open>Call\<close>, \<open>NewClient\<close>, the client's \<open>init\<close> and the
  \<open>sockHandler\<close> stub. The HTTP library (fasthttp), the resolver, the network
  and the peer are the environment \<open>net_env\<close>: what it does is a parameter of
  every theorem. The shared handles are the state the handler passes on.
\<close>

subsection \<open>Durations\<close>

text \<open>
  \<open>time.Duration(t) * time.Millisecond\<close>: a Go \<open>int64\<close> product, which wraps
  to the two's complement range.
\<close>

definition go_duration_ms :: "int \<Rightarrow> int" where
  "go_duration_ms t = signed_take_bit 63 (t * 1000000)"

subsection \<open>The shared client handles\<close>

datatype handle = HttpClient | DnsCacheHttpClient

record handles =
  http_read_timeout :: int
  dns_read_timeout :: int

definition read_timeout :: "handles \<Rightarrow> handle \<Rightarrow> int" where
  "read_timeout st h = (case h of HttpClient \<Rightarrow> http_read_timeout st | DnsCacheHttpClient \<Rightarrow> dns_read_timeout st)"

definition set_read_timeout :: "handles \<Rightarrow> handle \<Rightarrow> int \<Rightarrow> handles" where
  "set_read_timeout st h t =
     (case h of HttpClient \<Rightarrow> st\<lparr>http_read_timeout := t\<rparr> | DnsCacheHttpClient \<Rightarrow> st\<lparr>dns_read_timeout := t\<rparr>)"

subsection \<open>HTTP requests and responses\<close>

text \<open>The parts of a fasthttp request and response that the handler sets or reads.\<close>

record http_request =
  hreq_uri :: string
  hreq_method :: string
  hreq_body :: bytes
  hreq_accept_encoding :: "string option"
  hreq_content_encoding :: "string option"
  hreq_connection_close :: bool

record http_response =
  hresp_content_encoding :: string
  hresp_body :: bytes

text \<open>
  The environment: the resolver behind \<open>globalResolver.Lookup\<close>, fasthttp's
  default dialer and its choice of \<open>host:port\<close> for a request URI, one
  request/response exchange over a dialled connection (with the handle's read
  timeout and the call's deadline), and the gzip writer and reader.
\<close>

record net_env =
  lookup :: "string \<Rightarrow> string + string list"
  default_dial :: "string \<Rightarrow> string + string"
  addr_of_uri :: "string \<Rightarrow> string"
  exchange :: "string \<Rightarrow> http_request \<Rightarrow> int \<Rightarrow> int \<Rightarrow> string + http_response"
  gzip :: "bytes \<Rightarrow> string + bytes"
  gunzip :: "bytes \<Rightarrow> string + bytes"

subsection \<open>The DNS-cache dialer\<close>

text \<open>\<open>strings.LastIndex\<close>: the position of the last occurrence, if any.\<close>

fun last_index :: "string \<Rightarrow> char \<Rightarrow> nat option" where
  "last_index [] ch = None"
| "last_index (x # xs) ch =
     (case last_index xs ch of
        Some i \<Rightarrow> Some (Suc i)
      | None \<Rightarrow> if x = ch then Some 0 else None)"

text \<open>
  \<open>dnsCacheHttpClient.Dial\<close>: split \<open>host:port\<close> at the last colon, resolve
  the host, fail on a lookup error or an empty answer, and otherwise dial the
  first address with the original port. Without a colon, Go's slice
  \<open>address[:-1]\<close> panics: that outcome is \<open>None\<close>.
\<close>

definition dns_dial :: "(string \<Rightarrow> string + string list) \<Rightarrow> string \<Rightarrow> (string + string) option" where
  "dns_dial resolve address =
     (case last_index address CHR '':'' of
        None \<Rightarrow> None
      | Some separator \<Rightarrow>
          Some (case resolve (take separator address) of
                  Inl err \<Rightarrow> Inl (''Lookup Error:'' @ err)
                | Inr ips \<Rightarrow>
                    if length ips < 1 then Inl ''Lookup Error: No IP Resolver Result Found''
                    else Inr (ips ! 0 @ drop separator address)))"

text \<open>
  \<open>DoTimeout\<close> on a handle: dial with the handle's dialer, then exchange the
  request with the handle's current read timeout and the call's deadline.
  \<open>None\<close> is a panic of the dialer.
\<close>

definition do_timeout ::
  "net_env \<Rightarrow> handle \<Rightarrow> handles \<Rightarrow> http_request \<Rightarrow> int \<Rightarrow> (string + http_response) option" where
  "do_timeout env h st req deadline =
     (let addr = addr_of_uri env (hreq_uri req);
          dialled = (case h of
                       HttpClient \<Rightarrow> Some (default_dial env addr)
                     | DnsCacheHttpClient \<Rightarrow> dns_dial (lookup env) addr)
      in case dialled of
           None \<Rightarrow> None
         | Some (Inl err) \<Rightarrow> Some (Inl err)
         | Some (Inr conn) \<Rightarrow> Some (exchange env conn req (read_timeout st h) deadline))"

subsection \<open>httpHandler\<close>

text \<open>
  The handler in two phases, cut where the code hands the request to the
  shared handle. \<open>http_prepare\<close> is lines 212--272: build and pack the
  request, write the body length into the header, pick the handle and write
  the call's timeout into it (the shared state), compress the body if asked,
  and set the request's method, URI and headers. \<open>http_dispatch\<close> is lines
  274--297: send with the handle, fall back to the raw bytes when a reply that
  claims gzip does not decompress, and read the reply.
\<close>

definition http_prepare ::
  "registry \<Rightarrow> net_env \<Rightarrow> handles \<Rightarrow> client \<Rightarrow> u32 \<Rightarrow> string \<Rightarrow> dyn list option \<Rightarrow>
   (go_fault + handle \<times> http_request) \<times> handles" where
  "http_prepare reg env st c rid method params =
     (case init_request c rid method params of
        Inl err \<Rightarrow> (Inl err, st)
      | Inr r \<Rightarrow>
          (case pack_request reg c r of
             Inl err \<Rightarrow> (Inl err, st)
           | Inr (r, pack_body) \<Rightarrow>
               let r = r\<lparr>req_protocol := (req_protocol r)\<lparr>hdr_body_length :=
                         of_nat (length pack_body + packager_length)\<rparr>\<rparr>;
                   post_buffer = header_bytes (req_protocol r) @ pack_body;
                   opts = client_opt c;
                   h = (if dns_cache opts then DnsCacheHttpClient else HttpClient);
                   st = set_read_timeout st h (go_duration_ms (timeout opts))
               in (case (if request_gzip opts then gzip env post_buffer else Inr post_buffer) of
                     Inl gzip_err \<Rightarrow> (fail ErrorNetwork gzip_err, st)
                   | Inr body \<Rightarrow>
                       (Inr (h, \<lparr>hreq_uri = hostname c, hreq_method = ''POST'', hreq_body = body,
                                hreq_accept_encoding = (if accept_gzip opts then Some ''gzip'' else None),
                                hreq_content_encoding = (if request_gzip opts then Some ''gzip'' else None),
                                hreq_connection_close = True\<rparr>), st))))"

definition dial_panic_msg :: string where
  "dial_panic_msg = ''runtime error: slice bounds out of range [:-1]''"

definition http_dispatch ::
  "registry \<Rightarrow> net_env \<Rightarrow> handles \<Rightarrow> client \<Rightarrow> handle \<Rightarrow> http_request \<Rightarrow> 't target option \<Rightarrow>
   go_fault + 't option" where
  "http_dispatch reg env st c h req ret =
     (case do_timeout env h st req (go_duration_ms (timeout (client_opt c))) of
        None \<Rightarrow> Inl (Panic dial_panic_msg)
      | Some (Inl post_err) \<Rightarrow> fail ErrorNetwork post_err
      | Some (Inr resp) \<Rightarrow>
          let b = (if hresp_content_encoding resp = ''gzip''
                   then (case gunzip env (hresp_body resp) of
                           Inl _ \<Rightarrow> hresp_body resp
                         | Inr unzipped \<Rightarrow> unzipped)
                   else hresp_body resp)
          in read_response reg c b ret)"

definition http_handler ::
  "registry \<Rightarrow> net_env \<Rightarrow> handles \<Rightarrow> client \<Rightarrow> string \<Rightarrow> 't target option \<Rightarrow> dyn list option \<Rightarrow>
   u32 \<Rightarrow> (go_fault + 't option) \<times> handles" where
  "http_handler reg env st c method ret params rid =
     (case http_prepare reg env st c rid method params of
        (Inl err, st') \<Rightarrow> (Inl err, st')
      | (Inr (h, req), st') \<Rightarrow> (http_dispatch reg env st' c h req ret, st'))"

subsection \<open>Call, NewClient, init, sockHandler\<close>

text \<open>
  \<open>Call(method, ret, params...)\<close>; the last argument is the id that
  \<open>yar.NewRequest\<close> draws for the request.
\<close>

definition call ::
  "registry \<Rightarrow> net_env \<Rightarrow> handles \<Rightarrow> client \<Rightarrow> string \<Rightarrow> 't target option \<Rightarrow> dyn list option \<Rightarrow>
   u32 \<Rightarrow> (go_fault + 't option) \<times> handles" where
  "call reg env st c method ret params rid =
     (if net c = ''http'' \<or> net c = ''https''
      then http_handler reg env st c method ret params rid
      else (fail ErrorConfig ''unsupported non http protocol'', st))"

definition sock_handler :: "client \<Rightarrow> string \<Rightarrow> 't target option \<Rightarrow> dyn list option \<Rightarrow> go_fault + 't option" where
  "sock_handler c method ret params = fail ErrorParam ''unsupported sock request''"

text \<open>
  \<open>parseAddrNetName\<close> (not in the sources; from the specification): the
  scheme before \<open>://\<close>, one of http, https, tcp, udp, unix.
\<close>

fun split_scheme :: "string \<Rightarrow> string \<Rightarrow> (string \<times> string) option" where
  "split_scheme acc [] = None"
| "split_scheme acc (x # xs) =
     (if take 3 (x # xs) = ''://'' then Some (rev acc, drop 3 (x # xs)) else split_scheme (x # acc) xs)"

definition accepted_schemes :: "string list" where
  "accepted_schemes = [''http'', ''https'', ''tcp'', ''udp'', ''unix'']"

definition parse_addr_net_name :: "string \<Rightarrow> string + string" where
  "parse_addr_net_name addr =
     (case split_scheme [] addr of
        None \<Rightarrow> Inl (''missing protocol scheme in '' @ addr)
      | Some (scheme, _) \<Rightarrow>
          if scheme \<in> set accepted_schemes then Inr scheme else Inl (''unsupported protocol '' @ scheme))"

text \<open>\<open>Client.init\<close>: the socket schemes get a socket transport (its error
  is dropped in the code); the others none.\<close>

definition client_init :: "client \<Rightarrow> client" where
  "client_init c =
     (if net c = ''tcp'' \<or> net c = ''udp'' \<or> net c = ''unix''
      then c\<lparr>transport := Some (net c, hostname c)\<rparr> else c)"

text \<open>\<open>NewClient(addr)\<close>, with the value of \<open>yar.NewOpt()\<close> as a parameter.\<close>

definition new_client :: "opt \<Rightarrow> string \<Rightarrow> yar_error + client" where
  "new_client default_opt addr =
     (case parse_addr_net_name addr of
        Inl err \<Rightarrow> Inl (new_error ErrorParam err)
      | Inr net_name \<Rightarrow>
          Inr (client_init \<lparr>hostname = addr, net = net_name, transport = None, client_opt = default_opt\<rparr>))"

subsection \<open>Fixtures\<close>

text \<open>A network whose resolver answers one address and whose peer refuses
  connections, fresh handles, and a request to a named host.\<close>

definition demo_net_env :: net_env where
  "demo_net_env =
     \<lparr>lookup = (\<lambda>host. Inr [''10.0.0.9'']), default_dial = Inr, addr_of_uri = (\<lambda>uri. ''svc.local:8080''),
      exchange = (\<lambda>conn req rt deadline. Inl ''dial tcp: connection refused''), gzip = Inr, gunzip = Inr\<rparr>"

definition demo_handles :: handles where
  "demo_handles = \<lparr>http_read_timeout = 0, dns_read_timeout = 0\<rparr>"

definition demo_http_request :: http_request where
  "demo_http_request =
     \<lparr>hreq_uri = ''http://svc.local:8080/api'', hreq_method = ''POST'', hreq_body = [],
      hreq_accept_encoding = None, hreq_content_encoding = None, hreq_connection_close = True\<rparr>"

section \<open>Properties of the transport\<close>

lemma demo_prepare:
  assumes "packager (client_opt c) = ''json''"
  shows "\<exists>req. http_prepare demo_registry demo_net_env st c 7 ''Echo'' (Some [VStr ''hi'']) =
     (Inr (if dns_cache (client_opt c) then DnsCacheHttpClient else HttpClient, req),
      set_read_timeout st (if dns_cache (client_opt c) then DnsCacheHttpClient else HttpClient)
        (go_duration_ms (timeout (client_opt c))))"
proof -
  have "pack demo_registry (take packager_length (packager (client_opt c)))
      (request_value (built_request c 7 ''Echo'' (Some [VStr ''hi'']))) = Inr [9]"
    using assms demo_pack_echo by (simp add: packager_length_def)
  from pack_request_built [OF this] show ?thesis
    by (simp add: http_prepare_def init_request_eq Let_def demo_net_env_def)
qed

lemma demo_prepare_plain:
  "\<exists>h req st'. http_prepare demo_registry demo_net_env demo_handles demo_client 7 ''Echo'' (Some [VStr ''hi'']) =
     (Inr (h, req), st')"
  using demo_prepare [of demo_client demo_handles] by (auto simp: demo_client_def demo_opt_def)

lemma parse_addr_net_name_Inr:
  "parse_addr_net_name addr = Inr n \<Longrightarrow> n \<in> set accepted_schemes"
  by (auto simp: parse_addr_net_name_def split: option.splits prod.splits if_splits)


text \<open>
  Call on a client whose scheme is neither http nor https fails with a
  Config error and touches no shared handle.
\<close>

theorem call_non_http:
  assumes "net c \<noteq> ''http''" and "net c \<noteq> ''https''"
  shows "call reg env st c method ret params rid = (fail ErrorConfig ''unsupported non http protocol'', st)"
  using assms by (simp add: call_def)

lemma call_non_http_witness:
  "call demo_registry demo_net_env demo_handles (demo_client\<lparr>net := ''tcp''\<rparr>) ''Echo'' (None :: string target option)
     None 7 = (fail ErrorConfig ''unsupported non http protocol'', demo_handles)"
  by (rule call_non_http) simp_all

text \<open>
  Call of the empty method on an HTTP client fails with a Param
  error before anything is packed or sent, and touches no shared handle.
\<close>

theorem call_empty_method:
  assumes "net c = ''http'' \<or> net c = ''https''"
  shows "call reg env st c [] ret params rid = (fail ErrorParam ''call empty method'', st)"
  using assms by (auto simp: call_def http_handler_def http_prepare_def init_request_eq fail_def)

lemma call_empty_method_witness:
  "call demo_registry demo_net_env demo_handles demo_client [] (None :: string target option) None 7 =
     (fail ErrorParam ''call empty method'', demo_handles)"
  by (rule call_empty_method) (simp add: demo_client_def)

lemma http_prepare_Inr:
  assumes "http_prepare reg env st c rid method params = (Inr (h, req), st')"
  obtains r pb where
    "method \<noteq> []"
    "pack_request reg c (built_request c rid method params) = Inr (r, pb)"
    "h = (if dns_cache (client_opt c) then DnsCacheHttpClient else HttpClient)"
    "st' = set_read_timeout st h (go_duration_ms (timeout (client_opt c)))"
    "(if request_gzip (client_opt c)
      then gzip env (header_bytes ((req_protocol r)\<lparr>hdr_body_length := of_nat (length pb + packager_length)\<rparr>) @ pb) = Inr (hreq_body req)
      else hreq_body req = header_bytes ((req_protocol r)\<lparr>hdr_body_length := of_nat (length pb + packager_length)\<rparr>) @ pb)"
    "hreq_uri req = hostname c" "hreq_method req = ''POST''" "hreq_connection_close req"
    "hreq_accept_encoding req = (if accept_gzip (client_opt c) then Some ''gzip'' else None)"
    "hreq_content_encoding req = (if request_gzip (client_opt c) then Some ''gzip'' else None)"
  using assms
  by (auto simp: http_prepare_def init_request_eq Let_def split: sum.splits prod.splits if_splits)

lemma set_read_timeout_twice [simp]:
  "set_read_timeout (set_read_timeout st h a) h b = set_read_timeout st h b"
  by (cases h) (simp_all add: set_read_timeout_def)

lemma read_timeout_set [simp]: "read_timeout (set_read_timeout st h t) h = t"
  by (cases h) (simp_all add: set_read_timeout_def read_timeout_def)

lemma pack_request_built_wf:
  "pack_request reg c (built_request c rid method params) = Inr (r, pb) \<Longrightarrow> header_wf (req_protocol r)"
  by (rule pack_request_wf [OF built_request_wf])

lemma frame_body_length:
  assumes "header_wf h"
  shows "header_width \<le> length (header_bytes (h\<lparr>hdr_body_length := of_nat (length pb + packager_length)\<rparr>) @ pb) \<and>
    unat (hdr_body_length (header_init (header_bytes (h\<lparr>hdr_body_length := of_nat (length pb + packager_length)\<rparr>) @ pb))) =
    (length (header_bytes (h\<lparr>hdr_body_length := of_nat (length pb + packager_length)\<rparr>) @ pb) - header_width + packager_length) mod 2 ^ 32"
  using assms by (simp add: unat_of_nat del: of_nat_add)

text \<open>
  C15: The body httpHandler posts without compression is a complete
  header followed by the envelope, and the header's body length is the
  envelope's length plus the 8-byte codec-name field, modulo \<open>2^32\<close>.
\<close>

theorem http_prepare_frame:
  assumes "http_prepare reg env st c rid method params = (Inr (h, req), st')"
    and "\<not> request_gzip (client_opt c)"
  shows "header_width \<le> length (hreq_body req) \<and>
    unat (hdr_body_length (header_init (hreq_body req))) =
      (length (hreq_body req) - header_width + packager_length) mod 2 ^ 32"
proof -
  obtain r pb where pk: "pack_request reg c (built_request c rid method params) = Inr (r, pb)"
    and body: "hreq_body req = header_bytes ((req_protocol r)\<lparr>hdr_body_length := of_nat (length pb + packager_length)\<rparr>) @ pb"
    using http_prepare_Inr [OF assms(1)] assms(2) by (metis (full_types))
  show ?thesis
    unfolding body by (rule frame_body_length [OF pack_request_built_wf [OF pk]])
qed

lemma http_prepare_frame_witness:
  "\<exists>h req st'. http_prepare demo_registry demo_net_env demo_handles demo_client 7 ''Echo'' (Some [VStr ''hi'']) =
     (Inr (h, req), st') \<and> header_width \<le> length (hreq_body req) \<and>
     unat (hdr_body_length (header_init (hreq_body req))) = (length (hreq_body req) - header_width + packager_length) mod 2 ^ 32"
proof -
  obtain h req st' where eq: "http_prepare demo_registry demo_net_env demo_handles demo_client 7 ''Echo'' (Some [VStr ''hi'']) =
     (Inr (h, req), st')"
    using demo_prepare_plain by blast
  have "\<not> request_gzip (client_opt demo_client)"
    by (simp add: demo_client_def demo_opt_def)
  with http_prepare_frame [OF eq] eq show ?thesis
    by blast
qed

text \<open>
  C16: With request compression on, httpHandler posts the compressed form
  of such a frame and labels it with Content-Encoding gzip.
\<close>

theorem http_prepare_gzip:
  assumes "http_prepare reg env st c rid method params = (Inr (h, req), st')"
    and "request_gzip (client_opt c)"
  shows "hreq_content_encoding req = Some ''gzip'' \<and>
    (\<exists>frame. gzip env frame = Inr (hreq_body req) \<and> header_width \<le> length frame \<and>
       unat (hdr_body_length (header_init frame)) = (length frame - header_width + packager_length) mod 2 ^ 32)"
proof -
  obtain r pb where pk: "pack_request reg c (built_request c rid method params) = Inr (r, pb)"
    and z: "gzip env (header_bytes ((req_protocol r)\<lparr>hdr_body_length := of_nat (length pb + packager_length)\<rparr>) @ pb) = Inr (hreq_body req)"
    and ce: "hreq_content_encoding req = Some ''gzip''"
    using http_prepare_Inr [OF assms(1)] assms(2) by (metis (full_types))
  show ?thesis
    using ce z frame_body_length [OF pack_request_built_wf [OF pk]] by blast
qed

lemma http_prepare_gzip_witness:
  "\<exists>h req st'. http_prepare demo_registry demo_net_env demo_handles
       (demo_client\<lparr>client_opt := demo_opt\<lparr>request_gzip := True\<rparr>\<rparr>) 7 ''Echo'' (Some [VStr ''hi'']) =
     (Inr (h, req), st') \<and> hreq_content_encoding req = Some ''gzip'' \<and>
     (\<exists>frame. gzip demo_net_env frame = Inr (hreq_body req) \<and> header_width \<le> length frame \<and>
        unat (hdr_body_length (header_init frame)) = (length frame - header_width + packager_length) mod 2 ^ 32)"
proof -
  obtain req st' h where eq: "http_prepare demo_registry demo_net_env demo_handles
       (demo_client\<lparr>client_opt := demo_opt\<lparr>request_gzip := True\<rparr>\<rparr>) 7 ''Echo'' (Some [VStr ''hi'']) = (Inr (h, req), st')"
    using demo_prepare [of "demo_client\<lparr>client_opt := demo_opt\<lparr>request_gzip := True\<rparr>\<rparr>" demo_handles]
    by (auto simp: demo_opt_def)
  from http_prepare_gzip [OF eq] eq show ?thesis
    by auto
qed

lemma dns_dial_no_address:
  "last_index address CHR '':'' = Some sep \<Longrightarrow> resolve (take sep address) = Inr [] \<Longrightarrow>
   dns_dial resolve address = Some (Inl ''Lookup Error: No IP Resolver Result Found'')"
  by (simp add: dns_dial_def)

text \<open>
  C19: Through the DNS-cache handle, a host the resolver knows no address
  for ends the call with the Network error
  \<open>Lookup Error: No IP Resolver Result Found\<close>.
\<close>

theorem http_dispatch_dns_no_address:
  assumes "last_index (addr_of_uri env (hreq_uri req)) CHR '':'' = Some sep"
    and "lookup env (take sep (addr_of_uri env (hreq_uri req))) = Inr []"
  shows "http_dispatch reg env st c DnsCacheHttpClient req ret =
         fail ErrorNetwork ''Lookup Error: No IP Resolver Result Found''"
  using dns_dial_no_address [of "addr_of_uri env (hreq_uri req)" sep "lookup env"] assms
  by (simp add: http_dispatch_def do_timeout_def)

lemma http_dispatch_dns_no_address_witness:
  "http_dispatch demo_registry (demo_net_env\<lparr>lookup := (\<lambda>host. Inr [])\<rparr>) demo_handles demo_client
     DnsCacheHttpClient demo_http_request (None :: string target option) =
   fail ErrorNetwork ''Lookup Error: No IP Resolver Result Found''"
  by (rule http_dispatch_dns_no_address [where sep = 9]) (simp_all add: demo_net_env_def)

text \<open>
  C20: Through the DNS-cache handle, the request goes to the first address
  the resolver answers, with the original port, under the handle's current
  read timeout and the call's deadline.
\<close>

theorem do_timeout_dns_first:
  assumes "last_index (addr_of_uri env (hreq_uri req)) CHR '':'' = Some sep"
    and "lookup env (take sep (addr_of_uri env (hreq_uri req))) = Inr (ip # ips)"
  shows "do_timeout env DnsCacheHttpClient st req d =
         Some (exchange env (ip @ drop sep (addr_of_uri env (hreq_uri req))) req (dns_read_timeout st) d)"
  using assms by (simp add: do_timeout_def dns_dial_def read_timeout_def)

lemma do_timeout_dns_first_witness:
  "do_timeout demo_net_env DnsCacheHttpClient demo_handles demo_http_request 2000000000 =
   Some (exchange demo_net_env (''10.0.0.9'' @ '':8080'') demo_http_request 0 2000000000)"
  using do_timeout_dns_first [where sep = 9 and ip = "''10.0.0.9''" and ips = "[]" and env = demo_net_env
      and req = demo_http_request and st = demo_handles and d = 2000000000]
  by (simp add: demo_net_env_def demo_handles_def)

text \<open>
  C21: A reply that claims gzip encoding but does not decompress is read
  as it came, instead of failing the call.
\<close>

theorem http_dispatch_gunzip_fallback:
  assumes "do_timeout env h st req (go_duration_ms (timeout (client_opt c))) = Some (Inr resp)"
    and "hresp_content_encoding resp = ''gzip''" and "gunzip env (hresp_body resp) = Inl e"
  shows "http_dispatch reg env st c h req ret = read_response reg c (hresp_body resp) ret"
  using assms by (simp add: http_dispatch_def)

lemma http_dispatch_gunzip_fallback_witness:
  "http_dispatch demo_registry
     (demo_net_env\<lparr>exchange := (\<lambda>conn req rt d. Inr \<lparr>hresp_content_encoding = ''gzip'', hresp_body = [1, 2]\<rparr>),
                   gunzip := (\<lambda>bs. Inl ''gzip: invalid header'')\<rparr>)
     demo_handles demo_client HttpClient demo_http_request (None :: string target option) =
   read_response demo_registry demo_client [1, 2] None"
  using http_dispatch_gunzip_fallback [where resp = "\<lparr>hresp_content_encoding = ''gzip'', hresp_body = [1, 2]\<rparr>"
      and env = "demo_net_env\<lparr>exchange := (\<lambda>conn req rt d. Inr \<lparr>hresp_content_encoding = ''gzip'', hresp_body = [1, 2]\<rparr>),
                   gunzip := (\<lambda>bs. Inl ''gzip: invalid header'')\<rparr>" and h = HttpClient and st = demo_handles
      and req = demo_http_request and c = demo_client and e = "''gzip: invalid header''"
      and reg = demo_registry and ret = "None :: string target option"]
  by (simp add: do_timeout_def demo_net_env_def)

lemma http_prepare_state:
  "http_prepare reg env st c rid method params = (Inr (h, req), st') \<Longrightarrow>
   st' = set_read_timeout st h (go_duration_ms (timeout (client_opt c)))"
  by (erule http_prepare_Inr) simp



lemma go_duration_ms_small:
  assumes "0 \<le> t" and "t \<le> 9223372036854"
  shows "go_duration_ms t = t * 1000000"
  unfolding go_duration_ms_def
  using assms by (intro signed_take_bit_int_eq_self) simp_all

lemma go_duration_ms_wraps: "go_duration_ms 9223372036855 = -9223372036854551616"
  by (simp add: go_duration_ms_def signed_take_bit_eq_take_bit_shift)

lemma http_dispatch_dns_no_colon:
  assumes "last_index (addr_of_uri env (hreq_uri req)) CHR '':'' = None"
  shows "http_dispatch reg env st c DnsCacheHttpClient req ret = Inl (Panic dial_panic_msg)"
  using assms by (simp add: http_dispatch_def do_timeout_def dns_dial_def)

lemma http_prepare_plain:
  assumes "method \<noteq> []" and "\<not> request_gzip (client_opt c)"
    and "pack_request reg c (built_request c rid method params) = Inr (r, pb)"
  shows "http_prepare reg env st c rid method params =
    (Inr (if dns_cache (client_opt c) then DnsCacheHttpClient else HttpClient,
          \<lparr>hreq_uri = hostname c, hreq_method = ''POST'',
           hreq_body = header_bytes ((req_protocol r)\<lparr>hdr_body_length := of_nat (length pb + packager_length)\<rparr>) @ pb,
           hreq_accept_encoding = (if accept_gzip (client_opt c) then Some ''gzip'' else None),
           hreq_content_encoding = None, hreq_connection_close = True\<rparr>),
     set_read_timeout st (if dns_cache (client_opt c) then DnsCacheHttpClient else HttpClient)
       (go_duration_ms (timeout (client_opt c))))"
  using assms by (simp add: http_prepare_def init_request_eq Let_def)

text \<open>
  A client NewClient makes for a tcp, udp or unix address keeps the
  address and the options and gets a socket transport, which Call never
  uses: every Call on it fails with a Config error.
\<close>

theorem new_client_sock_call:
  assumes "new_client d addr = Inr c" and "net c \<noteq> ''http''" and "net c \<noteq> ''https''"
  shows "hostname c = addr \<and> client_opt c = d \<and> transport c = Some (net c, addr) \<and>
    call reg env st c method ret params rid = (fail ErrorConfig ''unsupported non http protocol'', st)"
proof -
  obtain n where p: "parse_addr_net_name addr = Inr n"
    and c: "c = client_init \<lparr>hostname = addr, net = n, transport = None, client_opt = d\<rparr>"
    using assms(1) by (auto simp: new_client_def split: sum.splits)
  have "n \<in> set accepted_schemes"
    using p by (rule parse_addr_net_name_Inr)
  moreover have "net c = n"
    by (simp add: c client_init_def)
  ultimately have "n = ''tcp'' \<or> n = ''udp'' \<or> n = ''unix''"
    using assms(2,3) by (auto simp: accepted_schemes_def)
  then show ?thesis
    using assms(2,3) by (auto simp: c client_init_def call_def)
qed

lemma new_client_sock_call_witness:
  "new_client demo_opt ''tcp://127.0.0.1:9000'' =
     Inr \<lparr>hostname = ''tcp://127.0.0.1:9000'', net = ''tcp'', transport = Some (''tcp'', ''tcp://127.0.0.1:9000''),
          client_opt = demo_opt\<rparr> \<and>
   call demo_registry demo_net_env demo_handles
     \<lparr>hostname = ''tcp://127.0.0.1:9000'', net = ''tcp'', transport = Some (''tcp'', ''tcp://127.0.0.1:9000''),
      client_opt = demo_opt\<rparr> ''Echo'' (None :: string target option) None 7 =
     (fail ErrorConfig ''unsupported non http protocol'', demo_handles)"
proof -
  have nc: "new_client demo_opt ''tcp://127.0.0.1:9000'' =
     Inr \<lparr>hostname = ''tcp://127.0.0.1:9000'', net = ''tcp'', transport = Some (''tcp'', ''tcp://127.0.0.1:9000''),
          client_opt = demo_opt\<rparr>"
    by (simp add: new_client_def parse_addr_net_name_def accepted_schemes_def client_init_def)
  from new_client_sock_call [OF nc, of demo_registry demo_net_env demo_handles "''Echo''" "None :: string target option" None 7]
  show ?thesis
    using nc by simp
qed

end
