(* ===== verification/Client_Concurrency.thy ===== *)
theory Client_Concurrency
  imports Client_Transport
begin

text \<open>
  Concurrent calls of \<open>src/client/client.go\<close>. Every goroutine that calls
  \<open>Call\<close> runs \<open>httpHandler\<close>, which writes its timeout into one of the two
  process-wide handles and later sends through that handle, which reads the
  timeout back. Between the write and the read other goroutines run. A
  schedule is a list of events, \<open>Prepare i\<close> for the first phase of call
  \<open>i\<close> (\<open>http_prepare\<close>, up to the hand-over to the handle) and
  \<open>Dispatch i\<close> for its second phase (\<open>http_dispatch\<close>); \<open>run_calls\<close>
  executes a schedule on the shared handles and reports each call's result
  in the order the calls finish. The theorem of this theory is the converse
  of the race of \<open>timeout_interleaving\<close>: when the calls that share a handle
  agree on the timeout, every schedule gives every call the result it gets
  running alone.
\<close>

datatype call_event = Prepare nat | Dispatch nat

text \<open>The arguments of call \<open>i\<close>: client, method, return target,
  parameters and the request id \<open>yar.NewRequest\<close> draws.\<close>

type_synonym 't call_args = "client \<times> string \<times> 't target option \<times> dyn list option \<times> u32"

fun run_calls ::
  "registry \<Rightarrow> net_env \<Rightarrow> (nat \<Rightarrow> 't call_args) \<Rightarrow> call_event list \<Rightarrow> handles \<Rightarrow>
   (nat \<rightharpoonup> handle \<times> http_request) \<Rightarrow> (nat \<times> (go_fault + 't option)) list \<times> handles" where
  "run_calls reg env calls [] st pend = ([], st)"
| "run_calls reg env calls (Prepare i # evs) st pend =
     (case calls i of (c, m, ret, params, rid) \<Rightarrow>
        (case http_prepare reg env st c rid m params of
           (Inl err, st) \<Rightarrow> (let (out, st) = run_calls reg env calls evs st pend in ((i, Inl err) # out, st))
         | (Inr hr, st) \<Rightarrow> run_calls reg env calls evs st (pend(i \<mapsto> hr))))"
| "run_calls reg env calls (Dispatch i # evs) st pend =
     (case pend i of
        None \<Rightarrow> run_calls reg env calls evs st pend
      | Some (h, req) \<Rightarrow>
          (case calls i of (c, m, ret, params, rid) \<Rightarrow>
             let r = http_dispatch reg env st c h req ret;
                 (out, st) = run_calls reg env calls evs st (pend(i := None))
             in ((i, r) # out, st)))"

text \<open>The calls that would use the same handle agree on its timeout.\<close>

definition uniform_timeouts :: "(nat \<Rightarrow> 't call_args) \<Rightarrow> nat set \<Rightarrow> bool" where
  "uniform_timeouts calls I \<longleftrightarrow>
     (\<forall>i \<in> I. \<forall>j \<in> I. dns_cache (client_opt (fst (calls i))) = dns_cache (client_opt (fst (calls j))) \<longrightarrow>
        go_duration_ms (timeout (client_opt (fst (calls i)))) = go_duration_ms (timeout (client_opt (fst (calls j)))))"

definition event_call :: "call_event \<Rightarrow> nat" where
  "event_call ev = (case ev of Prepare i \<Rightarrow> i | Dispatch i \<Rightarrow> i)"

text \<open>The result of call \<open>i\<close> running alone.\<close>

definition solo_result :: "registry \<Rightarrow> net_env \<Rightarrow> handles \<Rightarrow> 't call_args \<Rightarrow> go_fault + 't option" where
  "solo_result reg env st a = (case a of (c, m, ret, params, rid) \<Rightarrow> fst (http_handler reg env st c m ret params rid))"

text \<open>Call \<open>i\<close> is prepared: its request is the one \<open>http_prepare\<close> builds,
  and the handle it chose holds its timeout.\<close>

definition pending_ok :: "registry \<Rightarrow> net_env \<Rightarrow> (nat \<Rightarrow> 't call_args) \<Rightarrow> handles \<Rightarrow> nat \<Rightarrow> handle \<times> http_request \<Rightarrow> bool" where
  "pending_ok reg env calls st i hr =
     (case calls i of (c, m, ret, params, rid) \<Rightarrow>
        fst (http_prepare reg env st c rid m params) = Inr hr \<and>
        read_timeout st (fst hr) = go_duration_ms (timeout (client_opt c)))"

subsection \<open>Fixtures\<close>

text \<open>Call 0 through the plain handle with a 2 s timeout, call 1 through the
  DNS-cache handle with 5 ms.\<close>

definition demo_calls :: "nat \<Rightarrow> string call_args" where
  "demo_calls i =
     (if i = 0 then (demo_client, ''Echo'', None, Some [VStr ''hi''], 7)
      else (demo_client\<lparr>client_opt := demo_opt\<lparr>timeout := 5, dns_cache := True\<rparr>\<rparr>, ''Echo'', None,
            Some [VStr ''hi''], 8))"

section \<open>Properties of interleaved calls\<close>

lemma http_prepare_result_indep:
  "fst (http_prepare reg env st c rid m params) = fst (http_prepare reg env st' c rid m params)"
  by (simp add: http_prepare_def Let_def split: sum.splits prod.splits)

lemma http_prepare_fst_set [simp]:
  "fst (http_prepare reg env (set_read_timeout st h t) c rid m params) = fst (http_prepare reg env st c rid m params)"
  by (rule http_prepare_result_indep)

lemma do_timeout_read_timeout:
  assumes "read_timeout st h = read_timeout st' h"
  shows "do_timeout env h st req d = do_timeout env h st' req d"
  unfolding do_timeout_def Let_def assms ..

lemma http_dispatch_read_timeout:
  "read_timeout st h = read_timeout st' h \<Longrightarrow>
   http_dispatch reg env st c h req ret = http_dispatch reg env st' c h req ret"
  by (simp add: http_dispatch_def do_timeout_read_timeout [of st h st'])

lemma read_timeout_other [simp]:
  "h' \<noteq> h \<Longrightarrow> read_timeout (set_read_timeout st h t) h' = read_timeout st h'"
  by (cases h; cases h') (simp_all add: set_read_timeout_def read_timeout_def)

lemma graph_list_eq:
  "(\<forall>(i, r) \<in> set xs. r = f i) \<Longrightarrow> xs = map (\<lambda>i. (i, f i)) (map fst xs)"
  by (induction xs) auto

lemma http_prepare_snd:
  "snd (http_prepare reg env st c rid m params) = st \<or>
   snd (http_prepare reg env st c rid m params) =
     set_read_timeout st (if dns_cache (client_opt c) then DnsCacheHttpClient else HttpClient)
       (go_duration_ms (timeout (client_opt c)))"
  by (simp add: http_prepare_def Let_def split: sum.splits prod.splits)

lemma http_prepare_handle:
  "fst (http_prepare reg env st c rid m params) = Inr (h, req) \<Longrightarrow>
   h = (if dns_cache (client_opt c) then DnsCacheHttpClient else HttpClient) \<and>
   snd (http_prepare reg env st c rid m params) = set_read_timeout st h (go_duration_ms (timeout (client_opt c)))"
  by (cases "http_prepare reg env st c rid m params") (auto elim: http_prepare_Inr)

lemma pending_set_timeout:
  assumes u: "uniform_timeouts calls I" and ij: "i \<in> I" "j \<in> I" and p: "pending_ok reg env calls st i hr"
  shows "pending_ok reg env calls
     (set_read_timeout st (if dns_cache (client_opt (fst (calls j))) then DnsCacheHttpClient else HttpClient)
        (go_duration_ms (timeout (client_opt (fst (calls j)))))) i hr"
proof -
  obtain c m ret params rid where ci: "calls i = (c, m, ret, params, rid)"
    by (cases "calls i") auto
  obtain h req where hr: "hr = (h, req)" by (cases hr)
  have prep: "fst (http_prepare reg env st c rid m params) = Inr (h, req)"
    and t: "read_timeout st h = go_duration_ms (timeout (client_opt c))"
    using p by (simp_all add: pending_ok_def ci hr)
  have h: "h = (if dns_cache (client_opt c) then DnsCacheHttpClient else HttpClient)"
    using http_prepare_handle [OF prep] by simp
  have "dns_cache (client_opt (fst (calls j))) = dns_cache (client_opt c) \<Longrightarrow>
        go_duration_ms (timeout (client_opt (fst (calls j)))) = go_duration_ms (timeout (client_opt c))"
    using u ij by (simp add: uniform_timeouts_def ci)
  then show ?thesis
    using prep t h by (auto simp: pending_ok_def ci hr)
qed

lemma run_calls_solo_from:
  assumes u: "uniform_timeouts calls I" and ev: "event_call ` set evs \<subseteq> I"
    and p: "\<forall>i hr. pend i = Some hr \<longrightarrow> i \<in> I \<and> pending_ok reg env calls st i hr"
  shows "\<forall>(i, r) \<in> set (fst (run_calls reg env calls evs st pend)). r = solo_result reg env st0 (calls i)"
  using ev p
proof (induction evs arbitrary: st pend)
  case (Cons ev evs)
  then have ev': "event_call ev \<in> I" and evs: "event_call ` set evs \<subseteq> I"
    by simp_all
  show ?case
  proof (cases ev)
    case (Prepare j)
    obtain c m ret params rid where cj: "calls j = (c, m, ret, params, rid)"
      by (cases "calls j") auto
    obtain res st' where pr: "http_prepare reg env st c rid m params = (res, st')"
      by (cases "http_prepare reg env st c rid m params")
    have j: "j \<in> I"
      using ev' by (simp add: Prepare event_call_def)
    have keep: "\<forall>i hr. pend i = Some hr \<longrightarrow> i \<in> I \<and> pending_ok reg env calls st' i hr"
      using http_prepare_snd [of reg env st c rid m params] Cons.prems(2)
        pending_set_timeout [OF u _ j] by (auto simp: pr cj)
    show ?thesis
    proof (cases res)
      case (Inl err)
      have "solo_result reg env st0 (calls j) = Inl err"
        using http_prepare_result_indep [of reg env st0 c rid m params st] pr Inl
        by (auto simp: solo_result_def cj http_handler_def split: prod.splits sum.splits)
      then show ?thesis
        using Cons.IH [OF evs keep] by (auto simp: Prepare cj pr Inl split: prod.splits)
    next
      case (Inr hr)
      have f: "fst (http_prepare reg env st c rid m params) = Inr hr"
        using pr Inr by simp
      have f': "fst (http_prepare reg env st' c rid m params) = Inr hr"
        using f http_prepare_result_indep [of reg env st' c rid m params st] by simp
      have "st' = set_read_timeout st (fst hr) (go_duration_ms (timeout (client_opt c)))"
        using http_prepare_handle [of reg env st c rid m params "fst hr" "snd hr"] f pr by simp
      then have ok: "pending_ok reg env calls st' j hr"
        using f by (simp add: pending_ok_def cj)
      have "\<forall>i hr'. (pend(j \<mapsto> hr)) i = Some hr' \<longrightarrow> i \<in> I \<and> pending_ok reg env calls st' i hr'"
        using keep ok j by auto
      moreover have "run_calls reg env calls (ev # evs) st pend = run_calls reg env calls evs st' (pend(j \<mapsto> hr))"
        by (simp add: Prepare cj pr Inr)
      ultimately show ?thesis
        using Cons.IH [OF evs] by metis
    qed
  next
    case (Dispatch j)
    show ?thesis
    proof (cases "pend j")
      case None
      then show ?thesis
        using Cons.IH [OF evs Cons.prems(2)] by (simp add: Dispatch)
    next
      case (Some hr)
      obtain h req where hr: "hr = (h, req)" by (cases hr)
      obtain c m ret params rid where cj: "calls j = (c, m, ret, params, rid)"
        by (cases "calls j") auto
      have ok: "pending_ok reg env calls st j (h, req)"
        using Cons.prems(2) Some hr by blast
      then have prep0: "fst (http_prepare reg env st0 c rid m params) = Inr (h, req)"
        and t: "read_timeout st h = go_duration_ms (timeout (client_opt c))"
        using http_prepare_result_indep [of reg env st0 c rid m params st] by (simp_all add: pending_ok_def cj)
      have st0': "snd (http_prepare reg env st0 c rid m params) = set_read_timeout st0 h (go_duration_ms (timeout (client_opt c)))"
        using http_prepare_handle [OF prep0] by simp
      have eq: "http_dispatch reg env (set_read_timeout st0 h (go_duration_ms (timeout (client_opt c)))) c h req ret =
                http_dispatch reg env st c h req ret"
        using http_dispatch_read_timeout [of "set_read_timeout st0 h (go_duration_ms (timeout (client_opt c)))" h st] t
        by simp
      have "solo_result reg env st0 (calls j) = http_dispatch reg env st c h req ret"
        using prep0 st0' eq
        by (cases "http_prepare reg env st0 c rid m params") (simp add: solo_result_def cj http_handler_def)
      moreover have "\<forall>i hr'. (pend(j := None)) i = Some hr' \<longrightarrow> i \<in> I \<and> pending_ok reg env calls st i hr'"
        using Cons.prems(2) by simp
      then have "\<forall>(i, r) \<in> set (fst (run_calls reg env calls evs st (pend(j := None)))). r = solo_result reg env st0 (calls i)"
        by (rule Cons.IH [OF evs])
      moreover have "fst (run_calls reg env calls (ev # evs) st pend) =
          (j, http_dispatch reg env st c h req ret) # fst (run_calls reg env calls evs st (pend(j := None)))"
        by (simp add: Dispatch Some hr cj Let_def split: prod.splits)
      ultimately show ?thesis
        by (simp add: cj)
    qed
  qed
qed simp

text \<open>
  C18: When the calls that choose the same handle agree on its timeout,
  every interleaving of their preparation and dispatch on the shared handles
  gives each call that finishes the result it gets running alone: the
  timeout a call reads back is the one it wrote.
\<close>

theorem run_calls_uniform:
  assumes "uniform_timeouts calls (event_call ` set evs)"
  shows "fst (run_calls reg env calls evs st Map.empty) =
    map (\<lambda>i. (i, solo_result reg env st (calls i))) (map fst (fst (run_calls reg env calls evs st Map.empty)))"
  by (rule graph_list_eq, rule run_calls_solo_from [OF assms subset_refl]) simp

lemma run_calls_uniform_witness:
  "fst (run_calls demo_registry demo_net_env demo_calls [Prepare 0, Prepare 1, Dispatch 1, Dispatch 0] demo_handles Map.empty) =
   map (\<lambda>i. (i, solo_result demo_registry demo_net_env demo_handles (demo_calls i)))
     (map fst (fst (run_calls demo_registry demo_net_env demo_calls [Prepare 0, Prepare 1, Dispatch 1, Dispatch 0]
                     demo_handles Map.empty)))"
  using run_calls_uniform [of demo_calls "[Prepare 0, Prepare 1, Dispatch 1, Dispatch 0]"
      demo_registry demo_net_env demo_handles]
  by (simp add: uniform_timeouts_def event_call_def demo_calls_def demo_client_def demo_opt_def)

end
