(* ===== verification/Host_Sync.thy ===== *)
theory Host_Sync
  imports Yar_Packager "HOL-Library.Char_ord" "HOL-Library.List_Lexorder" "HOL-Library.Multiset"
begin

text \<open>
  The host-list synchroniser of \<open>src/unnamed/part_000\<close> (package
  \<open>host_sync\<close>): it asks the Docker API for containers, extracts one
  \<open>ip:port\<close> address per container, groups them by pool and service, and
  publishes each group's list to Redis, skipping a group whose checksum did not
  change since the last publication. Its global variables (\<open>dockerAPI\<close>,
  \<open>redisClient\<close>, \<open>hostCheckSum\<close>) and the Redis database it writes are the
  state \<open>sync_state\<close>; the Docker API, the reachability of Redis servers and
  the JSON codec of string lists are the environment. Decoded JSON is the
  value type \<open>dyn\<close> of the codec theory; JSON numbers are integers here.
\<close>

subsection \<open>State and environment\<close>

text \<open>
  \<open>redis_client\<close> is the address of the client made by \<open>SetRedisHost\<close>
  (\<open>None\<close> for a nil client); \<open>redis_db\<close> holds, per server address,
  database 7: key to value and expiry in seconds.
\<close>

record sync_state =
  docker_api :: string
  redis_client :: "string option"
  redis_db :: "string \<Rightarrow> string \<rightharpoonup> string \<times> nat"
  host_check_sum :: "string \<rightharpoonup> string"

text \<open>\<open>json.Marshal\<close> and \<open>json.Unmarshal\<close> on \<open>[]string\<close>.\<close>

record json_codec =
  marshal :: "string list \<Rightarrow> string"
  unmarshal :: "string \<Rightarrow> string + string list"

text \<open>The contract of the JSON codec: it decodes what it encodes, and an
  encoding is never empty (\<open>[]\<close>, \<open>null\<close>, ...).\<close>

definition json_law :: "json_codec \<Rightarrow> bool" where
  "json_law js \<longleftrightarrow> (\<forall>l. unmarshal js (marshal js l) = Inr l \<and> marshal js l \<noteq> [])"

text \<open>
  \<open>list_containers api filter\<close>: the decoded body of
  \<open>GET api/containers/json\<close>, with the pool and service-name label filter or
  without one; \<open>redis_up host\<close>: whether commands to that server succeed.
\<close>

record sync_env =
  list_containers :: "string \<Rightarrow> (string \<times> string) option \<Rightarrow> string + dyn"
  redis_up :: "string \<Rightarrow> bool"

subsection \<open>Formatting\<close>

definition digit_char :: "nat \<Rightarrow> char" where
  "digit_char d = ''0123456789abcdef'' ! d"

fun decimal :: "nat \<Rightarrow> string" where
  "decimal n = (if n < 10 then [digit_char n] else decimal (n div 10) @ [digit_char (n mod 10)])"

fun strip_zeros :: "string \<Rightarrow> string" where
  "strip_zeros [] = []"
| "strip_zeros (x # xs) = (let r = strip_zeros xs in if r = [] \<and> x = CHR ''0'' then [] else x # r)"

text \<open>
  \<open>fmt.Sprint\<close> of a JSON number (a \<open>float64\<close>): shortest digits, in
  exponent form from \<open>10^6\<close> on (exact for integers up to \<open>2^53\<close>).
\<close>

definition sprint_int :: "int \<Rightarrow> string" where
  "sprint_int n =
     (let m = nat \<bar>n\<bar>; sign = (if n < 0 then ''-'' else []) in
      if m < 1000000 then sign @ decimal m
      else
        let ds = decimal m; mant = strip_zeros ds; ex = length ds - 1 in
        sign @ [hd mant] @ (if tl mant = [] then [] else ''.'' @ tl mant) @ ''e+'' @
        (if ex < 10 then ''0'' @ decimal ex else decimal ex))"

fun join_space :: "string list \<Rightarrow> string" where
  "join_space [] = []"
| "join_space [x] = x"
| "join_space (x # xs) = x @ '' '' @ join_space xs"

text \<open>A map is printed with its keys sorted, each key once with its last value.\<close>

fun dedup_keys :: "(string \<times> 'a) list \<Rightarrow> (string \<times> 'a) list" where
  "dedup_keys [] = []"
| "dedup_keys (kv # rest) = (if fst kv \<in> fst ` set rest then dedup_keys rest else kv # dedup_keys rest)"

fun go_sprint :: "dyn \<Rightarrow> string" where
  "go_sprint VNull = ''<nil>''"
| "go_sprint (VBool b) = (if b then ''true'' else ''false'')"
| "go_sprint (VInt n) = sprint_int n"
| "go_sprint (VStr s) = s"
| "go_sprint (VList xs) = ''['' @ join_space (map go_sprint xs) @ '']''"
| "go_sprint (VMap kvs) =
     ''map['' @ join_space
        (map (\<lambda>kv. fst kv @ '':'' @ snd kv) (sort_key fst (dedup_keys (map (\<lambda>kv. (fst kv, go_sprint (snd kv))) kvs)))) @
     '']''"

text \<open>\<open>hex.EncodeToString\<close>: two lower-case hex digits per byte.\<close>

definition hex_encode :: "string \<Rightarrow> string" where
  "hex_encode s = concat (map (\<lambda>c. [digit_char (of_char c div 16), digit_char (of_char c mod 16)]) s)"

subsection \<open>Setters and the Redis store\<close>

definition redis_prefix :: string where
  "redis_prefix = ''__yar_host_sync__:''"

definition host_ttl :: nat where
  "host_ttl = 3600 * 24 * 7"

definition redis_key :: "string \<Rightarrow> string \<Rightarrow> string" where
  "redis_key pool name = redis_prefix @ pool @ '':'' @ name"

definition set_docker_api :: "string \<Rightarrow> sync_state \<Rightarrow> sync_state" where
  "set_docker_api api st = st\<lparr>docker_api := api\<rparr>"

text \<open>\<open>SetRedisHost\<close>: closing the old client has no effect on the data.\<close>

definition set_redis_host :: "string \<Rightarrow> sync_state \<Rightarrow> sync_state" where
  "set_redis_host host st = st\<lparr>redis_client := Some host\<rparr>"

text \<open>\<open>SetHostListToRedis\<close> (lines 144--162). Its \<open>json.Marshal\<close> error
  branch (lines 151--153) is unreachable: \<open>json.Marshal\<close> of a
  \<open>[]string\<close> never fails (a string always encodes; invalid UTF-8 is
  replaced), so \<open>marshal\<close> is total. The \<open>Set\<close> error is the
  unreachable server.\<close>

definition set_host_list_to_redis ::
  "json_codec \<Rightarrow> sync_env \<Rightarrow> string \<Rightarrow> string \<Rightarrow> string list \<Rightarrow> sync_state \<Rightarrow> string option \<times> sync_state" where
  "set_host_list_to_redis js env pool name list st =
     (case redis_client st of
        None \<Rightarrow> (Some ''Please Call SetRedisHost()'', st)
      | Some host \<Rightarrow>
          let json_str = marshal js list; key = redis_key pool name in
          if redis_up env host
          then (None, st\<lparr>redis_db := (redis_db st)(host := (redis_db st host)(key \<mapsto> (json_str, host_ttl)))\<rparr>)
          else (Some ''redis: connection refused'', st))"

definition get_host_list_from_redis ::
  "json_codec \<Rightarrow> sync_env \<Rightarrow> string \<Rightarrow> string \<Rightarrow> sync_state \<Rightarrow> string + string list" where
  "get_host_list_from_redis js env pool name st =
     (case redis_client st of
        None \<Rightarrow> Inl ''Please Call SetRedisHost()''
      | Some host \<Rightarrow>
          if \<not> redis_up env host then Inl ''redis: connection refused''
          else (case redis_db st host (redis_key pool name) of
                  None \<Rightarrow> Inl ''redis: nil''
                | Some (val, _) \<Rightarrow> unmarshal js val))"

subsection \<open>Reading containers\<close>

text \<open>\<open>json.Unmarshal\<close> of the body into \<open>[]map[string]interface{}\<close>: null is
  the nil slice, a null element a nil map.\<close>

definition containers_of :: "dyn \<Rightarrow> string + (string \<times> dyn) list list" where
  "containers_of body =
     (case body of
        VNull \<Rightarrow> Inr []
      | VList xs \<Rightarrow>
          if list_all (\<lambda>x. case x of VMap _ \<Rightarrow> True | VNull \<Rightarrow> True | _ \<Rightarrow> False) xs
          then Inr (map (\<lambda>x. case x of VMap kvs \<Rightarrow> kvs | _ \<Rightarrow> []) xs)
          else Inl ''json: cannot unmarshal into Go value of type map[string]interface {}''
      | _ \<Rightarrow> Inl ''json: cannot unmarshal into Go value of type []map[string]interface {}'')"

text \<open>
  The address of a container, the block both loops share: the first entry of
  \<open>Ports\<close>, if it is an object with the keys \<open>IP\<close> and \<open>PublicPort\<close>
  (whatever their values), printed as \<open>ip:port\<close>.
\<close>

definition container_host :: "(string \<times> dyn) list \<Rightarrow> string option" where
  "container_host item =
     (case field item ''Ports'' of
        Some (VList ports) \<Rightarrow>
          if length ports > 0 then
            (case ports ! 0 of
               VMap p \<Rightarrow>
                 (case (field p ''IP'', field p ''PublicPort'') of
                    (Some ip, Some port) \<Rightarrow> Some (go_sprint ip @ '':'' @ go_sprint port)
                  | _ \<Rightarrow> None)
             | _ \<Rightarrow> None)
          else None
      | _ \<Rightarrow> None)"

definition get_host_list_from_docker_api ::
  "json_codec \<Rightarrow> sync_env \<Rightarrow> string \<Rightarrow> string \<Rightarrow> sync_state \<Rightarrow> (string + string list) \<times> sync_state" where
  "get_host_list_from_docker_api js env pool name st =
     (if length (docker_api st) < 1 then (Inl ''Please Call SetDockerAPI()'', st)
      else case list_containers env (docker_api st) (Some (pool, name)) of
             Inl err \<Rightarrow> (Inl err, st)
           | Inr body \<Rightarrow>
               (case containers_of body of
                  Inl err \<Rightarrow> (Inl err, st)
                | Inr items \<Rightarrow>
                    let list = List.map_filter container_host items
                    in (Inr list, snd (set_host_list_to_redis js env pool name list st))))"

subsection \<open>SyncAllHostList\<close>

text \<open>The regular expression \<open>pool\=\=(\w+)\<close>: the word after the leftmost
  \<open>pool==\<close> that is followed by at least one word character (ASCII).\<close>

definition is_word_char :: "char \<Rightarrow> bool" where
  "is_word_char ch \<longleftrightarrow>
     ch \<in> set ''0123456789ABCDEFGHIJKLMNOPQRSTUVWXYZabcdefghijklmnopqrstuvwxyz_''"

fun find_pool :: "string \<Rightarrow> string option" where
  "find_pool [] = None"
| "find_pool (x # xs) =
     (if take 6 (x # xs) = ''pool=='' \<and> takeWhile is_word_char (drop 6 (x # xs)) \<noteq> []
      then Some (takeWhile is_word_char (drop 6 (x # xs)))
      else find_pool xs)"

text \<open>Pool and service of a container, or \<open>None\<close> where the loop continues.\<close>

definition container_entry :: "(string \<times> dyn) list \<Rightarrow> (string \<times> string) option" where
  "container_entry item =
     (case field item ''Labels'' of
        Some (VMap labels) \<Rightarrow>
          (case (field labels ''com.docker.compose.service'', field labels ''com.docker.swarm.constraints'') of
             (Some (VStr service), Some (VStr pool)) \<Rightarrow>
               let service = (case field labels ''wxhost-service-name'' of
                                Some (VStr w) \<Rightarrow> if length w > 0 then w else service
                              | _ \<Rightarrow> service);
                   pool = (case find_pool pool of Some p \<Rightarrow> p | None \<Rightarrow> pool)
               in Some (pool, service)
           | _ \<Rightarrow> None)
      | _ \<Rightarrow> None)"

text \<open>The map \<open>list[pool][service]\<close> as nested association lists.\<close>

type_synonym host_groups = "(string \<times> (string \<times> string list) list) list"

fun upd_with :: "'k \<Rightarrow> 'v \<Rightarrow> ('v \<Rightarrow> 'v) \<Rightarrow> ('k \<times> 'v) list \<Rightarrow> ('k \<times> 'v) list" where
  "upd_with k d f [] = [(k, f d)]"
| "upd_with k d f ((k', v) # rest) = (if k = k' then (k', f v) # rest else (k', v) # upd_with k d f rest)"

definition add_container :: "host_groups \<Rightarrow> (string \<times> dyn) list \<Rightarrow> host_groups" where
  "add_container groups item =
     (case container_entry item of
        None \<Rightarrow> groups
      | Some (pool, service) \<Rightarrow>
          let groups = upd_with pool [] id groups in
          (case container_host item of
             None \<Rightarrow> groups
           | Some h \<Rightarrow> upd_with pool [] (upd_with service [] (\<lambda>l. l @ [h])) groups))"

definition group_containers :: "(string \<times> dyn) list list \<Rightarrow> host_groups" where
  "group_containers items = fold (\<lambda>item groups. add_container groups item) items []"

definition group_entries :: "host_groups \<Rightarrow> (string \<times> string \<times> string list) list" where
  "group_entries groups = concat (map (\<lambda>(pool, svcs). map (\<lambda>(service, hosts). (pool, service, hosts)) svcs) groups)"

definition check_sum_key :: "string \<Rightarrow> string \<Rightarrow> string" where
  "check_sum_key pool service = pool @ ''_'' @ service"

text \<open>The keys and the checksum of one entry \<open>(pool, service, hosts)\<close>.\<close>

definition entry_check_key :: "string \<times> string \<times> string list \<Rightarrow> string" where
  "entry_check_key e = (case e of (pool, service, _) \<Rightarrow> check_sum_key pool service)"

definition entry_redis_key :: "string \<times> string \<times> string list \<Rightarrow> string" where
  "entry_redis_key e = (case e of (pool, service, _) \<Rightarrow> redis_key pool service)"

definition entry_sum :: "json_codec \<Rightarrow> string \<times> string \<times> string list \<Rightarrow> string" where
  "entry_sum js e = (case e of (_, _, hosts) \<Rightarrow> hex_encode (marshal js hosts))"

text \<open>One round of the publishing loop; a failed write is ignored and the
  checksum recorded all the same.\<close>

definition publish_entry ::
  "json_codec \<Rightarrow> sync_env \<Rightarrow> sync_state \<Rightarrow> string \<times> string \<times> string list \<Rightarrow> sync_state" where
  "publish_entry js env st e =
     (case e of (pool, service, host_list) \<Rightarrow>
        let key = check_sum_key pool service;
            sum = (case host_check_sum st key of None \<Rightarrow> [] | Some v \<Rightarrow> v);
            s = hex_encode (marshal js host_list)
        in if sum = s then st
           else let st = snd (set_host_list_to_redis js env pool service host_list st)
                in st\<lparr>host_check_sum := (host_check_sum st)(key \<mapsto> s)\<rparr>)"

fun publish_all ::
  "json_codec \<Rightarrow> sync_env \<Rightarrow> (string \<times> string \<times> string list) list \<Rightarrow> sync_state \<Rightarrow> sync_state" where
  "publish_all js env [] st = st"
| "publish_all js env (e # es) st = publish_all js env es (publish_entry js env st e)"

definition sync_groups :: "sync_env \<Rightarrow> sync_state \<Rightarrow> string + host_groups" where
  "sync_groups env st =
     (case list_containers env (docker_api st) None of
        Inl err \<Rightarrow> Inl err
      | Inr body \<Rightarrow> (case containers_of body of Inl err \<Rightarrow> Inl err | Inr items \<Rightarrow> Inr (group_containers items)))"

text \<open>
  \<open>SyncAllHostList\<close>. Go iterates its maps in an order the runtime chooses;
  \<open>sched\<close> is that choice, a reordering of the entries.
\<close>

definition sync_all_host_list ::
  "json_codec \<Rightarrow> sync_env \<Rightarrow> ((string \<times> string \<times> string list) list \<Rightarrow> (string \<times> string \<times> string list) list) \<Rightarrow>
   sync_state \<Rightarrow> string option \<times> sync_state" where
  "sync_all_host_list js env sched st =
     (case sync_groups env st of
        Inl err \<Rightarrow> (Some err, st)
      | Inr groups \<Rightarrow> (None, publish_all js env (sched (group_entries groups)) st))"

subsection \<open>Reference view of the grouping\<close>

text \<open>
  What the first loop of \<open>SyncAllHostList\<close> is meant to build:
  \<open>group_hosts items pool service\<close> is the address of every container
  labelled with that pool and service, in the order the Docker API lists
  them; \<open>hosts_of\<close> reads a group out of the nested map, the empty list for
  a missing key as Go's map index does; \<open>groups_wf\<close> says that no key
  appears twice and that every listed service has an address.
\<close>

definition hosts_of :: "host_groups \<Rightarrow> string \<Rightarrow> string \<Rightarrow> string list" where
  "hosts_of groups pool service =
     (case map_of groups pool of
        None \<Rightarrow> []
      | Some svcs \<Rightarrow> (case map_of svcs service of None \<Rightarrow> [] | Some hs \<Rightarrow> hs))"

definition group_hosts :: "(string \<times> dyn) list list \<Rightarrow> string \<Rightarrow> string \<Rightarrow> string list" where
  "group_hosts items pool service =
     List.map_filter container_host (filter (\<lambda>item. container_entry item = Some (pool, service)) items)"

definition groups_wf :: "host_groups \<Rightarrow> bool" where
  "groups_wf groups \<longleftrightarrow>
     distinct (map fst groups) \<and>
     (\<forall>(pool, svcs) \<in> set groups. distinct (map fst svcs) \<and> (\<forall>(service, hs) \<in> set svcs. hs \<noteq> []))"

definition svcs_wf :: "(string \<times> string list) list \<Rightarrow> bool" where
  "svcs_wf svcs \<longleftrightarrow> distinct (map fst svcs) \<and> (\<forall>(s, hs) \<in> set svcs. hs \<noteq> [])"

subsection \<open>Fixtures\<close>

text \<open>
  A codec for string lists with the contract of \<open>json.Marshal\<close> and
  \<open>json.Unmarshal\<close> (\<open>demo_json\<close>: every character escaped, every string
  closed by a quote, the list opened by a bracket), and a Docker API answer
  with three containers in two pools.
\<close>

fun json_chars :: "string \<Rightarrow> string" where
  "json_chars [] = [CHR 0x22]"
| "json_chars (c # cs) = CHR 0x5C # c # json_chars cs"

fun json_strings :: "string \<Rightarrow> string \<Rightarrow> string list option" where
  "json_strings cur [] = (if cur = [] then Some [] else None)"
| "json_strings cur (x # rest) =
     (if x = CHR 0x22 then map_option (Cons cur) (json_strings [] rest)
      else if x = CHR 0x5C then (case rest of c # rest' \<Rightarrow> json_strings (cur @ [c]) rest' | [] \<Rightarrow> None)
      else None)"

definition demo_json :: json_codec where
  "demo_json =
     \<lparr>marshal = (\<lambda>l. ''['' @ concat (map json_chars l)),
      unmarshal = (\<lambda>s. case s of
                         CHR ''['' # rest \<Rightarrow>
                           (case json_strings [] rest of Some l \<Rightarrow> Inr l | None \<Rightarrow> Inl ''invalid character'')
                       | _ \<Rightarrow> Inl ''invalid character'')\<rparr>"

definition demo_container :: "string \<Rightarrow> string \<Rightarrow> string \<Rightarrow> int \<Rightarrow> dyn" where
  "demo_container service pool ip port =
     VMap [(''Labels'', VMap [(''com.docker.compose.service'', VStr service),
                             (''com.docker.swarm.constraints'', VStr (''[\"pool=='' @ pool @ ''\"]''))]),
           (''Ports'', VList [VMap [(''IP'', VStr ip), (''PublicPort'', VInt port)]])]"

definition demo_docker_body :: dyn where
  "demo_docker_body =
     VList [demo_container ''web'' ''p1'' ''10.0.0.1'' 8080, demo_container ''web'' ''p1'' ''10.0.0.2'' 8080,
            demo_container ''db'' ''p2'' ''10.0.0.3'' 5432]"

definition demo_sync_env :: sync_env where
  "demo_sync_env = \<lparr>list_containers = (\<lambda>api filter. Inr demo_docker_body), redis_up = (\<lambda>h. h = ''redis:6379'')\<rparr>"

definition demo_sync_state :: sync_state where
  "demo_sync_state =
     \<lparr>docker_api = ''http://docker:2375'', redis_client = Some ''redis:6379'',
      redis_db = (\<lambda>h. Map.empty), host_check_sum = Map.empty\<rparr>"

section \<open>Properties of the host synchronisation\<close>

lemma json_strings_chars:
  "json_strings cur (json_chars s @ rest) = map_option (Cons (cur @ s)) (json_strings [] rest)"
  by (induction s arbitrary: cur) simp_all

lemma json_strings_concat: "json_strings [] (concat (map json_chars l)) = Some l"
  by (induction l) (simp_all add: json_strings_chars)

lemma demo_json_law: "json_law demo_json"
  by (simp add: json_law_def demo_json_def json_strings_concat)

lemma demo_items:
  "containers_of demo_docker_body =
     Inr (map (\<lambda>v. case v of VMap kvs \<Rightarrow> kvs | _ \<Rightarrow> [])
       [demo_container ''web'' ''p1'' ''10.0.0.1'' 8080, demo_container ''web'' ''p1'' ''10.0.0.2'' 8080,
        demo_container ''db'' ''p2'' ''10.0.0.3'' 5432])"
  by (simp add: containers_of_def demo_docker_body_def demo_container_def)



lemma demo_group_containers:
  "group_containers (map (\<lambda>v. case v of VMap kvs \<Rightarrow> kvs | _ \<Rightarrow> [])
       [demo_container ''web'' ''p1'' ''10.0.0.1'' 8080, demo_container ''web'' ''p1'' ''10.0.0.2'' 8080,
        demo_container ''db'' ''p2'' ''10.0.0.3'' 5432]) =
   [(''p1'', [(''web'', [''10.0.0.1:8080'', ''10.0.0.2:8080''])]), (''p2'', [(''db'', [''10.0.0.3:5432''])])]"
  by (simp add: group_containers_def add_container_def container_entry_def container_host_def demo_container_def
      field_def is_word_char_def sprint_int_def digit_char_def)

lemma hex_encode_empty_iff [simp]:
  "hex_encode s = [] \<longleftrightarrow> s = []" "[] = hex_encode s \<longleftrightarrow> s = []"
  by (auto simp: hex_encode_def)

lemma set_host_list_frame [simp]:
  "host_check_sum (snd (set_host_list_to_redis js env pool name l st)) = host_check_sum st"
  "redis_client (snd (set_host_list_to_redis js env pool name l st)) = redis_client st"
  "docker_api (snd (set_host_list_to_redis js env pool name l st)) = docker_api st"
  by (simp_all add: set_host_list_to_redis_def Let_def split: option.splits)

lemma set_host_list_db:
  "redis_db (snd (set_host_list_to_redis js env pool name l st)) h k =
     (if redis_client st = Some h \<and> redis_up env h \<and> k = redis_key pool name
      then Some (marshal js l, host_ttl) else redis_db st h k)"
  by (auto simp: set_host_list_to_redis_def Let_def split: option.splits)

lemma publish_entry_frame [simp]:
  "redis_client (publish_entry js env st e) = redis_client st"
  "docker_api (publish_entry js env st e) = docker_api st"
  by (simp_all add: publish_entry_def Let_def split: prod.splits)

lemma publish_entry_check_sum:
  assumes "json_law js"
  shows "host_check_sum (publish_entry js env st e) = (host_check_sum st)(entry_check_key e \<mapsto> entry_sum js e)"
proof -
  obtain p s hs where e: "e = (p, s, hs)" by (cases e) auto
  have ne: "hex_encode (marshal js hs) \<noteq> []"
    using assms by (simp add: json_law_def)
  show ?thesis
    using ne by (auto simp: e publish_entry_def Let_def entry_check_key_def entry_sum_def split: option.splits)
qed

lemma publish_entry_db:
  assumes "json_law js"
  shows "redis_db (publish_entry js env st e) h k =
    (if redis_client st = Some h \<and> redis_up env h \<and> k = entry_redis_key e \<and>
        host_check_sum st (entry_check_key e) \<noteq> Some (entry_sum js e)
     then Some (marshal js (snd (snd e)), host_ttl) else redis_db st h k)"
proof -
  obtain p s hs where e: "e = (p, s, hs)" by (cases e) auto
  have ne: "hex_encode (marshal js hs) \<noteq> []"
    using assms by (simp add: json_law_def)
  show ?thesis
    using ne by (auto simp: e publish_entry_def Let_def entry_check_key_def entry_sum_def
        entry_redis_key_def set_host_list_db split: option.splits)
qed

text \<open>
  Publishing the same entry twice in a row is the same as publishing
  it once: the second round finds the checksum unchanged and skips.
\<close>

theorem publish_entry_idem:
  assumes "json_law js"
  shows "publish_entry js env (publish_entry js env st e) e = publish_entry js env st e"
proof -
  obtain p s hs where e: "e = (p, s, hs)" by (cases e) auto
  have "host_check_sum (publish_entry js env st e) (check_sum_key p s) = Some (hex_encode (marshal js hs))"
    using publish_entry_check_sum [OF assms] by (simp add: e entry_check_key_def entry_sum_def)
  then show ?thesis
    by (simp add: e publish_entry_def [of js env "publish_entry js env st (p, s, hs)"] Let_def)
qed

lemma publish_entry_idem_witness:
  "publish_entry demo_json demo_sync_env (publish_entry demo_json demo_sync_env demo_sync_state (''p1'', ''web'', []))
     (''p1'', ''web'', []) = publish_entry demo_json demo_sync_env demo_sync_state (''p1'', ''web'', [])"
  by (rule publish_entry_idem [OF demo_json_law])

text \<open>
  SetHostListToRedis followed by GetHostListFromRedis on the same
  pool and service returns the list written, when the Redis server is up.
\<close>

theorem redis_round_trip:
  assumes "json_law js" and "redis_client st = Some host" and "redis_up env host"
  shows "fst (set_host_list_to_redis js env pool name l st) = None \<and>
    get_host_list_from_redis js env pool name (snd (set_host_list_to_redis js env pool name l st)) = Inr l"
  using assms by (simp add: set_host_list_to_redis_def get_host_list_from_redis_def json_law_def Let_def)

lemma redis_round_trip_witness:
  "fst (set_host_list_to_redis demo_json demo_sync_env ''p1'' ''web'' [''10.0.0.1:8080''] demo_sync_state) = None \<and>
   get_host_list_from_redis demo_json demo_sync_env ''p1'' ''web''
     (snd (set_host_list_to_redis demo_json demo_sync_env ''p1'' ''web'' [''10.0.0.1:8080''] demo_sync_state)) =
   Inr [''10.0.0.1:8080'']"
  by (rule redis_round_trip [OF demo_json_law]) (simp_all add: demo_sync_state_def demo_sync_env_def)

text \<open>
  C30: A publication whose Redis write fails still records the checksum,
  so the next sync with the server back up skips the unchanged list and the
  key stays missing in Redis.
\<close>

theorem stale_after_failed_write:
  assumes "json_law js" and "redis_client st = Some host" and "\<not> redis_up env1 host"
    and "redis_up env2 host" and "redis_db st host (redis_key pool service) = None"
  shows "get_host_list_from_redis js env2 pool service
           (publish_entry js env2 (publish_entry js env1 st (pool, service, hs)) (pool, service, hs)) =
         Inl ''redis: nil''"
proof -
  let ?e = "(pool, service, hs)"
  let ?st1 = "publish_entry js env1 st ?e"
  have db1: "redis_db ?st1 host (redis_key pool service) = None"
    using publish_entry_db [OF assms(1), of env1 st ?e host] assms(3,5) by simp
  have cs1: "host_check_sum ?st1 (entry_check_key ?e) = Some (entry_sum js ?e)"
    using publish_entry_check_sum [OF assms(1)] by simp
  have "redis_db (publish_entry js env2 ?st1 ?e) host (redis_key pool service) = None"
    using publish_entry_db [OF assms(1), of env2 ?st1 ?e host] db1 cs1 by simp
  then show ?thesis
    using assms(2,4) by (simp add: get_host_list_from_redis_def)
qed

lemma stale_after_failed_write_witness:
  "get_host_list_from_redis demo_json demo_sync_env ''p1'' ''web''
     (publish_entry demo_json demo_sync_env
       (publish_entry demo_json (demo_sync_env\<lparr>redis_up := (\<lambda>h. False)\<rparr>) demo_sync_state (''p1'', ''web'', [''10.0.0.1:8080'']))
       (''p1'', ''web'', [''10.0.0.1:8080''])) = Inl ''redis: nil''"
  by (rule stale_after_failed_write [OF demo_json_law, of _ "''redis:6379''"])
    (simp_all add: demo_sync_state_def demo_sync_env_def)

text \<open>
  C31: Two groups whose checksum keys \<open>pool_service\<close> collide, such as
  pool \<open>a_b\<close> with service \<open>c\<close> and pool \<open>a\<close> with service
  \<open>b_c\<close>, but whose Redis keys differ: with equal host lists the second
  is never written to Redis.
\<close>

theorem collision_hides_second:
  assumes "json_law js" and "check_sum_key p1 s1 = check_sum_key p2 s2"
    and "redis_key p1 s1 \<noteq> redis_key p2 s2"
  shows "redis_db (publish_all js env [(p1, s1, hs), (p2, s2, hs)] st) h (redis_key p2 s2) =
         redis_db st h (redis_key p2 s2)"
proof -
  let ?st1 = "publish_entry js env st (p1, s1, hs)"
  have cs1: "host_check_sum ?st1 (check_sum_key p2 s2) = Some (entry_sum js (p2, s2, hs))"
    using publish_entry_check_sum [OF assms(1)] assms(2)
    by (simp add: entry_check_key_def entry_sum_def)
  have db1: "redis_db ?st1 h (redis_key p2 s2) = redis_db st h (redis_key p2 s2)"
    using publish_entry_db [OF assms(1)] assms(3) by (simp add: entry_redis_key_def)
  show ?thesis
    using publish_entry_db [OF assms(1), of env ?st1 "(p2, s2, hs)" h] cs1 db1
    by (simp add: entry_check_key_def)
qed

lemma collision_hides_second_witness:
  "redis_db (publish_all demo_json demo_sync_env [(''a_b'', ''c'', [''10.0.0.1:80'']), (''a'', ''b_c'', [''10.0.0.1:80''])]
      demo_sync_state) ''redis:6379'' (redis_key ''a'' ''b_c'') = None"
  using collision_hides_second [OF demo_json_law, of "''a_b''" "''c''" "''a''" "''b_c''" demo_sync_env "[''10.0.0.1:80'']"
      demo_sync_state "''redis:6379''"]
  by (simp add: check_sum_key_def redis_key_def demo_sync_state_def)

lemma publish_all_frame [simp]:
  "redis_client (publish_all js env es st) = redis_client st"
  "docker_api (publish_all js env es st) = docker_api st"
  "sync_state.more (publish_all js env es st) = sync_state.more st"
proof (induction es arbitrary: st)
  case (Cons e es)
  { case 1 show ?case using Cons.IH(1) by simp }
  { case 2 show ?case using Cons.IH(2) by simp }
  { case 3 show ?case using Cons.IH(3)
      by (simp add: publish_entry_def Let_def set_host_list_to_redis_def split: prod.splits option.splits) }
qed simp_all

lemma find_unique_key:
  assumes "distinct (map f xs)"
  shows "find (\<lambda>e. f e = k) xs = Some e \<longleftrightarrow> e \<in> set xs \<and> f e = k"
  using assms by (induction xs) (auto simp: image_iff)

lemma find_key_perm:
  assumes "distinct (map f xs)" and "mset ys = mset xs"
  shows "find (\<lambda>e. f e = k) ys = find (\<lambda>e. f e = k) xs"
proof -
  have set_eq: "set ys = set xs"
    using assms(2) by (rule mset_eq_setD)
  have dys: "distinct (map f ys)"
    using assms by (metis mset_map mset_eq_imp_distinct_iff)
  show ?thesis
  proof (cases "find (\<lambda>e. f e = k) xs")
    case None
    then have "\<not> (\<exists>e \<in> set ys. f e = k)"
      using set_eq by (simp add: find_None_iff)
    then have "find (\<lambda>e. f e = k) ys = None"
      by (simp add: find_None_iff)
    with None show ?thesis
      by simp
  next
    case (Some e)
    then have "e \<in> set ys \<and> f e = k"
      using find_unique_key [OF assms(1)] set_eq by blast
    with Some show ?thesis
      using find_unique_key [OF dys] by simp
  qed
qed

lemma publish_all_check_sum:
  assumes "json_law js" and "distinct (map entry_check_key es)"
  shows "host_check_sum (publish_all js env es st) k =
    (case find (\<lambda>e. entry_check_key e = k) es of
       Some e \<Rightarrow> Some (entry_sum js e)
     | None \<Rightarrow> host_check_sum st k)"
  using assms(2)
proof (induction es arbitrary: st)
  case Nil
  then show ?case by simp
next
  case (Cons e es)
  have d: "distinct (map entry_check_key es)" and notin: "entry_check_key e \<notin> entry_check_key ` set es"
    using Cons.prems by auto
  note IH = Cons.IH [OF d, of "publish_entry js env st e"]
  show ?case
  proof (cases "entry_check_key e = k")
    case True
    have "find (\<lambda>e'. entry_check_key e' = k) es = None"
      unfolding find_None_iff using notin True by blast
    then show ?thesis
      using True IH publish_entry_check_sum [OF assms(1)] by simp
  next
    case False
    then show ?thesis
      using IH publish_entry_check_sum [OF assms(1)] by (simp split: option.splits)
  qed
qed

lemma publish_all_db:
  assumes "json_law js" and "distinct (map entry_check_key es)" and "distinct (map entry_redis_key es)"
  shows "redis_db (publish_all js env es st) h k =
    (case find (\<lambda>e. entry_redis_key e = k) es of
       Some e \<Rightarrow>
         if redis_client st = Some h \<and> redis_up env h \<and>
            host_check_sum st (entry_check_key e) \<noteq> Some (entry_sum js e)
         then Some (marshal js (snd (snd e)), host_ttl) else redis_db st h k
     | None \<Rightarrow> redis_db st h k)"
  using assms(2,3)
proof (induction es arbitrary: st)
  case Nil
  then show ?case by simp
next
  case (Cons e es)
  have dc: "distinct (map entry_check_key es)" and nc: "entry_check_key e \<notin> entry_check_key ` set es"
    and dr: "distinct (map entry_redis_key es)" and nr: "entry_redis_key e \<notin> entry_redis_key ` set es"
    using Cons.prems by auto
  let ?st1 = "publish_entry js env st e"
  note IH = Cons.IH [OF dc dr, of ?st1]
  show ?case
  proof (cases "entry_redis_key e = k")
    case True
    have "find (\<lambda>e'. entry_redis_key e' = k) es = None"
      unfolding find_None_iff using nr True by blast
    then show ?thesis
      using True IH publish_entry_db [OF assms(1), of env st e h k] by simp
  next
    case False
    show ?thesis
    proof (cases "find (\<lambda>e'. entry_redis_key e' = k) es")
      case None
      then show ?thesis
        using False IH publish_entry_db [OF assms(1), of env st e h k] by simp
    next
      case (Some e')
      then have "e' \<in> set es"
        by (metis find_Some_iff nth_mem)
      then have "entry_check_key e' \<noteq> entry_check_key e"
        using nc by (metis image_eqI)
      then have "host_check_sum ?st1 (entry_check_key e') = host_check_sum st (entry_check_key e')"
        using publish_entry_check_sum [OF assms(1)] by simp
      then show ?thesis
        using False Some IH publish_entry_db [OF assms(1), of env st e h k] by simp
    qed
  qed
qed

text \<open>
  C24: The publishing loop's result does not depend on the order Go
  iterates the pool and service maps in, when no two entries share a
  checksum key or a Redis key.
\<close>

theorem publish_all_order_independent:
  assumes "json_law js" and "mset es' = mset es"
    and "distinct (map entry_check_key es)" and "distinct (map entry_redis_key es)"
  shows "publish_all js env es' st = publish_all js env es st"
proof -
  have dc': "distinct (map entry_check_key es')" and dr': "distinct (map entry_redis_key es')"
    using assms by (metis mset_map mset_eq_imp_distinct_iff)+
  have cs: "host_check_sum (publish_all js env es' st) = host_check_sum (publish_all js env es st)"
    using publish_all_check_sum [OF assms(1) dc'] publish_all_check_sum [OF assms(1,3)]
      find_key_perm [OF assms(3,2)] by (simp add: fun_eq_iff)
  have db: "redis_db (publish_all js env es' st) = redis_db (publish_all js env es st)"
    using publish_all_db [OF assms(1) dc' dr'] publish_all_db [OF assms(1,3,4)]
      find_key_perm [OF assms(4,2)] by (simp add: fun_eq_iff)
  show ?thesis
    using cs db by (intro sync_state.equality) simp_all
qed

lemma publish_all_order_independent_witness:
  "publish_all demo_json demo_sync_env [(''p2'', ''db'', [''10.0.0.3:5432'']), (''p1'', ''web'', [''10.0.0.1:8080''])]
     demo_sync_state =
   publish_all demo_json demo_sync_env [(''p1'', ''web'', [''10.0.0.1:8080'']), (''p2'', ''db'', [''10.0.0.3:5432''])]
     demo_sync_state"
  using publish_all_order_independent [OF demo_json_law,
      of "[(''p2'', ''db'', [''10.0.0.3:5432'']), (''p1'', ''web'', [''10.0.0.1:8080''])]"
         "[(''p1'', ''web'', [''10.0.0.1:8080'']), (''p2'', ''db'', [''10.0.0.3:5432''])]"]
  by (simp add: entry_check_key_def entry_redis_key_def check_sum_key_def redis_key_def)



lemma map_of_upd_with [simp]:
  "map_of (upd_with k d f xs) = (map_of xs)(k \<mapsto> f (case map_of xs k of None \<Rightarrow> d | Some v \<Rightarrow> v))"
  by (induction k d f xs rule: upd_with.induct) (auto simp: fun_eq_iff)

lemma fst_set_upd_with [simp]: "fst ` set (upd_with k d f xs) = insert k (fst ` set xs)"
  by (induction k d f xs rule: upd_with.induct) auto

lemma distinct_upd_with [simp]: "distinct (map fst (upd_with k d f xs)) = distinct (map fst xs)"
  by (induction k d f xs rule: upd_with.induct) auto

lemma set_upd_with:
  "distinct (map fst xs) \<Longrightarrow>
   set (upd_with k d f xs) = {(k', v) \<in> set xs. k' \<noteq> k} \<union> {(k, f (case map_of xs k of None \<Rightarrow> d | Some v \<Rightarrow> v))}"
  by (induction k d f xs rule: upd_with.induct) (auto simp: image_iff)

lemma hosts_of_add_container:
  "hosts_of (add_container groups item) pool service =
     hosts_of groups pool service @
     (if container_entry item = Some (pool, service) then List.map_filter container_host [item] else [])"
  by (auto simp: add_container_def hosts_of_def List.map_filter_def Let_def
      split: option.splits prod.splits)

lemma hosts_of_fold:
  "hosts_of (fold (\<lambda>item groups. add_container groups item) items groups) pool service =
     hosts_of groups pool service @ group_hosts items pool service"
proof (induction items arbitrary: groups)
  case Nil
  then show ?case by (simp add: group_hosts_def List.map_filter_def)
next
  case (Cons item items)
  then show ?case
    by (simp add: hosts_of_add_container group_hosts_def List.map_filter_def)
qed

lemma groups_wf_svcs: "groups_wf groups \<longleftrightarrow> distinct (map fst groups) \<and> (\<forall>(p, svcs) \<in> set groups. svcs_wf svcs)"
  by (simp add: groups_wf_def svcs_wf_def)

lemma groups_wf_upd_with:
  assumes wf: "groups_wf groups"
    and f: "svcs_wf (f (case map_of groups pool of None \<Rightarrow> [] | Some v \<Rightarrow> v))"
  shows "groups_wf (upd_with pool [] f groups)"
proof -
  have d: "distinct (map fst groups)"
    using wf by (simp add: groups_wf_svcs)
  show ?thesis
    using wf f unfolding groups_wf_svcs set_upd_with [OF d] by auto
qed

lemma svcs_wf_lookup:
  "groups_wf groups \<Longrightarrow> svcs_wf (case map_of groups pool of None \<Rightarrow> [] | Some v \<Rightarrow> v)"
  by (auto simp: groups_wf_svcs svcs_wf_def split: option.splits dest!: map_of_SomeD)

lemma svcs_wf_append:
  assumes "svcs_wf svcs"
  shows "svcs_wf (upd_with service [] (\<lambda>l. l @ [h]) svcs)"
proof -
  have "distinct (map fst svcs)"
    using assms by (simp add: svcs_wf_def)
  then show ?thesis
    using assms unfolding svcs_wf_def set_upd_with [OF \<open>distinct (map fst svcs)\<close>] by auto
qed

lemma groups_wf_add_container:
  assumes "groups_wf groups"
  shows "groups_wf (add_container groups item)"
proof (cases "container_entry item")
  case None
  then show ?thesis using assms by (simp add: add_container_def)
next
  case (Some ps)
  obtain pool service where ps: "ps = (pool, service)" by (cases ps)
  let ?g = "upd_with pool [] id groups"
  have g: "groups_wf ?g"
    using assms by (intro groups_wf_upd_with) (simp_all add: svcs_wf_lookup)
  show ?thesis
  proof (cases "container_host item")
    case None
    then have "add_container groups item = ?g"
      using Some ps by (simp add: add_container_def)
    then show ?thesis using g by simp
  next
    case (Some h)
    have "groups_wf (upd_with pool [] (upd_with service [] (\<lambda>l. l @ [h])) ?g)"
      by (rule groups_wf_upd_with [where f = "upd_with service [] (\<lambda>l. l @ [h])", OF g
          svcs_wf_append [OF svcs_wf_lookup [OF g, of pool]]])
    moreover have "add_container groups item = upd_with pool [] (upd_with service [] (\<lambda>l. l @ [h])) ?g"
      using \<open>container_entry item = Some ps\<close> Some ps by (simp add: add_container_def)
    ultimately show ?thesis by simp
  qed
qed

lemma groups_wf_fold:
  "groups_wf groups \<Longrightarrow> groups_wf (fold (\<lambda>item groups. add_container groups item) items groups)"
  by (induction items arbitrary: groups) (simp_all add: groups_wf_add_container)

lemma group_containers_wf: "groups_wf (group_containers items)"
  unfolding group_containers_def by (rule groups_wf_fold) (simp add: groups_wf_def)

lemma hosts_of_group_containers:
  "hosts_of (group_containers items) pool service = group_hosts items pool service"
  unfolding group_containers_def hosts_of_fold by (simp add: hosts_of_def)

lemma set_group_entries:
  "set (group_entries groups) = {(p, s, hs). \<exists>svcs. (p, svcs) \<in> set groups \<and> (s, hs) \<in> set svcs}"
  by (auto simp: group_entries_def)

lemma group_entries_hosts_of:
  assumes wf: "groups_wf groups"
  shows "(p, s, hs) \<in> set (group_entries groups) \<longleftrightarrow> hosts_of groups p s = hs \<and> hs \<noteq> []"
proof
  assume "(p, s, hs) \<in> set (group_entries groups)"
  then obtain svcs where in1: "(p, svcs) \<in> set groups" and in2: "(s, hs) \<in> set svcs"
    by (auto simp: set_group_entries)
  have "map_of groups p = Some svcs"
    using wf in1 by (simp add: groups_wf_svcs)
  moreover have "svcs_wf svcs"
    using wf in1 by (auto simp: groups_wf_svcs)
  then have "map_of svcs s = Some hs" and "hs \<noteq> []"
    using in2 by (auto simp: svcs_wf_def)
  ultimately show "hosts_of groups p s = hs \<and> hs \<noteq> []"
    by (simp add: hosts_of_def)
next
  assume h: "hosts_of groups p s = hs \<and> hs \<noteq> []"
  then obtain svcs where "map_of groups p = Some svcs" and "map_of svcs s = Some hs"
    by (auto simp: hosts_of_def split: option.splits)
  then show "(p, s, hs) \<in> set (group_entries groups)"
    by (auto simp: set_group_entries dest!: map_of_SomeD)
qed

lemma group_entries_keys:
  "map (\<lambda>(p, s, hs). (p, s)) (group_entries groups) =
     concat (map (\<lambda>(p, svcs). map (Pair p) (map fst svcs)) groups)"
  by (induction groups) (auto simp: group_entries_def)

lemma distinct_group_entries:
  assumes "groups_wf groups"
  shows "distinct (map (\<lambda>(p, s, hs). (p, s)) (group_entries groups))"
  using assms unfolding groups_wf_svcs group_entries_keys
proof (induction groups)
  case (Cons g groups)
  obtain p svcs where g: "g = (p, svcs)" by (cases g)
  have "distinct (map (Pair p) (map fst svcs))"
    using Cons.prems by (simp add: g svcs_wf_def distinct_map inj_on_def)
  moreover have "p \<notin> fst ` set groups"
    using Cons.prems by (simp add: g)
  then have "set (map (Pair p) (map fst svcs)) \<inter> set (concat (map (\<lambda>(p, svcs). map (Pair p) (map fst svcs)) groups)) = {}"
    by force
  ultimately show ?case
    using Cons by (simp add: g)
qed simp

lemma publish_all_get:
  assumes "json_law js" and "redis_client st = Some h" and "redis_up env h"
    and "distinct (map entry_check_key es)" and "distinct (map entry_redis_key es)"
    and "(pool, service, hs) \<in> set es"
    and "host_check_sum st (check_sum_key pool service) \<noteq> Some (entry_sum js (pool, service, hs))"
  shows "get_host_list_from_redis js env pool service (publish_all js env es st) = Inr hs"
proof -
  have "find (\<lambda>e. entry_redis_key e = redis_key pool service) es = Some (pool, service, hs)"
    using find_unique_key [OF assms(5), of "redis_key pool service" "(pool, service, hs)"] assms(6)
    by (simp add: entry_redis_key_def)
  then have "redis_db (publish_all js env es st) h (redis_key pool service) = Some (marshal js hs, host_ttl)"
    using publish_all_db [OF assms(1,4,5), of env st h "redis_key pool service"] assms(2,3,7)
    by (simp add: entry_check_key_def)
  then show ?thesis
    using assms(1-3) by (simp add: get_host_list_from_redis_def json_law_def)
qed

text \<open>
  C23: On the first run of SyncAllHostList after start-up (no checksum
  recorded yet), with the Redis server up and no two groups sharing a
  checksum key or a Redis key, the sync reports no error and afterwards
  GetHostListFromRedis returns, for every pool and service with a container
  that has an address, exactly the addresses of those containers in the
  order the Docker API listed them, whatever order the maps are iterated in.
\<close>

theorem sync_all_first_run:
  assumes "json_law js" and "redis_client st = Some h" and "redis_up env h"
    and "host_check_sum st = Map.empty"
    and "list_containers env (docker_api st) None = Inr body" and "containers_of body = Inr items"
    and "mset (sched (group_entries (group_containers items))) = mset (group_entries (group_containers items))"
    and "distinct (map entry_check_key (group_entries (group_containers items)))"
    and "distinct (map entry_redis_key (group_entries (group_containers items)))"
    and "group_hosts items pool service \<noteq> []"
  shows "fst (sync_all_host_list js env sched st) = None \<and>
    get_host_list_from_redis js env pool service (snd (sync_all_host_list js env sched st)) =
      Inr (group_hosts items pool service)"
proof -
  let ?es = "group_entries (group_containers items)"
  have run: "sync_all_host_list js env sched st = (None, publish_all js env (sched ?es) st)"
    using assms(5,6) by (simp add: sync_all_host_list_def sync_groups_def)
  have "(pool, service, group_hosts items pool service) \<in> set ?es"
    using group_entries_hosts_of [OF group_containers_wf] hosts_of_group_containers assms(10) by simp
  then have mem: "(pool, service, group_hosts items pool service) \<in> set (sched ?es)"
    using assms(7) by (metis mset_eq_setD)
  have "distinct (map entry_check_key (sched ?es))" "distinct (map entry_redis_key (sched ?es))"
    using assms(7-9) by (metis mset_map mset_eq_imp_distinct_iff)+
  from publish_all_get [OF assms(1-3) this mem] assms(4) run show ?thesis
    by simp
qed

lemma sync_all_first_run_witness:
  "fst (sync_all_host_list demo_json demo_sync_env id demo_sync_state) = None \<and>
   get_host_list_from_redis demo_json demo_sync_env ''p1'' ''web''
     (snd (sync_all_host_list demo_json demo_sync_env id demo_sync_state)) = Inr [''10.0.0.1:8080'', ''10.0.0.2:8080'']"
proof -
  let ?items = "map (\<lambda>v. case v of VMap kvs \<Rightarrow> kvs | _ \<Rightarrow> [])
       [demo_container ''web'' ''p1'' ''10.0.0.1'' 8080, demo_container ''web'' ''p1'' ''10.0.0.2'' 8080,
        demo_container ''db'' ''p2'' ''10.0.0.3'' 5432]"
  have g: "group_containers ?items = [(''p1'', [(''web'', [''10.0.0.1:8080'', ''10.0.0.2:8080''])]), (''p2'', [(''db'', [''10.0.0.3:5432''])])]"
    by (rule demo_group_containers)
  have h: "group_hosts ?items ''p1'' ''web'' = [''10.0.0.1:8080'', ''10.0.0.2:8080'']"
    by (simp add: group_hosts_def container_entry_def container_host_def demo_container_def field_def
        is_word_char_def sprint_int_def digit_char_def List.map_filter_def)
  show ?thesis
    using sync_all_first_run [OF demo_json_law, of demo_sync_state "''redis:6379''" demo_sync_env
        demo_docker_body ?items id "''p1''" "''web''"] g h demo_items
    by (simp add: demo_sync_state_def demo_sync_env_def group_entries_def entry_check_key_def
        entry_redis_key_def check_sum_key_def redis_key_def redis_prefix_def)
qed

lemma takeWhile_word:
  assumes "list_all P w" and "rest = [] \<or> \<not> P (hd rest)"
  shows "takeWhile P (w @ rest) = w"
  using assms by (cases rest) (simp_all add: takeWhile_append2 list_all_iff)

lemma find_pool_at:
  assumes "w \<noteq> []" and "list_all is_word_char w" and "rest = [] \<or> \<not> is_word_char (hd rest)"
  shows "find_pool (''pool=='' @ w @ rest) = Some w"
  using assms takeWhile_word [OF assms(2,3)] by simp

lemma find_pool_quote: "\<not> is_word_char (CHR 0x22)"
  by (simp add: is_word_char_def)

text \<open>
  C27: The first loop of SyncAllHostList builds the grouping it is meant to:
  no pool or service key twice, no service without an address, and for every
  pool and service the addresses of the containers labelled with them, in the
  Docker API's order; the entries the publishing loop iterates over are
  exactly the non-empty groups.
\<close>

theorem group_containers_refines:
  "groups_wf (group_containers items) \<and>
   hosts_of (group_containers items) pool service = group_hosts items pool service \<and>
   ((pool, service, hs) \<in> set (group_entries (group_containers items)) \<longleftrightarrow>
      hs = group_hosts items pool service \<and> hs \<noteq> [])"
  using group_entries_hosts_of [OF group_containers_wf] group_containers_wf hosts_of_group_containers
  by auto

text \<open>
  C33: GetHostListFromDockerAPI returns the address of every listed container
  that has one, and stores that list in Redis, so that a following
  GetHostListFromRedis returns it when the server is up.
\<close>

theorem docker_api_list:
  assumes "json_law js" and "docker_api st \<noteq> []"
    and "list_containers env (docker_api st) (Some (pool, name)) = Inr body"
    and "containers_of body = Inr items"
  shows "fst (get_host_list_from_docker_api js env pool name st) = Inr (List.map_filter container_host items) \<and>
    (\<forall>h. redis_client st = Some h \<and> redis_up env h \<longrightarrow>
       get_host_list_from_redis js env pool name (snd (get_host_list_from_docker_api js env pool name st)) =
         Inr (List.map_filter container_host items))"
  using assms
  by (auto simp: get_host_list_from_docker_api_def set_host_list_to_redis_def get_host_list_from_redis_def
      json_law_def Let_def)

lemma docker_api_list_witness:
  "fst (get_host_list_from_docker_api demo_json demo_sync_env ''p1'' ''web'' demo_sync_state) =
     Inr [''10.0.0.1:8080'', ''10.0.0.2:8080'', ''10.0.0.3:5432''] \<and>
   get_host_list_from_redis demo_json demo_sync_env ''p1'' ''web''
     (snd (get_host_list_from_docker_api demo_json demo_sync_env ''p1'' ''web'' demo_sync_state)) =
     Inr [''10.0.0.1:8080'', ''10.0.0.2:8080'', ''10.0.0.3:5432'']"
proof -
  have mf: "List.map_filter container_host (map (\<lambda>v. case v of VMap kvs \<Rightarrow> kvs | _ \<Rightarrow> [])
       [demo_container ''web'' ''p1'' ''10.0.0.1'' 8080, demo_container ''web'' ''p1'' ''10.0.0.2'' 8080,
        demo_container ''db'' ''p2'' ''10.0.0.3'' 5432]) = [''10.0.0.1:8080'', ''10.0.0.2:8080'', ''10.0.0.3:5432'']"
    by (simp add: List.map_filter_def container_host_def demo_container_def field_def sprint_int_def digit_char_def)
  have a: "docker_api demo_sync_state \<noteq> []"
    by (simp add: demo_sync_state_def)
  have b: "list_containers demo_sync_env (docker_api demo_sync_state) (Some (''p1'', ''web'')) = Inr demo_docker_body"
    by (simp add: demo_sync_env_def)
  have r: "redis_client demo_sync_state = Some ''redis:6379'' \<and> redis_up demo_sync_env ''redis:6379''"
    by (simp add: demo_sync_state_def demo_sync_env_def)
  show ?thesis
    using docker_api_list [OF demo_json_law a b demo_items] r unfolding mf by blast
qed

text \<open>
  The pool regular expression \<open>pool\=\=(\w+)\<close> reads back the pool
  name out of a constraint label in the form \<open>["pool==name"]\<close> that
  GetHostListFromDockerAPI's own filter writes, for every non-empty name of
  word characters.
\<close>

theorem find_pool_label:
  assumes "w \<noteq> []" and "list_all is_word_char w"
  shows "find_pool (''[\"pool=='' @ w @ ''\"]'') = Some w"
  using find_pool_at [OF assms, of "''\"]''"] find_pool_quote by simp

lemma find_pool_label_witness: "find_pool (''[\"pool=='' @ ''web'' @ ''\"]'') = Some ''web''"
  by (rule find_pool_label) (simp_all add: is_word_char_def)

text \<open>
  A container whose first published port is an object with an IP
  string and a numeric public port has the address \<open>ip:port\<close>, the port
  printed in decimal.
\<close>

theorem container_host_ports:
  assumes "field item ''Ports'' = Some (VList (VMap p # rest_ports))"
    and "field p ''IP'' = Some (VStr ip)" and "field p ''PublicPort'' = Some (VInt (int port))"
    and "port < 1000000"
  shows "container_host item = Some (ip @ '':'' @ decimal port)"
  using assms by (simp add: container_host_def sprint_int_def)

lemma container_host_ports_witness:
  "container_host [(''Ports'', VList [VMap [(''IP'', VStr ''10.0.0.1''), (''PublicPort'', VInt 8080)]])] =
   Some (''10.0.0.1'' @ '':'' @ decimal 8080)"
  by (rule container_host_ports [where port = 8080 and p = "[(''IP'', VStr ''10.0.0.1''), (''PublicPort'', VInt 8080)]"
      and ip = "''10.0.0.1''"]) (simp_all add: field_def)

end
