(* ===== verification/Host_Sync_Machine.thy ===== *)
theory Host_Sync_Machine
  imports Host_Sync
begin

text \<open>
  The host synchroniser over time. A process of \<open>host_sync\<close> starts from the
  package's \<open>init\<close> (no Docker API, no Redis client, no checksum), is pointed at
  a Redis server by \<open>SetRedisHost\<close>, and then runs any sequence of
  \<open>SetDockerAPI\<close> and \<open>SyncAllHostList\<close> calls, each sync against an
  environment whose Redis server is up and whose pool and service names
  contain neither \<open>_\<close> nor \<open>:\<close> (the separators of the checksum and Redis
  keys), with time passing on the Redis servers between any two calls.
  \<open>SetHostListToRedis\<close> stores every list with an expiry of seven days
  (\<open>3600*24*7*time.Second\<close>, \<open>src/unnamed/part_000\<close> line 156,
  \<open>host_ttl\<close> seconds), and \<open>redis_elapse\<close> is what the Redis server does
  with that expiry as time passes (it is Redis's behaviour, not code of the
  repository). \<open>sync_step\<close> is one call or one lapse of time,
  \<open>sync_reach\<close> the states reachable this way. The invariant
  \<open>store_consistent\<close> says that under the key of a recorded checksum the
  store holds either nothing (the list has expired) or a list with that
  checksum that expires within seven days. From it, the next sync is
  characterised exactly: every group ends up in the store except one whose
  list expired while its checksum stayed current. The two operations outside
  this machine break the invariant: switching the Redis server, and
  GetHostListFromDockerAPI, which writes the store without updating the
  checksums.
\<close>

subsection \<open>Checksum decoding\<close>

text \<open>The inverse of \<open>hex.EncodeToString\<close>, used to show that equal
  checksums mean equal stored values.\<close>

definition hex_val :: "char \<Rightarrow> nat" where
  "hex_val c = (if of_char c \<le> (57::nat) then of_char c - 48 else of_char c - 87)"

fun hex_decode :: "string \<Rightarrow> string" where
  "hex_decode (a # b # rest) = char_of (hex_val a * 16 + hex_val b) # hex_decode rest"
| "hex_decode _ = []"

subsection \<open>Runs of the synchroniser\<close>

text \<open>The package state after its \<open>init\<close> (lines 21--29).\<close>

definition init_sync_state :: "(string \<Rightarrow> string \<rightharpoonup> string \<times> nat) \<Rightarrow> sync_state" where
  "init_sync_state db = \<lparr>docker_api = [], redis_client = None, redis_db = db, host_check_sum = Map.empty\<rparr>"

definition sane_name :: "string \<Rightarrow> bool" where
  "sane_name x \<longleftrightarrow> CHR ''_'' \<notin> set x \<and> CHR '':'' \<notin> set x"

definition sane_groups :: "sync_env \<Rightarrow> sync_state \<Rightarrow> bool" where
  "sane_groups env st =
     (case sync_groups env st of
        Inl _ \<Rightarrow> True
      | Inr groups \<Rightarrow> list_all (\<lambda>(p, s, hs). sane_name p \<and> sane_name s) (group_entries groups))"

text \<open>Redis after \<open>secs\<close> seconds: a key whose remaining time is up is
  gone, every other key has that much less left; a key stored with expiry 0
  (which the Redis client sends as no expiry) stays.\<close>

definition redis_elapse :: "nat \<Rightarrow> sync_state \<Rightarrow> sync_state" where
  "redis_elapse secs st =
     st\<lparr>redis_db := (\<lambda>h k. case redis_db st h k of
                             None \<Rightarrow> None
                           | Some (v, ttl) \<Rightarrow>
                               if ttl = 0 then Some (v, 0) else if ttl \<le> secs then None else Some (v, ttl - secs))\<rparr>"

inductive sync_step :: "json_codec \<Rightarrow> sync_state \<Rightarrow> sync_state \<Rightarrow> bool" for js where
  set_api: "sync_step js st (set_docker_api api st)"
| sync: "redis_client st = Some h \<Longrightarrow> redis_up env h \<Longrightarrow> sane_groups env st \<Longrightarrow>
     (\<And>groups. sync_groups env st = Inr groups \<Longrightarrow>
        mset (sched (group_entries groups)) = mset (group_entries groups)) \<Longrightarrow>
     sync_step js st (snd (sync_all_host_list js env sched st))"
| elapse: "sync_step js st (redis_elapse secs st)"

inductive sync_reach :: "json_codec \<Rightarrow> sync_state \<Rightarrow> bool" for js where
  start: "sync_reach js (set_redis_host h (init_sync_state db))"
| step: "sync_reach js st \<Longrightarrow> sync_step js st st' \<Longrightarrow> sync_reach js st'"

text \<open>Under the key of a recorded checksum the current server holds
  nothing, or a list with that checksum and an expiry of at most seven
  days.\<close>

definition store_consistent :: "sync_state \<Rightarrow> bool" where
  "store_consistent st \<longleftrightarrow>
     (\<forall>p s x. sane_name p \<longrightarrow> sane_name s \<longrightarrow> host_check_sum st (check_sum_key p s) = Some x \<longrightarrow>
        (\<exists>h. redis_client st = Some h \<and>
             (\<forall>v t. redis_db st h (redis_key p s) = Some (v, t) \<longrightarrow> x = hex_encode v \<and> 0 < t \<and> t \<le> host_ttl)))"

subsection \<open>Fixtures\<close>

text \<open>A process pointed at one Redis server and the Docker API, and the
  state after its first sync against the fixture environment.\<close>

definition demo_boot :: sync_state where
  "demo_boot = set_docker_api ''http://docker:2375'' (set_redis_host ''redis:6379'' (init_sync_state (\<lambda>h. Map.empty)))"

definition demo_synced :: sync_state where
  "demo_synced = snd (sync_all_host_list demo_json demo_sync_env id demo_boot)"

section \<open>Properties of runs\<close>

lemma redis_elapse_frame [simp]:
  "host_check_sum (redis_elapse d st) = host_check_sum st"
  "redis_client (redis_elapse d st) = redis_client st"
  "docker_api (redis_elapse d st) = docker_api st"
  by (simp_all add: redis_elapse_def)

lemma redis_elapse_key:
  "redis_db (redis_elapse d st) h k =
     (case redis_db st h k of
        None \<Rightarrow> None
      | Some (v, ttl) \<Rightarrow> if ttl = 0 then Some (v, 0) else if ttl \<le> d then None else Some (v, ttl - d))"
  by (simp add: redis_elapse_def)

lemma hex_val_digit_char: "d < 16 \<Longrightarrow> hex_val (digit_char d) = d"
  by (simp add: less_Suc_eq numeral_eq_Suc hex_val_def digit_char_def) (elim disjE; simp)

lemma hex_decode_hex_encode: "hex_decode (hex_encode s) = s"
proof (induction s)
  case Nil
  then show ?case by (simp add: hex_encode_def)
next
  case (Cons c cs)
  have "of_char c < (256::nat)"
    by (rule nat_of_char_less_256)
  then have "of_char c div 16 < (16::nat)" and "of_char c mod 16 < (16::nat)"
    by (simp_all add: less_mult_imp_div_less)
  then have "hex_val (digit_char (of_char c div 16)) * 16 + hex_val (digit_char (of_char c mod 16)) = of_char c"
    by (simp add: hex_val_digit_char)
  with Cons show ?case
    by (simp add: hex_encode_def)
qed

lemma hex_encode_inject: "hex_encode a = hex_encode b \<longleftrightarrow> a = b"
  by (metis hex_decode_hex_encode)

lemma sep_append_inject:
  "x \<notin> set a \<Longrightarrow> x \<notin> set b \<Longrightarrow> a @ x # c = b @ x # d \<longleftrightarrow> a = b \<and> c = d"
proof (induction a arbitrary: b)
  case Nil
  then show ?case by (cases b) auto
next
  case (Cons y a)
  then show ?case by (cases b) auto
qed

lemma check_sum_key_inject:
  "sane_name p1 \<Longrightarrow> sane_name p2 \<Longrightarrow> check_sum_key p1 s1 = check_sum_key p2 s2 \<longleftrightarrow> p1 = p2 \<and> s1 = s2"
  by (simp add: sane_name_def check_sum_key_def sep_append_inject)

lemma redis_key_inject:
  "sane_name p1 \<Longrightarrow> sane_name p2 \<Longrightarrow> redis_key p1 s1 = redis_key p2 s2 \<longleftrightarrow> p1 = p2 \<and> s1 = s2"
  by (simp add: sane_name_def redis_key_def sep_append_inject)

lemma publish_entry_consistent:
  assumes js: "json_law js" and h: "redis_client st = Some h" "redis_up env h"
    and e: "e = (pool, service, hs)" "sane_name pool" "sane_name service"
    and inv: "store_consistent st"
  shows "store_consistent (publish_entry js env st e)"
  unfolding store_consistent_def
proof (intro allI impI)
  fix p s x
  assume sp: "sane_name p" "sane_name s"
    and x: "host_check_sum (publish_entry js env st e) (check_sum_key p s) = Some x"
  have cs: "host_check_sum (publish_entry js env st e) = (host_check_sum st)(check_sum_key pool service \<mapsto> entry_sum js e)"
    using publish_entry_check_sum [OF js] by (simp add: e entry_check_key_def)
  have db: "redis_db (publish_entry js env st e) h k =
    (if k = redis_key pool service \<and> host_check_sum st (check_sum_key pool service) \<noteq> Some (entry_sum js e)
     then Some (marshal js hs, host_ttl) else redis_db st h k)" for k
    using publish_entry_db [OF js, of env st e h k] h by (auto simp: e entry_redis_key_def entry_check_key_def)
  have "\<forall>v t. redis_db (publish_entry js env st e) h (redis_key p s) = Some (v, t) \<longrightarrow>
      x = hex_encode v \<and> 0 < t \<and> t \<le> host_ttl"
  proof (cases "p = pool \<and> s = service")
    case True
    then have xe: "x = entry_sum js e"
      using x cs by simp
    show ?thesis
    proof (cases "host_check_sum st (check_sum_key pool service) = Some (entry_sum js e)")
      case same: True
      then obtain h' where "redis_client st = Some h'" and
        "\<forall>v t. redis_db st h' (redis_key pool service) = Some (v, t) \<longrightarrow>
           entry_sum js e = hex_encode v \<and> 0 < t \<and> t \<le> host_ttl"
        using inv e(2,3) unfolding store_consistent_def by blast
      then show ?thesis
        using True same xe db h by auto
    next
      case False
      then show ?thesis
        using True xe db by (simp add: e entry_sum_def host_ttl_def)
    qed
  next
    case False
    then have ne: "check_sum_key p s \<noteq> check_sum_key pool service" "redis_key p s \<noteq> redis_key pool service"
      using check_sum_key_inject [OF sp(1) e(2)] redis_key_inject [OF sp(1) e(2)] by auto
    then have "host_check_sum st (check_sum_key p s) = Some x"
      using x cs by simp
    then obtain h' where "redis_client st = Some h'" and
      "\<forall>v t. redis_db st h' (redis_key p s) = Some (v, t) \<longrightarrow> x = hex_encode v \<and> 0 < t \<and> t \<le> host_ttl"
      using inv sp unfolding store_consistent_def by blast
    then show ?thesis
      using ne db h by auto
  qed
  then show "\<exists>h'. redis_client (publish_entry js env st e) = Some h' \<and>
      (\<forall>v t. redis_db (publish_entry js env st e) h' (redis_key p s) = Some (v, t) \<longrightarrow>
         x = hex_encode v \<and> 0 < t \<and> t \<le> host_ttl)"
    using h by simp
qed

lemma redis_elapse_consistent:
  assumes inv: "store_consistent st"
  shows "store_consistent (redis_elapse secs st)"
  unfolding store_consistent_def
proof (intro allI impI)
  fix p s x
  assume sp: "sane_name p" "sane_name s"
    and x: "host_check_sum (redis_elapse secs st) (check_sum_key p s) = Some x"
  have "host_check_sum st (check_sum_key p s) = Some x"
    using x by simp
  then obtain h where h: "redis_client st = Some h" and
    old: "\<forall>v t. redis_db st h (redis_key p s) = Some (v, t) \<longrightarrow> x = hex_encode v \<and> 0 < t \<and> t \<le> host_ttl"
    using inv sp unfolding store_consistent_def by blast
  have "\<forall>v t. redis_db (redis_elapse secs st) h (redis_key p s) = Some (v, t) \<longrightarrow>
      x = hex_encode v \<and> 0 < t \<and> t \<le> host_ttl"
    using old by (auto simp: redis_elapse_key split: option.splits if_splits)
  with h show "\<exists>h. redis_client (redis_elapse secs st) = Some h \<and>
      (\<forall>v t. redis_db (redis_elapse secs st) h (redis_key p s) = Some (v, t) \<longrightarrow>
         x = hex_encode v \<and> 0 < t \<and> t \<le> host_ttl)"
    by simp
qed

lemma publish_all_consistent:
  assumes "json_law js" and "redis_client st = Some h" and "redis_up env h"
    and "list_all (\<lambda>(p, s, hs). sane_name p \<and> sane_name s) es" and "store_consistent st"
  shows "store_consistent (publish_all js env es st)"
  using assms(2-5)
proof (induction es arbitrary: st)
  case (Cons e es)
  obtain p s hs where e: "e = (p, s, hs)" by (cases e)
  have "store_consistent (publish_entry js env st e)"
    using Cons.prems e by (intro publish_entry_consistent [OF assms(1)]) auto
  moreover have "redis_client (publish_entry js env st e) = Some h"
    using Cons.prems(1) by simp
  ultimately show ?case
    using Cons by simp
qed simp

lemma sync_step_consistent:
  assumes "sync_step js st st'" and "json_law js" and "store_consistent st"
  shows "store_consistent st'"
  using assms
proof (induction rule: sync_step.induct)
  case (set_api st api)
  then show ?case by (simp add: store_consistent_def set_docker_api_def)
next
  case (sync st h env sched)
  show ?case
  proof (cases "sync_groups env st")
    case (Inl err)
    then show ?thesis using sync by (simp add: sync_all_host_list_def)
  next
    case (Inr groups)
    have "set (sched (group_entries groups)) = set (group_entries groups)"
      using sync.hyps(4) [OF Inr] by (rule mset_eq_setD)
    then have "list_all (\<lambda>(p, s, hs). sane_name p \<and> sane_name s) (sched (group_entries groups))"
      using sync.hyps(3) Inr unfolding sane_groups_def list_all_iff by simp
    then show ?thesis
      using publish_all_consistent [OF sync.prems(1) sync.hyps(1,2)] sync.prems(2) Inr
      by (simp add: sync_all_host_list_def)
  qed
next
  case (elapse st secs)
  show ?case
    using elapse.prems(2) by (rule redis_elapse_consistent)
qed


lemma sync_groups_wf: "sync_groups env st = Inr groups \<Longrightarrow> groups_wf groups"
  by (auto simp: sync_groups_def group_containers_wf split: sum.splits)

lemma sane_keys_distinct:
  assumes sane: "list_all (\<lambda>(p, s, hs). sane_name p \<and> sane_name s) es"
    and pairs: "distinct (map (\<lambda>(p, s, hs). (p, s)) es)"
  shows "distinct (map entry_check_key es) \<and> distinct (map entry_redis_key es)"
proof -
  have d: "distinct es" and inj: "inj_on (\<lambda>(p, s, hs). (p, s)) (set es)"
    using pairs by (simp_all add: distinct_map)
  have "inj_on entry_check_key (set es) \<and> inj_on entry_redis_key (set es)"
    unfolding inj_on_def
  proof (intro conjI ballI impI)
    fix x y assume x: "x \<in> set es" and y: "y \<in> set es"
    obtain p1 s1 h1 p2 s2 h2 where xy: "x = (p1, s1, h1)" "y = (p2, s2, h2)"
      by (cases x, cases y) auto
    have sn: "sane_name p1" "sane_name p2"
      using sane x y xy by (auto simp: list_all_iff)
    { assume "entry_check_key x = entry_check_key y"
      then have "(p1, s1) = (p2, s2)"
        using check_sum_key_inject [OF sn] xy by (simp add: entry_check_key_def)
      then show "x = y"
        using inj x y xy unfolding inj_on_def by fastforce }
    { assume "entry_redis_key x = entry_redis_key y"
      then have "(p1, s1) = (p2, s2)"
        using redis_key_inject [OF sn] xy by (simp add: entry_redis_key_def)
      then show "x = y"
        using inj x y xy unfolding inj_on_def by fastforce }
  qed
  with d show ?thesis
    by (simp add: distinct_map)
qed

lemma publish_all_skipped:
  assumes js: "json_law js" and sn: "list_all (\<lambda>(p, s, hs). sane_name p \<and> sane_name s) es"
    and pairs: "distinct (map (\<lambda>(p, s, hs). (p, s)) es)"
    and mem: "(p, s, hs) \<in> set es"
    and cs: "host_check_sum st (check_sum_key p s) = Some (entry_sum js (p, s, hs))"
  shows "redis_db (publish_all js env es st) h (redis_key p s) = redis_db st h (redis_key p s)"
proof -
  have dc: "distinct (map entry_check_key es)" and dr: "distinct (map entry_redis_key es)"
    using sane_keys_distinct [OF sn pairs] by auto
  have "find (\<lambda>e. entry_redis_key e = redis_key p s) es = Some (p, s, hs)"
    using find_unique_key [OF dr, of "redis_key p s" "(p, s, hs)"] mem by (simp add: entry_redis_key_def)
  then show ?thesis
    using publish_all_db [OF js dc dr, of env st h "redis_key p s"] cs by (simp add: entry_check_key_def)
qed

lemma sync_entries:
  assumes g: "sync_groups env st = Inr groups" and sane: "sane_groups env st"
    and perm: "mset (sched (group_entries groups)) = mset (group_entries groups)"
  shows "list_all (\<lambda>(p, s, hs). sane_name p \<and> sane_name s) (sched (group_entries groups)) \<and>
    distinct (map (\<lambda>(p, s, hs). (p, s)) (sched (group_entries groups))) \<and>
    set (sched (group_entries groups)) = set (group_entries groups)"
proof -
  have set_eq: "set (sched (group_entries groups)) = set (group_entries groups)"
    using perm by (rule mset_eq_setD)
  have "distinct (map (\<lambda>(p, s, hs). (p, s)) (group_entries groups))"
    using distinct_group_entries [OF sync_groups_wf [OF g]] .
  then have "distinct (map (\<lambda>(p, s, hs). (p, s)) (sched (group_entries groups)))"
    using perm by (metis mset_map mset_eq_imp_distinct_iff)
  moreover have "list_all (\<lambda>(p, s, hs). sane_name p \<and> sane_name s) (sched (group_entries groups))"
    using sane g set_eq by (simp add: sane_groups_def list_all_iff)
  ultimately show ?thesis
    using set_eq by simp
qed

lemma sync_groups_frame:
  "sync_groups env (set_redis_host h st) = sync_groups env st"
  "sync_groups env (snd (get_host_list_from_docker_api js env pool name st)) = sync_groups env st"
  by (auto simp: sync_groups_def set_redis_host_def get_host_list_from_docker_api_def Let_def
      split: sum.splits)


text \<open>
  C36: SetRedisHost keeps the recorded checksums: after switching to a
  server that lacks a published group, the next sync skips the unchanged
  group and the new server never receives it.
\<close>

theorem redis_switch_loses_list:
  assumes js: "json_law js" and up: "redis_up env h2"
    and cs: "host_check_sum st (check_sum_key p s) = Some (entry_sum js (p, s, hs))"
    and empty: "redis_db st h2 (redis_key p s) = None"
    and g: "sync_groups env st = Inr groups" and sane: "sane_groups env st"
    and perm: "mset (sched (group_entries groups)) = mset (group_entries groups)"
    and mem: "(p, s, hs) \<in> set (group_entries groups)"
  shows "get_host_list_from_redis js env p s
           (snd (sync_all_host_list js env sched (set_redis_host h2 st))) = Inl ''redis: nil''"
proof -
  let ?st = "set_redis_host h2 st"
  have g': "sync_groups env ?st = Inr groups" and sane': "sane_groups env ?st"
    using g sane by (simp_all add: sync_groups_frame sane_groups_def)
  have e: "list_all (\<lambda>(p, s, hs). sane_name p \<and> sane_name s) (sched (group_entries groups))"
    "distinct (map (\<lambda>(p, s, hs). (p, s)) (sched (group_entries groups)))"
    "(p, s, hs) \<in> set (sched (group_entries groups))"
    using sync_entries [where sched = sched, OF g' sane' perm] mem by auto
  have "redis_db (publish_all js env (sched (group_entries groups)) ?st) h2 (redis_key p s) = None"
    using publish_all_skipped [OF js e, of ?st env h2] cs empty by (simp add: set_redis_host_def)
  then show ?thesis
    using g' up by (simp add: sync_all_host_list_def get_host_list_from_redis_def set_redis_host_def)
qed

text \<open>
  C37: GetHostListFromDockerAPI writes a group to Redis without updating its
  checksum, so a following SyncAllHostList with an unchanged grouping leaves
  the list GetHostListFromDockerAPI wrote in the store.
\<close>

theorem docker_write_not_repaired:
  assumes js: "json_law js" and h: "redis_client st = Some h" and up: "redis_up env h"
    and cs: "host_check_sum st (check_sum_key p s) = Some (entry_sum js (p, s, hs))"
    and api: "docker_api st \<noteq> []"
    and lc: "list_containers env (docker_api st) (Some (p, s)) = Inr body" and co: "containers_of body = Inr items"
    and g: "sync_groups env st = Inr groups" and sane: "sane_groups env st"
    and perm: "mset (sched (group_entries groups)) = mset (group_entries groups)"
    and mem: "(p, s, hs) \<in> set (group_entries groups)"
  shows "get_host_list_from_redis js env p s
           (snd (sync_all_host_list js env sched (snd (get_host_list_from_docker_api js env p s st)))) =
         Inr (List.map_filter container_host items)"
proof -
  let ?st = "snd (get_host_list_from_docker_api js env p s st)"
  let ?l = "List.map_filter container_host items"
  have st': "?st = snd (set_host_list_to_redis js env p s ?l st)"
    using api lc co by (simp add: get_host_list_from_docker_api_def Let_def)
  have cs': "host_check_sum ?st (check_sum_key p s) = Some (entry_sum js (p, s, hs))"
    and h': "redis_client ?st = Some h"
    and db': "redis_db ?st h (redis_key p s) = Some (marshal js ?l, host_ttl)"
    using cs h up by (simp_all add: st' set_host_list_db)
  have g': "sync_groups env ?st = Inr groups" and sane': "sane_groups env ?st"
    using g sane by (simp_all add: sync_groups_frame sane_groups_def)
  have e: "list_all (\<lambda>(p, s, hs). sane_name p \<and> sane_name s) (sched (group_entries groups))"
    "distinct (map (\<lambda>(p, s, hs). (p, s)) (sched (group_entries groups)))"
    "(p, s, hs) \<in> set (sched (group_entries groups))"
    using sync_entries [where sched = sched, OF g' sane' perm] mem by auto
  have "redis_db (publish_all js env (sched (group_entries groups)) ?st) h (redis_key p s) = Some (marshal js ?l, host_ttl)"
    using publish_all_skipped [OF js e cs', of env h] db' by simp
  then show ?thesis
    using g' h' up js by (simp add: sync_all_host_list_def get_host_list_from_redis_def json_law_def)
qed

lemma demo_sync_groups:
  "sync_groups demo_sync_env st =
     Inr [(''p1'', [(''web'', [''10.0.0.1:8080'', ''10.0.0.2:8080''])]), (''p2'', [(''db'', [''10.0.0.3:5432''])])]"
  using demo_items demo_group_containers by (simp add: sync_groups_def demo_sync_env_def)

lemma demo_entries:
  "group_entries [(''p1'', [(''web'', [''10.0.0.1:8080'', ''10.0.0.2:8080''])]), (''p2'', [(''db'', [''10.0.0.3:5432''])])] =
   [(''p1'', ''web'', [''10.0.0.1:8080'', ''10.0.0.2:8080'']), (''p2'', ''db'', [''10.0.0.3:5432''])]"
  by (simp add: group_entries_def)

lemma demo_sane: "sane_groups demo_sync_env st"
  by (simp add: sane_groups_def demo_sync_groups demo_entries sane_name_def)

lemma demo_sync_step: "redis_client st = Some ''redis:6379'' \<Longrightarrow> sync_step demo_json st (snd (sync_all_host_list demo_json demo_sync_env id st))"
proof (rule sync_step.sync [where h = "''redis:6379''"])
  show "redis_up demo_sync_env ''redis:6379''"
    by (simp add: demo_sync_env_def)
qed (simp_all add: demo_sane)

lemma demo_synced_reach: "sync_reach demo_json demo_synced"
proof -
  have b: "sync_reach demo_json demo_boot"
    unfolding demo_boot_def by (rule sync_reach.step [OF sync_reach.start sync_step.set_api])
  show ?thesis
    unfolding demo_synced_def
    by (rule sync_reach.step [OF b demo_sync_step]) (simp add: demo_boot_def set_docker_api_def set_redis_host_def)
qed


lemma demo_synced_state:
  "demo_synced = publish_all demo_json demo_sync_env
     [(''p1'', ''web'', [''10.0.0.1:8080'', ''10.0.0.2:8080'']), (''p2'', ''db'', [''10.0.0.3:5432''])] demo_boot"
  by (simp add: demo_synced_def sync_all_host_list_def demo_sync_groups demo_entries)

lemma demo_synced_fields:
  "host_check_sum demo_synced (check_sum_key ''p1'' ''web'') =
     Some (entry_sum demo_json (''p1'', ''web'', [''10.0.0.1:8080'', ''10.0.0.2:8080'']))"
  "redis_db demo_synced ''redis2:6379'' = Map.empty"
  "redis_client demo_synced = Some ''redis:6379''"
  "docker_api demo_synced = ''http://docker:2375''"
proof -
  have d: "distinct (map entry_check_key
      [(''p1'', ''web'', [''10.0.0.1:8080'', ''10.0.0.2:8080'']), (''p2'', ''db'', [''10.0.0.3:5432''])])"
    "distinct (map entry_redis_key
      [(''p1'', ''web'', [''10.0.0.1:8080'', ''10.0.0.2:8080'']), (''p2'', ''db'', [''10.0.0.3:5432''])])"
    by (simp_all add: entry_check_key_def check_sum_key_def entry_redis_key_def redis_key_def)
  show "host_check_sum demo_synced (check_sum_key ''p1'' ''web'') =
     Some (entry_sum demo_json (''p1'', ''web'', [''10.0.0.1:8080'', ''10.0.0.2:8080'']))"
    unfolding demo_synced_state publish_all_check_sum [OF demo_json_law d(1)]
    by (simp add: entry_check_key_def check_sum_key_def)
  show "redis_db demo_synced ''redis2:6379'' = Map.empty"
    unfolding demo_synced_state
    by (rule ext, subst publish_all_db [OF demo_json_law d])
      (simp add: demo_boot_def set_docker_api_def set_redis_host_def init_sync_state_def split: option.splits)
  show "redis_client demo_synced = Some ''redis:6379''" "docker_api demo_synced = ''http://docker:2375''"
    by (simp_all add: demo_synced_state demo_boot_def set_docker_api_def set_redis_host_def init_sync_state_def)
qed

lemma demo_synced_db:
  "redis_db demo_synced ''redis:6379'' (redis_key ''p1'' ''web'') =
     Some (marshal demo_json [''10.0.0.1:8080'', ''10.0.0.2:8080''], host_ttl)"
proof -
  have d: "distinct (map entry_check_key
      [(''p1'', ''web'', [''10.0.0.1:8080'', ''10.0.0.2:8080'']), (''p2'', ''db'', [''10.0.0.3:5432''])])"
    "distinct (map entry_redis_key
      [(''p1'', ''web'', [''10.0.0.1:8080'', ''10.0.0.2:8080'']), (''p2'', ''db'', [''10.0.0.3:5432''])])"
    by (simp_all add: entry_check_key_def check_sum_key_def entry_redis_key_def redis_key_def)
  show ?thesis
    unfolding demo_synced_state publish_all_db [OF demo_json_law d]
    by (simp add: entry_check_key_def entry_redis_key_def redis_key_def demo_boot_def set_docker_api_def
        set_redis_host_def init_sync_state_def demo_sync_env_def)
qed


lemma redis_switch_loses_list_witness:
  "get_host_list_from_redis demo_json (demo_sync_env\<lparr>redis_up := (\<lambda>h. True)\<rparr>) ''p1'' ''web''
     (snd (sync_all_host_list demo_json (demo_sync_env\<lparr>redis_up := (\<lambda>h. True)\<rparr>) id
       (set_redis_host ''redis2:6379'' demo_synced))) = Inl ''redis: nil''"
proof -
  have g: "sync_groups (demo_sync_env\<lparr>redis_up := (\<lambda>h. True)\<rparr>) demo_synced =
     Inr [(''p1'', [(''web'', [''10.0.0.1:8080'', ''10.0.0.2:8080''])]), (''p2'', [(''db'', [''10.0.0.3:5432''])])]"
    using demo_sync_groups [of demo_synced] by (simp add: sync_groups_def demo_sync_env_def)
  have s: "sane_groups (demo_sync_env\<lparr>redis_up := (\<lambda>h. True)\<rparr>) demo_synced"
    by (simp add: sane_groups_def g demo_entries sane_name_def)
  show ?thesis
    using redis_switch_loses_list [where sched = id and ?h2.0 = "''redis2:6379''", OF demo_json_law _ demo_synced_fields(1) _ g s]
      demo_synced_fields(2)
    by (simp add: demo_entries)
qed

lemma docker_write_not_repaired_witness:
  "get_host_list_from_redis demo_json demo_sync_env ''p1'' ''web''
     (snd (sync_all_host_list demo_json demo_sync_env id
       (snd (get_host_list_from_docker_api demo_json demo_sync_env ''p1'' ''web'' demo_synced)))) =
   Inr [''10.0.0.1:8080'', ''10.0.0.2:8080'', ''10.0.0.3:5432'']"
proof -
  have mf: "List.map_filter container_host (map (\<lambda>v. case v of VMap kvs \<Rightarrow> kvs | _ \<Rightarrow> [])
       [demo_container ''web'' ''p1'' ''10.0.0.1'' 8080, demo_container ''web'' ''p1'' ''10.0.0.2'' 8080,
        demo_container ''db'' ''p2'' ''10.0.0.3'' 5432]) = [''10.0.0.1:8080'', ''10.0.0.2:8080'', ''10.0.0.3:5432'']"
    by (simp add: List.map_filter_def container_host_def demo_container_def field_def sprint_int_def digit_char_def)
  have up: "redis_up demo_sync_env ''redis:6379''" and lc: "list_containers demo_sync_env ''http://docker:2375''
      (Some (''p1'', ''web'')) = Inr demo_docker_body"
    by (simp_all add: demo_sync_env_def)
  show ?thesis
    using docker_write_not_repaired [where sched = id, OF demo_json_law demo_synced_fields(3) up demo_synced_fields(1) _ _ demo_items
        demo_sync_groups demo_sane] lc mf demo_synced_fields(4)
    by (simp add: demo_entries)
qed

end
