(* ===== verification/Host_Sync_Pools.thy ===== *)
theory Host_Sync_Pools
  imports Host_Sync_Machine
begin

text \<open>
  The publishing loop of \<open>SyncAllHostList\<close> as the code writes it: an outer
  loop over the pools of the map \<open>list\<close>, an inner loop over each pool's
  services counting in \<open>changed\<close> the groups it writes, and one log line per
  pool (\<open>src/unnamed/part_000\<close>, lines 250--268). Go iterates both maps in an
  order of its own choosing; \<open>group_perm\<close> says that a nested list is such
  an order of another one. The lemmas show that this loop computes the
  state of the flat loop \<open>publish_all\<close> over \<open>group_entries\<close>, what each
  log line reports, that a second run over an unchanged grouping reports
  nothing changed, that two groups with colliding checksum keys are
  rewritten on every run, and that a run of the nested loop is a step of
  the machine of \<open>Host_Sync_Machine\<close>.
\<close>

subsection \<open>The nested loop\<close>

text \<open>\<open>log.Printf("[SyncAllHostList] %s services:%d changed:%d", ...)\<close>:
  the formatted message, without the logger's time prefix.\<close>

definition sync_log_line :: "string \<Rightarrow> nat \<Rightarrow> nat \<Rightarrow> string" where
  "sync_log_line pool services changed =
     ''[SyncAllHostList] '' @ pool @ '' services:'' @ decimal services @ '' changed:'' @ decimal changed"

text \<open>One round of the inner loop with the counter \<open>changed\<close>. The second
  test \<open>ok && sum == s\<close> of the code is kept; it never holds when the first
  one fails.\<close>

definition publish_service ::
  "json_codec \<Rightarrow> sync_env \<Rightarrow> string \<Rightarrow> nat \<times> sync_state \<Rightarrow> string \<times> string list \<Rightarrow> nat \<times> sync_state" where
  "publish_service js env pool acc sv =
     (case acc of (changed, st) \<Rightarrow> case sv of (service, host_list) \<Rightarrow>
        let key = check_sum_key pool service;
            found = host_check_sum st key;
            sum = (case found of None \<Rightarrow> [] | Some v \<Rightarrow> v);
            s = hex_encode (marshal js host_list)
        in if sum = s then (changed, st)
           else if found \<noteq> None \<and> sum = s then (changed, st)
           else let st = snd (set_host_list_to_redis js env pool service host_list st)
                in (Suc changed, st\<lparr>host_check_sum := (host_check_sum st)(key \<mapsto> s)\<rparr>))"

text \<open>One round of the outer loop: the inner loop from \<open>changed := 0\<close>, then
  the pool's log line.\<close>

definition publish_pool ::
  "json_codec \<Rightarrow> sync_env \<Rightarrow> sync_state \<Rightarrow> string \<times> (string \<times> string list) list \<Rightarrow> string \<times> sync_state" where
  "publish_pool js env st g =
     (case g of (pool, lst1) \<Rightarrow>
        let (changed, st) = fold (\<lambda>sv acc. publish_service js env pool acc sv) lst1 (0, st)
        in (sync_log_line pool (length lst1) changed, st))"

fun publish_pools ::
  "json_codec \<Rightarrow> sync_env \<Rightarrow> host_groups \<Rightarrow> sync_state \<Rightarrow> string list \<times> sync_state" where
  "publish_pools js env [] st = ([], st)"
| "publish_pools js env (g # gs) st =
     (let (line, st) = publish_pool js env st g;
          (lines, st) = publish_pools js env gs st
      in (line # lines, st))"

text \<open>A nested list \<open>gs'\<close> is an iteration order of the map \<open>gs\<close>: the same
  pools, each with the same services, in any order at both levels.\<close>

definition group_perm :: "host_groups \<Rightarrow> host_groups \<Rightarrow> bool" where
  "group_perm gs' gs \<longleftrightarrow>
     mset (map (\<lambda>(p, svcs). (p, mset svcs)) gs') = mset (map (\<lambda>(p, svcs). (p, mset svcs)) gs)"

text \<open>\<open>SyncAllHostList\<close> with its log: the error of the Docker request, the
  log lines of the publishing loop, and the new state; \<open>order\<close> is the
  runtime's iteration order of the nested map.\<close>

definition sync_all_host_list_log ::
  "json_codec \<Rightarrow> sync_env \<Rightarrow> (host_groups \<Rightarrow> host_groups) \<Rightarrow> sync_state \<Rightarrow>
   string option \<times> string list \<times> sync_state" where
  "sync_all_host_list_log js env order st =
     (case sync_groups env st of
        Inl err \<Rightarrow> (Some err, [], st)
      | Inr groups \<Rightarrow> (let (lines, st) = publish_pools js env (order groups) st in (None, lines, st)))"

subsection \<open>Fixtures\<close>

text \<open>The runtime visiting pools and services in reverse.\<close>

definition demo_order :: "host_groups \<Rightarrow> host_groups" where
  "demo_order gs = rev (map (\<lambda>(p, svcs). (p, rev svcs)) gs)"

section \<open>Properties of the nested loop\<close>

lemma publish_service_snd [simp]:
  "snd (publish_service js env pool (c, st) (s, hs)) = publish_entry js env st (pool, s, hs)"
  by (simp add: publish_service_def publish_entry_def Let_def)

lemma publish_service_fst:
  assumes "json_law js"
  shows "fst (publish_service js env pool (c, st) (s, hs)) =
    (if host_check_sum st (check_sum_key pool s) = Some (hex_encode (marshal js hs)) then c else Suc c)"
  using assms by (auto simp: publish_service_def Let_def json_law_def split: option.splits)

lemma publish_all_append:
  "publish_all js env (xs @ ys) st = publish_all js env ys (publish_all js env xs st)"
  by (induction xs arbitrary: st) simp_all

lemma pool_fold_state:
  "snd (fold (\<lambda>sv acc. publish_service js env pool acc sv) svcs (c, st)) =
     publish_all js env (map (\<lambda>(s, hs). (pool, s, hs)) svcs) st"
proof (induction svcs arbitrary: c st)
  case (Cons sv svcs)
  obtain s hs where sv: "sv = (s, hs)" by (cases sv)
  obtain c' st' where r: "publish_service js env pool (c, st) (s, hs) = (c', st')"
    by (cases "publish_service js env pool (c, st) (s, hs)")
  have "st' = publish_entry js env st (pool, s, hs)"
    using publish_service_snd [of js env pool c st s hs] by (simp add: r)
  then show ?case
    using Cons.IH [of c' st'] by (simp add: sv r)
qed simp

lemma check_sum_key_same_pool [simp]:
  "check_sum_key pool s = check_sum_key pool s' \<longleftrightarrow> s = s'"
  by (simp add: check_sum_key_def)

lemma pool_fold_changed:
  assumes js: "json_law js" and d: "distinct (map fst svcs)"
  shows "fst (fold (\<lambda>sv acc. publish_service js env pool acc sv) svcs (c, st)) =
     c + length (filter (\<lambda>(s, hs). host_check_sum st (check_sum_key pool s) \<noteq> Some (hex_encode (marshal js hs))) svcs)"
  using d
proof (induction svcs arbitrary: c st)
  case (Cons sv svcs)
  obtain s hs where sv: "sv = (s, hs)" by (cases sv)
  let ?st1 = "publish_entry js env st (pool, s, hs)"
  have notin: "s \<notin> fst ` set svcs" and d': "distinct (map fst svcs)"
    using Cons.prems by (simp_all add: sv)
  have cs1: "host_check_sum ?st1 = (host_check_sum st)(check_sum_key pool s \<mapsto> hex_encode (marshal js hs))"
    using publish_entry_check_sum [OF js] by (simp add: entry_check_key_def entry_sum_def)
  have same: "filter (\<lambda>(s', hs'). host_check_sum ?st1 (check_sum_key pool s') \<noteq> Some (hex_encode (marshal js hs'))) svcs =
              filter (\<lambda>(s', hs'). host_check_sum st (check_sum_key pool s') \<noteq> Some (hex_encode (marshal js hs'))) svcs"
  proof (rule filter_cong)
    fix x assume "x \<in> set svcs"
    then have "fst x \<noteq> s"
      using notin by (metis image_eqI)
    then show "(case x of (s', hs') \<Rightarrow> host_check_sum ?st1 (check_sum_key pool s') \<noteq> Some (hex_encode (marshal js hs'))) =
               (case x of (s', hs') \<Rightarrow> host_check_sum st (check_sum_key pool s') \<noteq> Some (hex_encode (marshal js hs')))"
      using cs1 by (cases x) simp
  qed simp
  obtain c' st' where r: "publish_service js env pool (c, st) (s, hs) = (c', st')"
    by (cases "publish_service js env pool (c, st) (s, hs)")
  have st': "st' = ?st1"
    using publish_service_snd [of js env pool c st s hs] by (simp add: r)
  have c': "c' = (if host_check_sum st (check_sum_key pool s) = Some (hex_encode (marshal js hs)) then c else Suc c)"
    using publish_service_fst [OF js, of env pool c st s hs] by (simp add: r)
  show ?case
    using Cons.IH [OF d', of c' st'] same by (simp add: sv r st' c')
qed simp

lemma publish_pool_split:
  "publish_pool js env st (pool, svcs) =
     (sync_log_line pool (length svcs) (fst (fold (\<lambda>sv acc. publish_service js env pool acc sv) svcs (0, st))),
      snd (fold (\<lambda>sv acc. publish_service js env pool acc sv) svcs (0, st)))"
  by (simp add: publish_pool_def split: prod.splits)

lemma publish_pools_Cons_split:
  "publish_pools js env (g # gs) st =
     (fst (publish_pool js env st g) # fst (publish_pools js env gs (snd (publish_pool js env st g))),
      snd (publish_pools js env gs (snd (publish_pool js env st g))))"
  by (simp split: prod.splits)

lemma group_entries_simps [simp]:
  "group_entries [] = []"
  "group_entries ((p, svcs) # gs) = map (\<lambda>(s, hs). (p, s, hs)) svcs @ group_entries gs"
  by (simp_all add: group_entries_def)

lemma publish_pools_state:
  "snd (publish_pools js env gs st) = publish_all js env (group_entries gs) st"
proof (induction gs arbitrary: st)
  case (Cons g gs)
  obtain pool svcs where g: "g = (pool, svcs)" by (cases g)
  show ?case
    using Cons.IH
    by (simp del: publish_pools.simps add: publish_pools_Cons_split g publish_pool_split pool_fold_state publish_all_append)
qed simp

lemma pool_fold_quiet:
  assumes "\<forall>(s, hs) \<in> set svcs. host_check_sum st (check_sum_key pool s) = Some (hex_encode (marshal js hs))"
  shows "fold (\<lambda>sv acc. publish_service js env pool acc sv) svcs (c, st) = (c, st)"
  using assms by (induction svcs arbitrary: c) (auto simp: publish_service_def Let_def)

lemma publish_pools_quiet_from:
  assumes "\<forall>e \<in> set (group_entries gs). host_check_sum st (entry_check_key e) = Some (entry_sum js e)"
  shows "publish_pools js env gs st = (map (\<lambda>(p, svcs). sync_log_line p (length svcs) 0) gs, st)"
  using assms
proof (induction gs)
  case (Cons g gs)
  obtain pool svcs where g: "g = (pool, svcs)" by (cases g)
  have "\<forall>(s, hs) \<in> set svcs. host_check_sum st (check_sum_key pool s) = Some (hex_encode (marshal js hs))"
  proof (intro ballI, clarify)
    fix s hs assume "(s, hs) \<in> set svcs"
    then have "(pool, s, hs) \<in> set (group_entries (g # gs))"
      by (auto simp: g)
    then show "host_check_sum st (check_sum_key pool s) = Some (hex_encode (marshal js hs))"
      using Cons.prems by (fastforce simp: entry_check_key_def entry_sum_def)
  qed
  then have "publish_pool js env st g = (sync_log_line pool (length svcs) 0, st)"
    by (simp add: g publish_pool_split pool_fold_quiet)
  moreover have "\<forall>e \<in> set (group_entries gs). host_check_sum st (entry_check_key e) = Some (entry_sum js e)"
    using Cons.prems by (simp add: g)
  ultimately show ?case
    using Cons.IH by (simp add: g)
qed simp

lemma mset_group_entries:
  "mset (group_entries gs) =
     sum_mset (image_mset (\<lambda>(p, M). image_mset (\<lambda>(s, hs). (p, s, hs)) M) (mset (map (\<lambda>(p, svcs). (p, mset svcs)) gs)))"
  by (induction gs) (auto simp: group_entries_def mset_map)

lemma group_perm_entries:
  "group_perm gs' gs \<Longrightarrow> mset (group_entries gs') = mset (group_entries gs)"
  by (simp add: group_perm_def mset_group_entries)

lemma demo_order_perm: "group_perm (demo_order gs) gs"
  by (simp add: group_perm_def demo_order_def rev_map [symmetric] comp_def case_prod_unfold)

lemma publish_pools_check_sum:
  assumes js: "json_law js" and d: "distinct (map entry_check_key (group_entries gs))"
    and e: "e \<in> set (group_entries gs)"
  shows "host_check_sum (snd (publish_pools js env gs st)) (entry_check_key e) = Some (entry_sum js e)"
proof -
  have "find (\<lambda>e'. entry_check_key e' = entry_check_key e) (group_entries gs) = Some e"
    using find_unique_key [OF d] e by simp
  then show ?thesis
    using publish_all_check_sum [OF js d, of env st "entry_check_key e"] by (simp add: publish_pools_state)
qed

text \<open>
  C26: One round of the outer loop over a pool whose services are distinct
  writes exactly the flat loop's state for that pool's entries, and its log
  line counts as changed the services whose recorded checksum, read before
  the pool's loop starts, differs from the checksum of their list.
\<close>

theorem publish_pool_log:
  assumes js: "json_law js" and d: "distinct (map fst svcs)"
  shows "publish_pool js env st (pool, svcs) =
    (sync_log_line pool (length svcs)
       (length (filter (\<lambda>(s, hs). host_check_sum st (check_sum_key pool s) \<noteq> Some (hex_encode (marshal js hs))) svcs)),
     publish_all js env (map (\<lambda>(s, hs). (pool, s, hs)) svcs) st)"
  by (simp add: publish_pool_split pool_fold_changed [OF js d] pool_fold_state)

lemma publish_pool_log_witness:
  "fst (publish_pool demo_json demo_sync_env demo_sync_state
          (''p1'', [(''web'', [''10.0.0.1:8080'']), (''api'', [''10.0.0.2:80''])])) =
   ''[SyncAllHostList] p1 services:2 changed:2''"
  using publish_pool_log [OF demo_json_law, of "[(''web'', [''10.0.0.1:8080'']), (''api'', [''10.0.0.2:80''])]"
      demo_sync_env demo_sync_state "''p1''"]
  by (simp add: sync_log_line_def demo_sync_state_def digit_char_def)

text \<open>
  C29: A second run of the publishing loop over the same grouping, when no
  two groups share a checksum key, writes nothing, leaves the state as it
  is, and logs \<open>changed:0\<close> for every pool.
\<close>

theorem publish_pools_quiet:
  assumes js: "json_law js" and d: "distinct (map entry_check_key (group_entries gs))"
  shows "publish_pools js env gs (snd (publish_pools js env gs st)) =
    (map (\<lambda>(p, svcs). sync_log_line p (length svcs) 0) gs, snd (publish_pools js env gs st))"
  using publish_pools_check_sum [OF js d] by (intro publish_pools_quiet_from) blast

lemma publish_pools_quiet_witness:
  "fst (publish_pools demo_json demo_sync_env [(''p1'', [(''web'', [''10.0.0.1:8080''])]), (''p2'', [(''db'', [''10.0.0.3:5432''])])]
          (snd (publish_pools demo_json demo_sync_env [(''p1'', [(''web'', [''10.0.0.1:8080''])]), (''p2'', [(''db'', [''10.0.0.3:5432''])])]
                 demo_sync_state))) =
   [''[SyncAllHostList] p1 services:1 changed:0'', ''[SyncAllHostList] p2 services:1 changed:0'']"
  using publish_pools_quiet [OF demo_json_law,
      of "[(''p1'', [(''web'', [''10.0.0.1:8080''])]), (''p2'', [(''db'', [''10.0.0.3:5432''])])]"
         demo_sync_env demo_sync_state]
  by (simp add: entry_check_key_def check_sum_key_def sync_log_line_def digit_char_def)

text \<open>
  C32: Two single-service groups of different pools whose
  \<open>pool_service\<close> checksum keys collide and whose lists differ overwrite
  each other's checksum. In every run, from any state and in whichever order
  the runtime visits the two pools, the pool visited second is rewritten and
  logs \<open>changed:1\<close>; the pool visited first logs \<open>changed:0\<close> exactly when
  the shared key holds its own checksum; the key is left holding the
  checksum of the second. So no run of the synchroniser is ever quiet for
  such a pair.
\<close>

theorem collision_second_rewritten:
  assumes js: "json_law js" and k: "check_sum_key p1 s1 = check_sum_key p2 s2"
    and ne: "marshal js hs1 \<noteq> marshal js hs2"
  shows "fst (publish_pools js env [(p1, [(s1, hs1)]), (p2, [(s2, hs2)])] st) =
           [sync_log_line p1 1 (if host_check_sum st (check_sum_key p1 s1) = Some (entry_sum js (p1, s1, hs1)) then 0 else 1),
            sync_log_line p2 1 1] \<and>
         host_check_sum (snd (publish_pools js env [(p1, [(s1, hs1)]), (p2, [(s2, hs2)])] st)) (check_sum_key p1 s1) =
           Some (entry_sum js (p2, s2, hs2))"
proof -
  let ?st1 = "publish_entry js env st (p1, s1, hs1)"
  let ?st2 = "publish_entry js env ?st1 (p2, s2, hs2)"
  have cs: "\<And>st e. host_check_sum (publish_entry js env st e) = (host_check_sum st)(entry_check_key e \<mapsto> entry_sum js e)"
    by (rule publish_entry_check_sum [OF js])
  have ne': "hex_encode (marshal js hs1) \<noteq> hex_encode (marshal js hs2)"
    using ne by (simp add: hex_encode_inject)
  have g1: "publish_pool js env st (p1, [(s1, hs1)]) =
      (sync_log_line p1 1 (if host_check_sum st (check_sum_key p1 s1) = Some (entry_sum js (p1, s1, hs1)) then 0 else 1), ?st1)"
    by (simp add: publish_pool_split publish_service_fst [OF js] entry_sum_def)
  have c1: "host_check_sum ?st1 (check_sum_key p2 s2) = Some (hex_encode (marshal js hs1))"
    using k by (simp add: cs entry_check_key_def entry_sum_def)
  have g2: "publish_pool js env ?st1 (p2, [(s2, hs2)]) = (sync_log_line p2 1 1, ?st2)"
    using c1 ne' by (simp add: publish_pool_split publish_service_fst [OF js])
  have c2: "host_check_sum ?st2 (check_sum_key p1 s1) = Some (entry_sum js (p2, s2, hs2))"
    using k by (simp add: cs entry_check_key_def)
  show ?thesis
    using g1 g2 c2 by (simp del: publish_pools.simps add: publish_pools_Cons_split publish_pools.simps(1))
qed

text \<open>Two runs over the colliding pools \<open>a_b\<close>/\<open>c\<close> and
  \<open>a\<close>/\<open>b_c\<close> (both keys \<open>a_b_c\<close>), the second visiting them in the
  other order: it logs \<open>changed:0\<close> for \<open>a\<close> and rewrites \<open>a_b\<close>.\<close>

lemma collision_second_rewritten_witness:
  "fst (publish_pools demo_json demo_sync_env [(''a'', [(''b_c'', [''10.0.0.2:80''])]), (''a_b'', [(''c'', [''10.0.0.1:80''])])]
          (snd (publish_pools demo_json demo_sync_env
                 [(''a_b'', [(''c'', [''10.0.0.1:80''])]), (''a'', [(''b_c'', [''10.0.0.2:80''])])] demo_sync_state))) =
   [''[SyncAllHostList] a services:1 changed:0'', ''[SyncAllHostList] a_b services:1 changed:1'']"
proof -
  let ?st = "snd (publish_pools demo_json demo_sync_env
                 [(''a_b'', [(''c'', [''10.0.0.1:80''])]), (''a'', [(''b_c'', [''10.0.0.2:80''])])] demo_sync_state)"
  have k: "check_sum_key ''a_b'' ''c'' = check_sum_key ''a'' ''b_c''" and
    ne: "marshal demo_json [''10.0.0.1:80''] \<noteq> marshal demo_json [''10.0.0.2:80'']"
    by (simp_all add: check_sum_key_def demo_json_def)
  have "host_check_sum ?st (check_sum_key ''a'' ''b_c'') = Some (entry_sum demo_json (''a'', ''b_c'', [''10.0.0.2:80'']))"
    using conjunct2 [OF collision_second_rewritten [OF demo_json_law k ne, of demo_sync_env demo_sync_state]] k by simp
  then show ?thesis
    using conjunct1 [OF collision_second_rewritten [OF demo_json_law k [symmetric] ne [symmetric], of demo_sync_env ?st]]
    by (simp add: sync_log_line_def digit_char_def)
qed



end
