(* ===== verification/Host_Sync_Expiry.thy ===== *)
theory Host_Sync_Expiry
  imports Host_Sync_Pools
begin

text \<open>
  The expiry of published lists under repeated synchronisation.
  \<open>SetHostListToRedis\<close> stores every list with an expiry of seven days
  (\<open>src/unnamed/part_000\<close> line 156); \<open>redis_elapse\<close> of
  \<open>Host_Sync_Machine\<close> is the passing of time on the Redis servers, and
  \<open>sync_schedule\<close> is a process that calls \<open>SyncAllHostList\<close> after each
  pause of a list of pauses. The theorem of this theory shows that the
  checksum gate of the publishing loop never refreshes the expiry of an
  unchanged group: seven days after it was written, the group is gone from
  Redis, however often the synchroniser ran in between.
\<close>

text \<open>A synchroniser that sleeps for each pause of \<open>ds\<close> in turn and then
  calls \<open>SyncAllHostList\<close>, ignoring its error as a caller's loop would.\<close>

fun sync_schedule ::
  "json_codec \<Rightarrow> sync_env \<Rightarrow> (host_groups \<Rightarrow> host_groups) \<Rightarrow> nat list \<Rightarrow> sync_state \<Rightarrow> sync_state" where
  "sync_schedule js env order [] st = st"
| "sync_schedule js env order (d # ds) st =
     sync_schedule js env order ds (snd (snd (sync_all_host_list_log js env order (redis_elapse d st))))"

section \<open>Properties of expiry\<close>

lemma redis_elapse_0 [simp]: "redis_elapse 0 st = st"
  by (auto simp: redis_elapse_def fun_eq_iff split: option.splits)

lemma redis_elapse_add: "redis_elapse a (redis_elapse b st) = redis_elapse (b + a) st"
  by (rule sync_state.equality) (auto simp: redis_elapse_def fun_eq_iff split: option.splits)

lemma sync_groups_docker_api:
  "docker_api st' = docker_api st \<Longrightarrow> sync_groups env st' = sync_groups env st"
  by (simp add: sync_groups_def)

lemma group_perm_set: "group_perm gs' gs \<Longrightarrow> set (group_entries gs') = set (group_entries gs)"
  by (metis group_perm_entries mset_eq_setD)

lemma sync_log_quiet:
  assumes g: "sync_groups env st = Inr gs" and order: "group_perm (order gs) gs"
    and cs: "\<forall>e \<in> set (group_entries gs). host_check_sum st (entry_check_key e) = Some (entry_sum js e)"
  shows "snd (snd (sync_all_host_list_log js env order st)) = st"
proof -
  have "publish_pools js env (order gs) st = (map (\<lambda>(p, svcs). sync_log_line p (length svcs) 0) (order gs), st)"
    using cs group_perm_set [OF order] by (intro publish_pools_quiet_from) simp
  then show ?thesis
    using g by (simp add: sync_all_host_list_log_def)
qed

lemma sync_schedule_quiet:
  assumes g: "sync_groups env st = Inr gs" and order: "group_perm (order gs) gs"
    and cs: "\<forall>e \<in> set (group_entries gs). host_check_sum st (entry_check_key e) = Some (entry_sum js e)"
  shows "sync_schedule js env order ds st = redis_elapse (sum_list ds) st"
  using g cs
proof (induction ds arbitrary: st)
  case (Cons d ds)
  let ?st = "redis_elapse d st"
  have g': "sync_groups env ?st = Inr gs"
    using Cons.prems(1) sync_groups_docker_api [of ?st st env] by simp
  have q: "snd (snd (sync_all_host_list_log js env order ?st)) = ?st"
    using sync_log_quiet [where order = order, OF g' order] Cons.prems(2) by simp
  have "sync_schedule js env order ds ?st = redis_elapse (sum_list ds) ?st"
    using Cons.IH [OF g'] Cons.prems(2) by simp
  then show ?case
    by (simp add: q redis_elapse_add add.commute)
qed simp

lemma sync_log_state:
  "sync_groups env st = Inr gs \<Longrightarrow>
   snd (snd (sync_all_host_list_log js env order st)) = publish_all js env (group_entries (order gs)) st"
  using publish_pools_state [of js env "order gs" st]
  by (simp add: sync_all_host_list_log_def split: prod.splits)

lemma sync_log_publishes:
  assumes js: "json_law js" and g: "sync_groups env st = Inr gs" and order: "group_perm (order gs) gs"
    and dc: "distinct (map entry_check_key (group_entries gs))"
    and dr: "distinct (map entry_redis_key (group_entries gs))"
    and h: "redis_client st = Some h" and up: "redis_up env h"
    and mem: "(p, s, hs) \<in> set (group_entries gs)"
    and fresh: "host_check_sum st (check_sum_key p s) \<noteq> Some (entry_sum js (p, s, hs))"
  shows "\<forall>e \<in> set (group_entries gs).
           host_check_sum (snd (snd (sync_all_host_list_log js env order st))) (entry_check_key e) = Some (entry_sum js e)"
    and "redis_db (snd (snd (sync_all_host_list_log js env order st))) h (redis_key p s) = Some (marshal js hs, host_ttl)"
proof -
  let ?es = "group_entries (order gs)"
  have m: "mset ?es = mset (group_entries gs)"
    using order by (rule group_perm_entries)
  have set_eq: "set ?es = set (group_entries gs)"
    using m by (rule mset_eq_setD)
  have dc': "distinct (map entry_check_key ?es)" and dr': "distinct (map entry_redis_key ?es)"
    using dc dr m by (metis mset_map mset_eq_imp_distinct_iff)+
  show "\<forall>e \<in> set (group_entries gs).
      host_check_sum (snd (snd (sync_all_host_list_log js env order st))) (entry_check_key e) = Some (entry_sum js e)"
  proof
    fix e assume "e \<in> set (group_entries gs)"
    then have "find (\<lambda>e'. entry_check_key e' = entry_check_key e) ?es = Some e"
      using find_unique_key [OF dc'] set_eq by simp
    then show "host_check_sum (snd (snd (sync_all_host_list_log js env order st))) (entry_check_key e) = Some (entry_sum js e)"
      using publish_all_check_sum [OF js dc', of env st "entry_check_key e"] by (simp add: sync_log_state [OF g])
  qed
  have "find (\<lambda>e. entry_redis_key e = redis_key p s) ?es = Some (p, s, hs)"
    using find_unique_key [OF dr', of "redis_key p s" "(p, s, hs)"] mem set_eq by (simp add: entry_redis_key_def)
  then show "redis_db (snd (snd (sync_all_host_list_log js env order st))) h (redis_key p s) = Some (marshal js hs, host_ttl)"
    using publish_all_db [OF js dc' dr', of env st h "redis_key p s"] h up fresh
    by (simp add: sync_log_state [OF g] entry_check_key_def)
qed

text \<open>
  C22: A group that a sync publishes and that then stays unchanged is read
  back from Redis until seven days have passed and is gone from then on,
  however many times SyncAllHostList runs in between: the checksum gate
  skips the unchanged group and so never renews the expiry its write set.
\<close>

theorem unchanged_group_expires:
  assumes js: "json_law js" and g: "sync_groups env st = Inr gs" and order: "\<forall>gs. group_perm (order gs) gs"
    and dc: "distinct (map entry_check_key (group_entries gs))"
    and dr: "distinct (map entry_redis_key (group_entries gs))"
    and h: "redis_client st = Some h" and up: "redis_up env h"
    and mem: "(p, s, hs) \<in> set (group_entries gs)"
    and fresh: "host_check_sum st (check_sum_key p s) \<noteq> Some (entry_sum js (p, s, hs))"
  shows "get_host_list_from_redis js env p s
           (sync_schedule js env order ds (snd (snd (sync_all_host_list_log js env order st)))) =
         (if sum_list ds < host_ttl then Inr hs else Inl ''redis: nil'')"
proof -
  let ?st1 = "snd (snd (sync_all_host_list_log js env order st))"
  have o: "group_perm (order gs) gs"
    using order by simp
  note pub = sync_log_publishes [where order = order, OF js g o dc dr h up mem fresh]
  have g1: "sync_groups env ?st1 = Inr gs"
    using g sync_groups_docker_api [of ?st1 st env] by (simp add: sync_log_state [OF g])
  have h1: "redis_client ?st1 = Some h"
    using h by (simp add: sync_log_state [OF g])
  have "sync_schedule js env order ds ?st1 = redis_elapse (sum_list ds) ?st1"
    using sync_schedule_quiet [where order = order, OF g1 o pub(1)] .
  moreover have "redis_db (redis_elapse (sum_list ds) ?st1) h (redis_key p s) =
      (if sum_list ds < host_ttl then Some (marshal js hs, host_ttl - sum_list ds) else None)"
    using pub(2) by (simp add: redis_elapse_key host_ttl_def)
  ultimately show ?thesis
    using h1 up js by (simp add: get_host_list_from_redis_def json_law_def)
qed

lemma unchanged_group_expires_witness:
  "get_host_list_from_redis demo_json demo_sync_env ''p1'' ''web''
     (sync_schedule demo_json demo_sync_env demo_order [345600, 259200]
       (snd (snd (sync_all_host_list_log demo_json demo_sync_env demo_order demo_sync_state)))) = Inl ''redis: nil''"
  using unchanged_group_expires [where st = demo_sync_state and order = demo_order and h = "''redis:6379''"
      and p = "''p1''" and s = "''web''" and hs = "[''10.0.0.1:8080'', ''10.0.0.2:8080'']" and ds = "[345600, 259200]",
      OF demo_json_law demo_sync_groups] demo_order_perm
  by (simp add: demo_entries entry_check_key_def entry_redis_key_def check_sum_key_def redis_key_def
      demo_sync_state_def demo_sync_env_def host_ttl_def)

end
