(* ===== verification/Host_Sync_Logging.thy ===== *)
theory Host_Sync_Logging
  imports Host_Sync_Expiry
begin

text \<open>
  What \<open>host_sync\<close> writes to its log. Besides the per-pool line of
  \<open>SyncAllHostList\<close> (\<open>sync_log_line\<close> of \<open>Host_Sync_Pools\<close>),
  \<open>GetHostListFromRedis\<close> prints the error of a failed \<open>GET\<close> (line 133)
  and the raw value it read (line 138) before decoding it.
  \<open>get_host_list_from_redis_log\<close> is that function with its log output; the
  lemmas show that logging does not change its result, and what the log of
  a first synchronisation reports for every pool.
\<close>

text \<open>\<open>GetHostListFromRedis\<close> with the lines \<open>log.Println\<close> prints
  (\<open>Println\<close> separates its operands by a space), without the logger's
  time prefix.\<close>

definition get_host_list_from_redis_log ::
  "json_codec \<Rightarrow> sync_env \<Rightarrow> string \<Rightarrow> string \<Rightarrow> sync_state \<Rightarrow> string list \<times> (string + string list)" where
  "get_host_list_from_redis_log js env pool name st =
     (case redis_client st of
        None \<Rightarrow> ([], Inl ''Please Call SetRedisHost()'')
      | Some host \<Rightarrow>
          let key = redis_key pool name;
              ret = (if \<not> redis_up env host then Inl ''redis: connection refused''
                     else (case redis_db st host key of None \<Rightarrow> Inl ''redis: nil'' | Some (val, _) \<Rightarrow> Inr val))
          in (case ret of
                Inl err \<Rightarrow> ([''[GetHostListFromRedis]: '' @ err], Inl err)
              | Inr val \<Rightarrow> ([val], unmarshal js val)))"

section \<open>Properties of the log\<close>

lemma get_host_list_from_redis_log_result:
  "snd (get_host_list_from_redis_log js env pool name st) = get_host_list_from_redis js env pool name st"
  by (simp add: get_host_list_from_redis_log_def get_host_list_from_redis_def Let_def
      split: option.splits prod.splits)

lemma get_host_list_from_redis_log_value:
  "redis_client st = Some h \<Longrightarrow> redis_up env h \<Longrightarrow> redis_db st h (redis_key pool name) = Some (v, t) \<Longrightarrow>
   get_host_list_from_redis_log js env pool name st = ([v], unmarshal js v)"
  by (simp add: get_host_list_from_redis_log_def)

lemma publish_all_check_sum_other:
  assumes js: "json_law js" and d: "distinct (map entry_check_key es)" and k: "k \<notin> entry_check_key ` set es"
  shows "host_check_sum (publish_all js env es st) k = host_check_sum st k"
proof -
  have "find (\<lambda>e. entry_check_key e = k) es = None"
    using k unfolding find_None_iff by blast
  then show ?thesis
    using publish_all_check_sum [OF js d, of env st k] by simp
qed

lemma pool_services_distinct:
  "distinct (map entry_check_key (map (\<lambda>(s, hs). (p, s, hs)) svcs)) \<Longrightarrow> distinct (map fst svcs)"
  by (induction svcs) (auto simp: entry_check_key_def)

lemma publish_pools_fresh_log:
  assumes js: "json_law js" and d: "distinct (map entry_check_key (group_entries gs))"
    and fresh: "\<forall>e \<in> set (group_entries gs). host_check_sum st (entry_check_key e) = None"
  shows "fst (publish_pools js env gs st) = map (\<lambda>(p, svcs). sync_log_line p (length svcs) (length svcs)) gs"
  using d fresh
proof (induction gs arbitrary: st)
  case (Cons g gs)
  obtain p svcs where g: "g = (p, svcs)" by (cases g)
  let ?es = "map (\<lambda>(s, hs). (p, s, hs)) svcs"
  let ?st1 = "publish_all js env ?es st"
  have dp: "distinct (map entry_check_key ?es)" and dr: "distinct (map entry_check_key (group_entries gs))"
    and disj: "entry_check_key ` set ?es \<inter> entry_check_key ` set (group_entries gs) = {}"
    using Cons.prems(1) by (simp_all add: g image_image)
  have ds: "distinct (map fst svcs)"
    using dp by (rule pool_services_distinct)
  have none: "\<forall>(s, hs) \<in> set svcs. host_check_sum st (check_sum_key p s) = None"
  proof (intro ballI, clarify)
    fix s hs assume "(s, hs) \<in> set svcs"
    then have "(p, s, hs) \<in> set (group_entries (g # gs))"
      by (auto simp: g)
    then show "host_check_sum st (check_sum_key p s) = None"
      using Cons.prems(2) by (fastforce simp: entry_check_key_def)
  qed
  then have "filter (\<lambda>(s, hs). host_check_sum st (check_sum_key p s) \<noteq> Some (hex_encode (marshal js hs))) svcs = svcs"
    by (intro filter_True) auto
  then have line: "publish_pool js env st g = (sync_log_line p (length svcs) (length svcs), ?st1)"
    by (simp add: g publish_pool_split pool_fold_changed [OF js ds] pool_fold_state)
  have "\<forall>e \<in> set (group_entries gs). host_check_sum ?st1 (entry_check_key e) = None"
  proof
    fix e assume e: "e \<in> set (group_entries gs)"
    then have "entry_check_key e \<notin> entry_check_key ` set ?es"
      using disj by blast
    then show "host_check_sum ?st1 (entry_check_key e) = None"
      using publish_all_check_sum_other [OF js dp] Cons.prems(2) e by (simp add: g)
  qed
  then have "fst (publish_pools js env gs ?st1) = map (\<lambda>(p, svcs). sync_log_line p (length svcs) (length svcs)) gs"
    using Cons.IH [OF dr] by blast
  then show ?case
    using line by (simp del: publish_pools.simps add: publish_pools_Cons_split g)
qed simp

text \<open>
  C28: The first SyncAllHostList against a Docker listing, when no group's
  checksum is recorded yet and no two groups share a checksum key, succeeds
  and logs one line per pool of the grouping, in the order the runtime
  visits the pools, each counting every service of the pool as changed; a
  pool whose containers have no address logs \<open>services:0 changed:0\<close>.
\<close>

theorem first_sync_log:
  assumes js: "json_law js" and g: "sync_groups env st = Inr gs" and order: "group_perm (order gs) gs"
    and d: "distinct (map entry_check_key (group_entries gs))"
    and fresh: "\<forall>e \<in> set (group_entries gs). host_check_sum st (entry_check_key e) = None"
  shows "fst (sync_all_host_list_log js env order st) = None \<and>
    fst (snd (sync_all_host_list_log js env order st)) =
      map (\<lambda>(p, svcs). sync_log_line p (length svcs) (length svcs)) (order gs)"
proof -
  have m: "mset (group_entries (order gs)) = mset (group_entries gs)"
    using order by (rule group_perm_entries)
  have d': "distinct (map entry_check_key (group_entries (order gs)))"
    using d m by (metis mset_map mset_eq_imp_distinct_iff)
  have fresh': "\<forall>e \<in> set (group_entries (order gs)). host_check_sum st (entry_check_key e) = None"
    using fresh mset_eq_setD [OF m] by simp
  show ?thesis
    using publish_pools_fresh_log [OF js d' fresh', of env] g
    by (simp add: sync_all_host_list_log_def split: prod.splits)
qed

lemma first_sync_log_witness:
  "fst (sync_all_host_list_log demo_json demo_sync_env demo_order demo_sync_state) = None \<and>
   fst (snd (sync_all_host_list_log demo_json demo_sync_env demo_order demo_sync_state)) =
     [''[SyncAllHostList] p2 services:1 changed:1'', ''[SyncAllHostList] p1 services:1 changed:1'']"
  using first_sync_log [where order = demo_order and st = demo_sync_state,
      OF demo_json_law demo_sync_groups demo_order_perm]
  by (simp add: demo_entries entry_check_key_def check_sum_key_def demo_sync_state_def demo_order_def
      sync_log_line_def digit_char_def)

end
