(* ===== verification/Spec2Isabelle.thy ===== *)
theory Spec2Isabelle
  imports Client_Concurrency Host_Sync_Logging
begin

text \<open>
  A verification library for yar.go: the client of the Yar binary RPC
  protocol (\<open>src/client/client.go\<close>, package \<open>client\<close>) and the host-list
  synchroniser (\<open>src/unnamed/part_000\<close>, package \<open>host_sync\<close>). Both are
  shallow embeddings: each Go function is a HOL function of the same name in
  snake case, its global state is a record passed in and returned, every
  error it returns and every panic it can raise is a value of the result
  type, and what the libraries it calls do (fasthttp, the resolver, the
  network, gzip, the Docker API, Redis, the JSON codec) is an environment
  record, a parameter of every theorem.

  \<^bold>\<open>The parts and how they interact.\<close> A \<open>Call\<close> builds a request
  (\<open>initRequest\<close>), encodes it with the codec named in the options
  (\<open>packRequest\<close>), frames it behind the 80-byte protocol header, picks one
  of two process-wide HTTP handles, writes the call's timeout into it, posts
  the frame (optionally gzip-compressed), and decodes the reply
  (\<open>readResponse\<close>): header, length check, envelope decode, status, and the
  two-stage decode of the return value into the caller's target. The host
  synchroniser reads containers from the Docker API, groups their addresses
  by pool and service, and publishes each group to Redis when its checksum
  changed; the client itself never calls it.

  \<^bold>\<open>Theories.\<close>
  \<^item> \<open>Yar_Prelude\<close>: bytes as \<open>8 word\<close>, header integers as \<open>32 word\<close>, Go's
    string/byte-slice conversions, the theorem collections.
  \<^item> \<open>Yar_Protocol\<close> (package \<open>yar\<close>, not in the sources, modelled from the
    specification): error kinds and \<open>go_fault\<close> (a yar error or a panic),
    the options \<open>opt\<close>, \<open>str_to_fixed_bytes\<close>, big-endian \<open>be32\<close>, the header
    record with \<open>header_bytes\<close> and \<open>header_init\<close>; the header round trip.
  \<^item> \<open>Yar_Packager\<close> (package \<open>packager\<close>, from the specification): the
    dynamic value \<open>dyn\<close> a codec decodes into, the codec interface
    (\<open>codec\<close>, \<open>registry\<close>, \<open>pack\<close>, \<open>unpack\<close>) with its contract
    \<open>codec_law\<close>, the request and response envelopes, and a one-byte
    dictionary codec \<open>table_codec\<close> that keeps the contract, used by the
    witnesses.
  \<^item> \<open>Client_Request\<close>: \<open>Client\<close> as the record \<open>client\<close>; \<open>init_request\<close>
    (\<open>initRequest\<close>, lines 98--127) with its index loops \<open>copy_into\<close>, and
    \<open>pack_request\<close> (\<open>packRequest\<close>, lines 129--153) with its range loop
    \<open>copy_range\<close>; an index out of range is a \<open>Panic\<close>.
  \<^item> \<open>Client_Response\<close>: \<open>read_response\<close> (\<open>readResponse\<close>, lines
    155--208) with Go's \<open>uint32\<close> length arithmetic, and the reference
    \<open>read_response_direct\<close> that converts the return value without the
    re-encoding.
  \<^item> \<open>Client_Transport\<close>: the shared handles (\<open>httpClient\<close>,
    \<open>dnsCacheHttpClient\<close>) as the state \<open>handles\<close> of read timeouts; the
    DNS-cache dialer \<open>dns_dial\<close> (lines 43--53); \<open>httpHandler\<close> split into
    \<open>http_prepare\<close> (lines 210--272, everything up to the hand-over to the
    shared handle) and \<open>http_dispatch\<close> (lines 274--298), composed by
    \<open>http_handler\<close>; \<open>call\<close>, \<open>new_client\<close>, \<open>client_init\<close>,
    \<open>sock_handler\<close>; Go's \<open>int64\<close> duration \<open>go_duration_ms\<close>.
  \<^item> \<open>Host_Sync\<close>: the globals \<open>dockerAPI\<close>, \<open>redisClient\<close>,
    \<open>hostCheckSum\<close> and the Redis databases as \<open>sync_state\<close>; the setters,
    \<open>set_host_list_to_redis\<close>, \<open>get_host_list_from_redis\<close>,
    \<open>get_host_list_from_docker_api\<close>, and \<open>sync_all_host_list\<close> as its
    two loops \<open>group_containers\<close> (a fold of \<open>add_container\<close>) and
    \<open>publish_all\<close> (a recursion over \<open>publish_entry\<close>); \<open>fmt.Sprint\<close>,
    \<open>hex.EncodeToString\<close> and the pool regular expression as functions.
  \<^item> \<open>Host_Sync_Machine\<close>: the synchroniser over time. \<open>init_sync_state\<close>
    is the package's \<open>init\<close>; \<open>redis_elapse\<close> is the passing of time on
    the Redis servers (Redis's expiry of keys, which the seven-day expiry of
    line 156 asks for; not code of the repository); \<open>sync_step\<close> is one
    \<open>SetDockerAPI\<close> call, one \<open>SyncAllHostList\<close> call against a
    reachable Redis server and separator-free names, or a lapse of time, and
    \<open>sync_reach\<close> the states reachable after \<open>SetRedisHost\<close>;
    \<open>store_consistent\<close> is the invariant linking the checksums to the
    store, and \<open>hex_decode\<close> inverts the checksum encoding.
  \<^item> \<open>Client_Concurrency\<close>: goroutines running \<open>httpHandler\<close> at the
    same time, as schedules of \<open>Prepare i\<close> and \<open>Dispatch i\<close> events
    (\<open>call_event\<close>) executed by \<open>run_calls\<close> on the shared handles;
    \<open>solo_result\<close> is a call's result running alone.
  \<^item> \<open>Host_Sync_Pools\<close>: the publishing loop of \<open>SyncAllHostList\<close> as
    the code writes it (lines 250--268): \<open>publish_service\<close> (the inner
    body with the counter \<open>changed\<close>), \<open>publish_pool\<close> (the outer body
    and its log line \<open>sync_log_line\<close>), \<open>publish_pools\<close>, and
    \<open>sync_all_host_list_log\<close>, whose map order is any nested reordering
    (\<open>group_perm\<close>) of the grouping.
  \<^item> \<open>Host_Sync_Expiry\<close>: a synchroniser that runs \<open>SyncAllHostList\<close> after each of a list of pauses
    (\<open>sync_schedule\<close>).
  \<^item> \<open>Host_Sync_Logging\<close>: \<open>GetHostListFromRedis\<close> with the lines it
    logs (\<open>get_host_list_from_redis_log\<close>), and the log of a first sync.
  \<^item> \<open>Spec2Isabelle\<close> (this theory): a Yar peer (\<open>yar_peer\<close>) and a
    network whose only peer it is (\<open>zip_loopback_env\<close>, with an HTTP
    front end \<open>yar_server\<close> that handles gzip), and the properties of
    a whole call.

  \<^bold>\<open>What the lemmas show.\<close> End to end (C1--C3): a call to a peer that
  answers OK returns the peer's value and a peer error becomes a Response
  error, whichever compression flags and handle the call uses, and the posted
  frame, decompressed if need be, decodes to the call's request. readResponse
  (C4--C11): every branch, the equivalence of the two-stage decode with a
  direct conversion whenever the codecs keep their contract, and what it does
  not check (tag, id, codec name). Request building (C12--C13), and the
  copy loop of initRequest, which always stops and panics exactly when its
  source is short (C38). Transport (C14--C21): the only two panics a Call
  can raise (C14), the frame's length field, gzip, the timeout race on the shared handle (C17) and its
  converse for any interleaving of calls that agree on their timeouts (C18),
  the DNS dialer and the gunzip fallback; lemmas give the \<open>int64\<close>
  bounds of the timeout (\<open>go_duration_ms_small\<close>,
  \<open>go_duration_ms_wraps\<close>) and the array widths of the headers.
  Host sync (C23--C33): the first sync publishes every group whatever the
  map iteration order, publication is order independent for distinct keys,
  the code's nested loop refines the flat loop and is a step of the machine
  (C25), its log line counts the groups it rewrites (C26), the grouping
  refines its reference \<open>group_hosts\<close>, the first run logs every service
  of every pool as changed (C28), a second run over an unchanged grouping is
  quiet (C29), and the three ways publication goes wrong (a
  failed write, a checksum-key collision that hides a group with an equal
  list, and one whose pool visited second is rewritten on every run, in any
  visiting order). Over time (C34--C37), with keys expiring between the
  calls: in every reachable state a recorded checksum is that of the list
  stored under its key, if the key has not expired, and the key expires
  within seven days (C34); the next sync leaves every group readable except
  one whose list expired while its checksum stayed current (C35); switching
  the Redis server and GetHostListFromDockerAPI are the operations that
  break the invariant. Under repeated syncs
  (C22): a group that stays unchanged vanishes from Redis seven days after
  it was written, however often the synchroniser runs, since the checksum
  gate never renews its expiry.

  \<^bold>\<open>Bounds.\<close> No loop of the code can run forever, so no fuel is used:
  every loop is a recursion over a list or a decreasing number, whose
  termination the function package proves; the index loop \<open>copy_into\<close>
  terminates by the measure of the indices left in the array. The one arithmetic bound is on reply
  bodies: the length lemmas assume an envelope shorter than
  \<open>2^32 - 8\<close> bytes, the largest whose length plus the 8-byte codec field
  fits the header's \<open>uint32\<close>; beyond it the header's length wraps, as the
  code's does. Timeouts are exact up to 9223372036854 ms and wrap beyond.

  \<^bold>\<open>Not modelled.\<close> The \<open>transports\<close> package (socket transports are only
  recorded in the client; \<open>Call\<close> never uses them), the inside of fasthttp,
  the resolver, gzip, the Docker HTTP request and Redis beyond their
  observable results (the environment records), concrete codecs (only their
  contract), the logger's time prefix (every log line itself is an
  output of the model), and real concurrency: the race on the shared handle is stated
  over explicit interleavings of the two phases of the handler, atomic each,
  and Go's map iteration order is a parameter (\<open>sched\<close> for the flat
  loop, \<open>order\<close> for the nested one). Time passes only where a theorem
  says so (the \<open>elapse\<close> step of \<open>sync_step\<close>, \<open>sync_schedule\<close>);
  the other theorems state what happens between two instants, so keys do not
  expire there. JSON
  numbers are integers; \<open>fmt.Sprint\<close> of floats is modelled for integral values.
\<close>

section \<open>A Yar peer on the other end\<close>

text \<open>
  The server side, from the protocol's description: it reads the header,
  refuses a body whose length is not the header's \<open>body_len\<close> (a 32-bit
  field, so compared modulo \<open>2^32\<close>), reads the request envelope with the
  codec named in the header, serves the call,
  and answers with a reply framed by \<open>reply_frame\<close> under the request's
  header. \<open>zip_loopback_env\<close> is a network whose only peer is that
  server, reached directly or through a resolver that answers each host with
  itself, and whose gzip writer \<open>z\<close> and reader \<open>uz\<close> are shared by
  client and server.
\<close>

definition yar_peer ::
  "registry \<Rightarrow> string \<Rightarrow> (int \<Rightarrow> string \<Rightarrow> dyn list \<Rightarrow> response) \<Rightarrow> http_request \<Rightarrow> string + http_response" where
  "yar_peer reg name serve req =
     (let body = hreq_body req in
      if length body < header_width then Inl ''short request''
      else if hdr_body_length (header_init body) \<noteq> of_nat (length body - header_width + packager_length)
      then Inl ''bad body length''
      else case unpack reg name (drop header_width body) request_of_value of
             Inl e \<Rightarrow> Inl e
           | Inr (i, m, ps) \<Rightarrow>
               (case pack reg name (response_value (serve i m ps)) of
                  Inl e \<Rightarrow> Inl e
                | Inr out \<Rightarrow> Inr \<lparr>hresp_content_encoding = [], hresp_body = reply_frame (header_init body) out\<rparr>))"

text \<open>A Yar server behind an HTTP front end that decompresses a request
  whose Content-Encoding is gzip and compresses its reply when the client
  accepts gzip.\<close>

definition yar_server ::
  "registry \<Rightarrow> string \<Rightarrow> (int \<Rightarrow> string \<Rightarrow> dyn list \<Rightarrow> response) \<Rightarrow> (bytes \<Rightarrow> bytes) \<Rightarrow>
   (bytes \<Rightarrow> string + bytes) \<Rightarrow> http_request \<Rightarrow> string + http_response" where
  "yar_server reg name serve z uz req =
     (case (if hreq_content_encoding req = Some ''gzip'' then uz (hreq_body req) else Inr (hreq_body req)) of
        Inl e \<Rightarrow> Inl e
      | Inr body \<Rightarrow>
          (case yar_peer reg name serve (req\<lparr>hreq_body := body\<rparr>) of
             Inl e \<Rightarrow> Inl e
           | Inr resp \<Rightarrow>
               Inr (if hreq_accept_encoding req = Some ''gzip''
                    then \<lparr>hresp_content_encoding = ''gzip'', hresp_body = z (hresp_body resp)\<rparr> else resp)))"

definition zip_loopback_env ::
  "registry \<Rightarrow> string \<Rightarrow> (int \<Rightarrow> string \<Rightarrow> dyn list \<Rightarrow> response) \<Rightarrow> (bytes \<Rightarrow> bytes) \<Rightarrow>
   (bytes \<Rightarrow> string + bytes) \<Rightarrow> net_env" where
  "zip_loopback_env reg name serve z uz =
     \<lparr>lookup = (\<lambda>host. Inr [host]), default_dial = Inr, addr_of_uri = (\<lambda>uri. uri),
      exchange = (\<lambda>conn req rt deadline. yar_server reg name serve z uz req),
      gzip = (\<lambda>bs. Inr (z bs)), gunzip = uz\<rparr>"

definition demo_zip :: "bytes \<Rightarrow> bytes" where
  "demo_zip bs = 0x1f # bs"

definition demo_unzip :: "bytes \<Rightarrow> string + bytes" where
  "demo_unzip bs = (case bs of b # rest \<Rightarrow> if b = 0x1f then Inr rest else Inl ''gzip: invalid header'' | [] \<Rightarrow> Inl ''unexpected EOF'')"

text \<open>Two services: one that echoes its single argument, one that fails.\<close>

definition echo_serve :: "int \<Rightarrow> string \<Rightarrow> dyn list \<Rightarrow> response" where
  "echo_serve i m ps =
     \<lparr>resp_id = i, resp_error = [], resp_status = 0,
      resp_retval = (case ps of [p] \<Rightarrow> p | _ \<Rightarrow> VNull)\<rparr>"

definition boom_serve :: "int \<Rightarrow> string \<Rightarrow> dyn list \<Rightarrow> response" where
  "boom_serve i m ps = \<lparr>resp_id = i, resp_error = ''boom'', resp_status = 1, resp_retval = VNull\<rparr>"

definition demo_zip_client :: client where
  "demo_zip_client = demo_client\<lparr>client_opt := demo_opt\<lparr>request_gzip := True, accept_gzip := True, dns_cache := True\<rparr>\<rparr>"

text \<open>A DNS-cache client, and a network whose requests go to an address
  without a port.\<close>

definition demo_dns_client :: client where
  "demo_dns_client = demo_client\<lparr>client_opt := demo_opt\<lparr>dns_cache := True\<rparr>\<rparr>"

definition demo_bare_env :: net_env where
  "demo_bare_env = demo_net_env\<lparr>addr_of_uri := (\<lambda>uri. ''svc.local'')\<rparr>"

section \<open>Properties across the components\<close>

lemma echo_serve_demo: "echo_serve 7 ''Echo'' [VStr ''hi''] = demo_ok_response"
  by (simp add: echo_serve_def demo_ok_response_def)

lemma boom_serve_demo: "boom_serve 7 ''Echo'' [VStr ''hi''] = demo_err_response"
  by (simp add: boom_serve_def demo_err_response_def)

lemma http_prepare_frame_eq:
  assumes "method \<noteq> []"
    and "pack_request reg c (built_request c rid method params) = Inr (r, pb)"
    and "\<forall>bs. gzip env bs = Inr (z bs)"
  shows "http_prepare reg env st c rid method params =
    (Inr (if dns_cache (client_opt c) then DnsCacheHttpClient else HttpClient,
          \<lparr>hreq_uri = hostname c, hreq_method = ''POST'',
           hreq_body = (let frame = header_bytes ((req_protocol r)\<lparr>hdr_body_length := of_nat (length pb + packager_length)\<rparr>) @ pb
                        in if request_gzip (client_opt c) then z frame else frame),
           hreq_accept_encoding = (if accept_gzip (client_opt c) then Some ''gzip'' else None),
           hreq_content_encoding = (if request_gzip (client_opt c) then Some ''gzip'' else None),
           hreq_connection_close = True\<rparr>),
     set_read_timeout st (if dns_cache (client_opt c) then DnsCacheHttpClient else HttpClient)
       (go_duration_ms (timeout (client_opt c))))"
  using assms by (simp add: http_prepare_def init_request_eq Let_def)

lemma call_zip_loopback:
  assumes law: "registry_law reg"
    and scheme: "net c = ''http'' \<or> net c = ''https''"
    and m: "method \<noteq> []"
    and zl: "\<forall>bs. uz (z bs) = Inr bs"
    and dns: "dns_cache (client_opt c) \<longrightarrow> last_index (hostname c) CHR '':'' \<noteq> None"
    and short_name: "length (packager (client_opt c)) \<le> packager_length"
    and enc_req: "pack reg (packager (client_opt c)) (request_value (built_request c rid method params)) = Inr pb"
    and enc_resp: "pack reg (packager (client_opt c))
       (response_value (serve (uint rid) method (case params of None \<Rightarrow> [] | Some xs \<Rightarrow> xs))) = Inr out"
  shows "\<exists>h'. header_wf h' \<and>
    fst (call reg (zip_loopback_env reg (packager (client_opt c)) serve z uz) st c method ret params rid) =
    read_response reg c (reply_frame h' out) ret"
proof -
  let ?name = "packager (client_opt c)"
  let ?env = "zip_loopback_env reg ?name serve z uz"
  let ?r = "(built_request c rid method params)\<lparr>req_protocol := (req_protocol (built_request c rid method params))
           \<lparr>hdr_packager := str_to_fixed_bytes ?name packager_length\<rparr>\<rparr>"
  let ?h = "(req_protocol ?r)\<lparr>hdr_body_length := of_nat (length pb + packager_length)\<rparr>"
  let ?H = "if dns_cache (client_opt c) then DnsCacheHttpClient else HttpClient"
  let ?frame = "header_bytes ?h @ pb"
  let ?req = "\<lparr>hreq_uri = hostname c, hreq_method = ''POST'',
           hreq_body = (if request_gzip (client_opt c) then z ?frame else ?frame),
           hreq_accept_encoding = (if accept_gzip (client_opt c) then Some ''gzip'' else None),
           hreq_content_encoding = (if request_gzip (client_opt c) then Some ''gzip'' else None),
           hreq_connection_close = True\<rparr>"
  have take_name: "take packager_length ?name = ?name"
    using short_name by simp
  have pk: "pack_request reg c (built_request c rid method params) = Inr (?r, pb)"
    using pack_request_built [of reg c rid "method" params pb] enc_req take_name by simp
  have wf: "header_wf ?h"
    using pack_request_built_wf [OF pk] by simp
  have prep: "http_prepare reg ?env st c rid method params =
    (Inr (?H, ?req), set_read_timeout st ?H (go_duration_ms (timeout (client_opt c))))"
    using http_prepare_frame_eq [OF m pk, of ?env z] by (simp add: zip_loopback_env_def Let_def)
  have dec: "unpack reg ?name pb request_of_value = Inr (uint rid, method, (case params of None \<Rightarrow> [] | Some xs \<Rightarrow> xs))"
    using unpack_pack [OF law enc_req, of request_of_value] by (simp add: built_request_value)
  have bl: "hdr_body_length (header_init ?frame) = of_nat (length ?frame - header_width + packager_length)"
  proof -
    have "unat (hdr_body_length (header_init ?frame)) = (length ?frame - header_width + packager_length) mod 2 ^ 32"
      using frame_body_length [OF pack_request_built_wf [OF pk]] by simp
    then show ?thesis
      by (rule u32_of_nat_unat)
  qed
  have peer: "yar_peer reg ?name serve q = Inr \<lparr>hresp_content_encoding = [], hresp_body = reply_frame ?h out\<rparr>"
    if "hreq_body q = ?frame" for q
    using wf bl dec enc_resp that by (simp add: yar_peer_def)
  have srv: "yar_server reg ?name serve z uz ?req =
      Inr (if accept_gzip (client_opt c)
           then \<lparr>hresp_content_encoding = ''gzip'', hresp_body = z (reply_frame ?h out)\<rparr>
           else \<lparr>hresp_content_encoding = [], hresp_body = reply_frame ?h out\<rparr>)"
    using zl by (cases "request_gzip (client_opt c)") (simp_all add: yar_server_def peer)
  have dial: "do_timeout ?env ?H (set_read_timeout st ?H (go_duration_ms (timeout (client_opt c)))) ?req d =
      Some (yar_server reg ?name serve z uz ?req)" for d
    using dns by (auto simp: do_timeout_def zip_loopback_env_def dns_dial_def)
  have "fst (call reg ?env st c method ret params rid) = read_response reg c (reply_frame ?h out) ret"
    using scheme prep srv dial zl
    by (simp add: call_def http_handler_def http_dispatch_def zip_loopback_env_def)
  with wf show ?thesis
    by blast
qed

text \<open>
  C3: The body httpHandler posts, decompressed first when request
  compression is on and the network's gunzip inverts its gzip, decodes after
  its 80-byte header and with the codec it names to the request's id,
  method and parameters.
\<close>

theorem posted_request_roundtrip:
  assumes "registry_law reg" and "\<forall>bs z. gzip env bs = Inr z \<longrightarrow> gunzip env z = Inr bs"
    and "http_prepare reg env st c rid method params = (Inr (h, req), st')"
  shows "\<exists>frame. (if request_gzip (client_opt c) then gunzip env (hreq_body req) = Inr frame else frame = hreq_body req) \<and>
    unpack reg (take packager_length (packager (client_opt c))) (drop header_width frame)
           request_of_value = Inr (uint rid, method, (case params of None \<Rightarrow> [] | Some xs \<Rightarrow> xs))"
proof -
  obtain r pb where pk: "pack_request reg c (built_request c rid method params) = Inr (r, pb)"
    and body: "(if request_gzip (client_opt c)
      then gzip env (header_bytes ((req_protocol r)\<lparr>hdr_body_length := of_nat (length pb + packager_length)\<rparr>) @ pb) = Inr (hreq_body req)
      else hreq_body req = header_bytes ((req_protocol r)\<lparr>hdr_body_length := of_nat (length pb + packager_length)\<rparr>) @ pb)"
    using http_prepare_Inr [OF assms(3)] by metis
  let ?frame = "header_bytes ((req_protocol r)\<lparr>hdr_body_length := of_nat (length pb + packager_length)\<rparr>) @ pb"
  have fr: "if request_gzip (client_opt c) then gunzip env (hreq_body req) = Inr ?frame else ?frame = hreq_body req"
    using body assms(2) by (auto split: if_splits)
  have wf: "header_wf (req_protocol r)"
    using pk by (rule pack_request_built_wf)
  have enc: "pack reg (take packager_length (packager (client_opt c))) (request_value r) = Inr pb"
    and rv: "request_value r = request_value (built_request c rid method params)"
    using pk by (auto simp: pack_request_eq Let_def split: sum.splits)
  have "drop header_width ?frame = pb"
    using wf by simp
  then have "unpack reg (take packager_length (packager (client_opt c))) (drop header_width ?frame) request_of_value =
      Inr (uint rid, method, (case params of None \<Rightarrow> [] | Some xs \<Rightarrow> xs))"
    using unpack_pack [OF assms(1) enc, of request_of_value] rv by (simp add: built_request_value)
  with fr show ?thesis
    by blast
qed

lemma posted_request_roundtrip_witness:
  "\<exists>h req st'. http_prepare demo_registry demo_net_env demo_handles demo_client 7 ''Echo'' (Some [VStr ''hi'']) =
     (Inr (h, req), st') \<and>
     unpack demo_registry ''json'' (drop header_width (hreq_body req)) request_of_value = Inr (7, ''Echo'', [VStr ''hi''])"
proof -
  obtain h req st' where eq: "http_prepare demo_registry demo_net_env demo_handles demo_client 7 ''Echo''
      (Some [VStr ''hi'']) = (Inr (h, req), st')"
    using demo_prepare_plain by blast
  have "\<forall>bs z. gzip demo_net_env bs = Inr z \<longrightarrow> gunzip demo_net_env z = Inr bs"
    by (simp add: demo_net_env_def)
  from posted_request_roundtrip [OF demo_registry_law this eq] eq show ?thesis
    by (auto simp: packager_length_def demo_client_def demo_opt_def)
qed

text \<open>
  C1: A Call over HTTP to a Yar peer that serves it with status OK returns
  the peer's return value converted to the caller's type, with or without
  request compression, accepted reply compression and the DNS-cache handle:
  the request the client frames, encodes and maybe compresses reaches the
  peer as the method and parameters of the call, and the peer's framed and
  maybe compressed reply passes every check of readResponse.
\<close>

theorem call_round_trip_ok:
  assumes "registry_law reg" and "net c = ''http'' \<or> net c = ''https''" and "method \<noteq> []"
    and "\<forall>bs. uz (z bs) = Inr bs"
    and "dns_cache (client_opt c) \<longrightarrow> last_index (hostname c) CHR '':'' \<noteq> None"
    and "length (packager (client_opt c)) \<le> packager_length"
    and "pack reg (packager (client_opt c)) (request_value (built_request c rid method params)) = Inr pb"
    and "serve (uint rid) method (case params of None \<Rightarrow> [] | Some xs \<Rightarrow> xs) = resp"
    and "pack reg (packager (client_opt c)) (response_value resp) = Inr out"
    and "length out < 2 ^ 32 - 8"
    and "resp_status resp = err_okey" and "conv (resp_retval resp) = Inr t"
  shows "fst (call reg (zip_loopback_env reg (packager (client_opt c)) serve z uz) st c method (Some conv) params rid) =
         Inr (Some t)"
proof -
  obtain h' where "header_wf h'" and eq: "fst (call reg (zip_loopback_env reg (packager (client_opt c)) serve z uz) st c method
      (Some conv) params rid) = read_response reg c (reply_frame h' out) (Some conv)"
    using call_zip_loopback [where z = z and uz = uz, OF assms(1-7)] assms(8,9) by blast
  with read_response_reply [OF assms(1) \<open>header_wf h'\<close> assms(10,9), where ret = "Some conv"] assms(11,12)
  show ?thesis
    by simp
qed

lemma call_round_trip_ok_witness:
  "fst (call demo_registry (zip_loopback_env demo_registry ''json'' echo_serve demo_zip demo_unzip) demo_handles
     demo_zip_client ''Echo'' (Some string_target) (Some [VStr ''hi'']) 7) = Inr (Some ''hi'')"
  using call_round_trip_ok [OF demo_registry_law, of demo_zip_client "''Echo''" demo_unzip demo_zip 7 "Some [VStr ''hi'']"
      "[9]" echo_serve demo_ok_response "[10]" string_target "''hi''" demo_handles]
    demo_pack_echo demo_pack_responses echo_serve_demo
  by (simp add: demo_zip_client_def demo_client_def demo_opt_def demo_ok_response_def err_okey_def packager_length_def
      demo_zip_def demo_unzip_def)

text \<open>
  C2: A Call over HTTP to a Yar peer that answers with a non-zero status
  fails with a Response error carrying the peer's message, whatever the
  caller's result target and whichever compression and handle it uses.
\<close>

theorem call_round_trip_peer_error:
  assumes "registry_law reg" and "net c = ''http'' \<or> net c = ''https''" and "method \<noteq> []"
    and "\<forall>bs. uz (z bs) = Inr bs"
    and "dns_cache (client_opt c) \<longrightarrow> last_index (hostname c) CHR '':'' \<noteq> None"
    and "length (packager (client_opt c)) \<le> packager_length"
    and "pack reg (packager (client_opt c)) (request_value (built_request c rid method params)) = Inr pb"
    and "serve (uint rid) method (case params of None \<Rightarrow> [] | Some xs \<Rightarrow> xs) = resp"
    and "pack reg (packager (client_opt c)) (response_value resp) = Inr out"
    and "length out < 2 ^ 32 - 8"
    and "resp_status resp \<noteq> err_okey"
  shows "fst (call reg (zip_loopback_env reg (packager (client_opt c)) serve z uz) st c method ret params rid) =
         fail ErrorResponse (resp_error resp)"
proof -
  obtain h' where "header_wf h'" and eq: "fst (call reg (zip_loopback_env reg (packager (client_opt c)) serve z uz) st c method
      ret params rid) = read_response reg c (reply_frame h' out) ret"
    using call_zip_loopback [where z = z and uz = uz, OF assms(1-7)] assms(8,9) by blast
  with read_response_reply [OF assms(1) \<open>header_wf h'\<close> assms(10,9), where ret = ret] assms(11)
  show ?thesis
    by simp
qed

lemma call_round_trip_peer_error_witness:
  "fst (call demo_registry (zip_loopback_env demo_registry ''json'' boom_serve demo_zip demo_unzip) demo_handles
     demo_client ''Echo'' (Some string_target) (Some [VStr ''hi'']) 7) = fail ErrorResponse ''boom''"
  using call_round_trip_peer_error [OF demo_registry_law, of demo_client "''Echo''" demo_unzip demo_zip 7
      "Some [VStr ''hi'']" "[9]" boom_serve demo_err_response "[11]" demo_handles "Some string_target"]
    demo_pack_echo demo_pack_responses boom_serve_demo
  by (simp add: demo_client_def demo_opt_def demo_err_response_def err_okey_def packager_length_def
      demo_zip_def demo_unzip_def)

lemma read_response_unpack_error:
  assumes "\<not> length all_body < protocol_length + packager_length"
    and "\<not> (of_nat (length all_body - (protocol_length + packager_length)) :: u32) <
           hdr_body_length (header_init (take (protocol_length + packager_length) all_body)) - of_nat packager_length"
    and "unpack reg (packager (client_opt c)) (drop (protocol_length + packager_length) all_body) response_of_value = Inl e"
  shows "read_response reg c all_body ret = fail ErrorPackager (''Unpack Error:'' @ e)"
  using assms by (simp add: read_response_def Let_def)

lemma fail_not_panic [simp]: "fail k m \<noteq> Inl (Panic msg)"
  by (simp add: fail_def)

lemma read_response_panic:
  "read_response reg c b ret = Inl (Panic msg) \<Longrightarrow> msg = nil_deref_msg"
  by (simp add: read_response_def Let_def split: if_splits sum.splits option.splits)

lemma http_prepare_no_panic:
  "fst (http_prepare reg env st c rid m params) \<noteq> Inl (Panic msg)"
  by (auto simp: http_prepare_def init_request_eq Let_def pack_request_eq fail_def split: sum.splits prod.splits)

lemma http_dispatch_panic:
  "http_dispatch reg env st c h req ret = Inl (Panic msg) \<Longrightarrow> msg = dial_panic_msg \<or> msg = nil_deref_msg"
  by (auto simp: http_dispatch_def Let_def dest: read_response_panic split: option.splits sum.splits)

text \<open>
  C14: A Call panics only in two places: readResponse dereferencing the nil
  response of a null envelope, and the DNS-cache dialer slicing an address
  without a colon. Every other failure of a Call is one of the five
  classified yar errors.
\<close>

theorem call_panics:
  assumes "fst (call reg env st c m ret params rid) = Inl (Panic msg)"
  shows "msg = nil_deref_msg \<or> msg = dial_panic_msg"
proof (cases "http_prepare reg env st c rid m params")
  case (Pair res st')
  show ?thesis
  proof (cases res)
    case (Inl f)
    then show ?thesis
      using assms Pair http_prepare_no_panic [of reg env st c rid m params msg]
      by (simp add: call_def http_handler_def split: if_splits)
  next
    case (Inr hr)
    then obtain h req where "res = Inr (h, req)" by (cases hr) auto
    then have "http_dispatch reg env st' c h req ret = Inl (Panic msg)"
      using assms Pair by (simp add: call_def http_handler_def split: if_splits)
    then show ?thesis
      using http_dispatch_panic by blast
  qed
qed

lemma call_panics_witness:
  "fst (call demo_registry demo_bare_env demo_handles demo_dns_client ''Echo'' (None :: string target option)
          (Some [VStr ''hi'']) 7) = Inl (Panic dial_panic_msg) \<and>
   (dial_panic_msg = nil_deref_msg \<or> dial_panic_msg = dial_panic_msg)"
proof -
  have pk: "pack demo_registry (take packager_length (packager (client_opt demo_dns_client)))
      (request_value (built_request demo_dns_client 7 ''Echo'' (Some [VStr ''hi'']))) = Inr [9]"
    using demo_pack_echo by (simp add: packager_length_def demo_dns_client_def demo_client_def demo_opt_def)
  obtain r where "pack_request demo_registry demo_dns_client (built_request demo_dns_client 7 ''Echo'' (Some [VStr ''hi''])) = Inr (r, [9])"
    using pack_request_built [OF pk] by blast
  then obtain req where prep: "http_prepare demo_registry demo_bare_env demo_handles demo_dns_client 7 ''Echo'' (Some [VStr ''hi'']) =
      (Inr (DnsCacheHttpClient, req), set_read_timeout demo_handles DnsCacheHttpClient (go_duration_ms 2000))"
    and uri: "hreq_uri req = hostname demo_dns_client"
    by (simp add: http_prepare_def init_request_eq Let_def demo_dns_client_def demo_client_def demo_opt_def demo_bare_env_def)
  have "http_dispatch demo_registry demo_bare_env (set_read_timeout demo_handles DnsCacheHttpClient (go_duration_ms 2000))
      demo_dns_client DnsCacheHttpClient req (None :: string target option) = Inl (Panic dial_panic_msg)"
    by (rule http_dispatch_dns_no_colon) (simp add: demo_bare_env_def)
  then have "fst (call demo_registry demo_bare_env demo_handles demo_dns_client ''Echo'' (None :: string target option)
          (Some [VStr ''hi'']) 7) = Inl (Panic dial_panic_msg)"
    using prep by (simp add: call_def http_handler_def demo_dns_client_def demo_client_def)
  with call_panics [OF this] show ?thesis
    by simp
qed

end
